theory Spec2Isabelle
  imports Complex_Main "HOL-Library.Sublist" "HOL-Library.AList" "HOL-Library.Multiset"
begin

section \<open>Python values, exceptions and dictionaries\<close>

text \<open>
  The values the cloud API hands back inside an item (\<^verbatim>\<open>Dict[str, Any]\<close>): only the
  shapes the synchroniser tells apart are kept.
\<close>

datatype pyval = PNone | PBool bool | PInt int | PStr string

text \<open>
  The exceptions that travel through \<^verbatim>\<open>sync/\<close>. \<open>CloudStorageError\<close> is what every
  method of \<^verbatim>\<open>YandexDiskClient\<close> raises, \<open>PlainException\<close> is the bare
  \<^verbatim>\<open>Exception\<close> of \<^verbatim>\<open>_process_folder_rename\<close>, \<open>SyncError\<close> the wrapper of
  \<^verbatim>\<open>FileSynchronizer\<close>; the others come from the interpreter.
\<close>

datatype exn =
    KeyError string
  | TypeError
  | AttributeError
  | CloudStorageError
  | PlainException
  | SyncError

text \<open>
  A local snapshot maps a relative path to \<open>(mtime, size)\<close>; a cloud snapshot maps it to
  the item of the listing. Python dictionaries keep insertion order and have unique keys:
  they are association lists, read with \<^const>\<open>map_of\<close>. Modification times are floats in
  the source; only their order and equality are used, so they are reals here.
\<close>

type_synonym local_state = "(string \<times> (real \<times> int)) list"
type_synonym cloud_item = "string \<rightharpoonup> pyval"
type_synonym cloud_state = "(string \<times> cloud_item) list"

definition dict_keys :: "('k \<times> 'v) list \<Rightarrow> 'k list" where
  "dict_keys d = map fst d"

text \<open>\<^verbatim>\<open>item.get(k)\<close>: a missing key reads as \<^verbatim>\<open>None\<close>.\<close>

definition dict_get :: "cloud_item \<Rightarrow> string \<Rightarrow> pyval" where
  "dict_get item k = (case item k of None \<Rightarrow> PNone | Some v \<Rightarrow> v)"

text \<open>
  A Python \<^verbatim>\<open>set\<close> of strings is iterated in an order fixed by the hashes of its
  elements, which the program does not control. The model takes that order as a parameter
  \<open>rank\<close> and iterates the elements of a set by ascending rank (elements of equal rank in
  the order given); every iteration order of a set is obtained from some \<open>rank\<close>. One
  \<open>rank\<close> serves all the sets of a run; no statement below depends on it.
\<close>

definition set_iter :: "(string \<Rightarrow> nat) \<Rightarrow> string list \<Rightarrow> string list" where
  "set_iter rank xs = sort_key rank (remdups xs)"

section \<open>Change signals (\<^verbatim>\<open>ChangeDetector.check_*_changes\<close>)\<close>

text \<open>The loop \<^verbatim>\<open>for path, (mtime, size) in current_local.items()\<close> with its early return.\<close>

fun local_entries_changed :: "local_state \<Rightarrow> local_state \<Rightarrow> bool" where
  "local_entries_changed [] last_local = False"
| "local_entries_changed ((path, (mtime, fsize)) # rest) last_local =
     (case map_of last_local path of
        None \<Rightarrow> local_entries_changed rest last_local
      | Some (last_mtime, last_size) \<Rightarrow>
          if mtime > last_mtime \<or> fsize \<noteq> last_size then True
          else local_entries_changed rest last_local)"

definition check_local_changes :: "local_state \<Rightarrow> local_state \<Rightarrow> bool" where
  "check_local_changes current_local last_local =
     (if last_local = [] then True
      else
        let added_files = [p \<leftarrow> dict_keys current_local. p \<notin> set (dict_keys last_local)];
            removed_files = [p \<leftarrow> dict_keys last_local. p \<notin> set (dict_keys current_local)]
        in if added_files \<noteq> [] then True
           else if removed_files \<noteq> [] then True
           else local_entries_changed current_local last_local)"

text \<open>The loop \<^verbatim>\<open>for path, item in current_cloud.items()\<close>: only \<^verbatim>\<open>'modified'\<close> is compared.\<close>

fun cloud_entries_changed :: "cloud_state \<Rightarrow> cloud_state \<Rightarrow> bool" where
  "cloud_entries_changed [] last_cloud = False"
| "cloud_entries_changed ((path, item) # rest) last_cloud =
     (case map_of last_cloud path of
        None \<Rightarrow> cloud_entries_changed rest last_cloud
      | Some last_item \<Rightarrow>
          if dict_get item ''modified'' \<noteq> dict_get last_item ''modified'' then True
          else cloud_entries_changed rest last_cloud)"

definition check_cloud_changes :: "cloud_state \<Rightarrow> cloud_state \<Rightarrow> bool" where
  "check_cloud_changes current_cloud last_cloud =
     (if last_cloud = [] then True
      else
        let added = [p \<leftarrow> dict_keys current_cloud. p \<notin> set (dict_keys last_cloud)];
            removed = [p \<leftarrow> dict_keys last_cloud. p \<notin> set (dict_keys current_cloud)]
        in if added \<noteq> [] \<or> removed \<noteq> [] then True
           else cloud_entries_changed current_cloud last_cloud)"

section \<open>Strings and paths\<close>

text \<open>\<^verbatim>\<open>s.split(c)\<close> and \<^verbatim>\<open>c.join(parts)\<close> for a one-character separator.\<close>

fun split_on :: "char \<Rightarrow> string \<Rightarrow> string list" where
  "split_on c [] = [] # []"
| "split_on c (x # xs) =
     (if x = c then [] # split_on c xs
      else (case split_on c xs of
              [] \<Rightarrow> [x] # []
            | w # ws \<Rightarrow> (x # w) # ws))"

fun join_with :: "char \<Rightarrow> string list \<Rightarrow> string" where
  "join_with c [] = []"
| "join_with c [w] = w"
| "join_with c (w # v # ws) = w @ c # join_with c (v # ws)"

text \<open>
  \<^verbatim>\<open>s.replace(old, new)\<close>: every non-overlapping occurrence, left to right. With an
  empty \<open>old\<close> Python puts \<open>new\<close> before every character and at the end.
\<close>

function str_replace :: "string \<Rightarrow> string \<Rightarrow> string \<Rightarrow> string" where
  "str_replace old new s =
     (if old = [] then new @ concat (map (\<lambda>c. c # new) s)
      else if s = [] then []
      else if prefix old s then new @ str_replace old new (drop (length old) s)
      else hd s # str_replace old new (tl s))"
  by pat_completeness auto
termination
  by (relation "measure (\<lambda>(old, new, s). length s)") auto

text \<open>\<^verbatim>\<open>local_path / rel_path\<close> for a relative \<open>rel_path\<close>.\<close>

definition path_join :: "string \<Rightarrow> string \<Rightarrow> string" where
  "path_join local_path rel_path = local_path @ ''/'' @ rel_path"

text \<open>\<^verbatim>\<open>x.count('/')\<close>, the nesting depth used to order folder renames.\<close>

definition depth :: "string \<Rightarrow> nat" where
  "depth folder = count_list folder CHR ''/''"

section \<open>Rename detection for files (\<^verbatim>\<open>_find_renamed_files\<close>)\<close>

text \<open>
  The identifier is the string \<^verbatim>\<open>f"{size}-{mtime}"\<close>, or \<^verbatim>\<open>""\<close>. The decimal form of
  an integer and the \<^verbatim>\<open>repr\<close> of a float determine the numbers they print, so two
  identifiers are the same string exactly when they are the same \<open>Ident\<close>; \<open>NoIdent\<close>
  is the empty string.
\<close>

datatype file_ident = NoIdent | Ident int real

definition get_file_identifier :: "string \<Rightarrow> local_state \<Rightarrow> file_ident" where
  "get_file_identifier rel_path last_local =
     (case map_of last_local rel_path of
        Some (mtime, fsize) \<Rightarrow> Ident fsize mtime
      | None \<Rightarrow> NoIdent)"

text \<open>
  The local file system as \<^verbatim>\<open>Path.stat\<close> sees it while the detector runs: \<open>None\<close> is
  \<^verbatim>\<open>OSError\<close>, and \<^verbatim>\<open>Path.exists\<close> is a \<^verbatim>\<open>stat\<close> that does not fail.
\<close>

type_synonym filesystem = "string \<rightharpoonup> (real \<times> int)"

definition calculate_file_identifier :: "filesystem \<Rightarrow> string \<Rightarrow> file_ident" where
  "calculate_file_identifier fs file_path =
     (case fs file_path of
        Some (st_mtime, st_size) \<Rightarrow> Ident st_size st_mtime
      | None \<Rightarrow> NoIdent)"

text \<open>The inner loop \<^verbatim>\<open>for new_name in list(appeared_locally)\<close>, up to its \<^verbatim>\<open>break\<close>.\<close>

fun first_matching_name :: "filesystem \<Rightarrow> string \<Rightarrow> file_ident \<Rightarrow> string list \<Rightarrow> string option" where
  "first_matching_name fs local_path old_file_hash [] = None"
| "first_matching_name fs local_path old_file_hash (new_name # rest) =
     (let new_file_path = path_join local_path new_name in
      if fs new_file_path = None then first_matching_name fs local_path old_file_hash rest
      else if old_file_hash = calculate_file_identifier fs new_file_path then Some new_name
      else first_matching_name fs local_path old_file_hash rest)"

text \<open>
  The outer loop \<^verbatim>\<open>for old_name in disappeared_locally\<close>; \<open>appeared_locally\<close> loses the
  names already matched, \<open>renamed_pairs\<close> grows at its end.
\<close>

fun renamed_files_loop ::
  "filesystem \<Rightarrow> string \<Rightarrow> cloud_state \<Rightarrow> local_state \<Rightarrow>
   string list \<Rightarrow> string list \<Rightarrow> (string \<times> string) list \<Rightarrow> (string \<times> string) list" where
  "renamed_files_loop fs local_path current_cloud last_local [] appeared_locally renamed_pairs =
     renamed_pairs"
| "renamed_files_loop fs local_path current_cloud last_local (old_name # rest) appeared_locally renamed_pairs =
     (if old_name \<notin> set (dict_keys current_cloud)
      then renamed_files_loop fs local_path current_cloud last_local rest appeared_locally renamed_pairs
      else
        (case first_matching_name fs local_path (get_file_identifier old_name last_local) appeared_locally of
           None \<Rightarrow>
             renamed_files_loop fs local_path current_cloud last_local rest appeared_locally renamed_pairs
         | Some new_name \<Rightarrow>
             renamed_files_loop fs local_path current_cloud last_local rest
               (removeAll new_name appeared_locally) (renamed_pairs @ [(old_name, new_name)])))"

definition disappeared_locally :: "(string \<Rightarrow> nat) \<Rightarrow> local_state \<Rightarrow> local_state \<Rightarrow> string list" where
  "disappeared_locally rank current_local last_local =
     set_iter rank [p \<leftarrow> dict_keys last_local. p \<notin> set (dict_keys current_local)]"

definition appeared_locally :: "(string \<Rightarrow> nat) \<Rightarrow> local_state \<Rightarrow> local_state \<Rightarrow> string list" where
  "appeared_locally rank current_local last_local =
     set_iter rank [p \<leftarrow> dict_keys current_local. p \<notin> set (dict_keys last_local)]"

definition find_renamed_files ::
  "(string \<Rightarrow> nat) \<Rightarrow> filesystem \<Rightarrow> local_state \<Rightarrow> cloud_state \<Rightarrow> local_state \<Rightarrow> string \<Rightarrow>
   (string \<times> string) list" where
  "find_renamed_files rank fs current_local current_cloud last_local local_path =
     renamed_files_loop fs local_path current_cloud last_local
       (disappeared_locally rank current_local last_local)
       (appeared_locally rank current_local last_local) []"

text \<open>
  The rule as the specification words it: a disappeared path that is still on the remote
  side takes the first appeared path, among those not taken yet, whose signature equals
  its own; the pair is a rename and the appeared path leaves the candidates.
\<close>

fun spec_rename_pairs ::
  "(string \<Rightarrow> bool) \<Rightarrow> (string \<Rightarrow> string \<Rightarrow> bool) \<Rightarrow> string list \<Rightarrow> string list \<Rightarrow>
   (string \<times> string) list" where
  "spec_rename_pairs on_remote same_signature [] candidates = []"
| "spec_rename_pairs on_remote same_signature (old # olds) candidates =
     (if on_remote old then
        (case find (same_signature old) candidates of
           Some new \<Rightarrow>
             (old, new) # spec_rename_pairs on_remote same_signature olds (removeAll new candidates)
         | None \<Rightarrow> spec_rename_pairs on_remote same_signature olds candidates)
      else spec_rename_pairs on_remote same_signature olds candidates)"

section \<open>Rename detection for folders (\<^verbatim>\<open>_find_renamed_folders\<close>)\<close>

text \<open>The folders of one path: \<^verbatim>\<open>'/'.join(f.split('/')[:i + 1])\<close> for every proper prefix.\<close>

definition folders_of_path :: "string \<Rightarrow> string list" where
  "folders_of_path f =
     (let parts = split_on CHR ''/'' f
      in map (\<lambda>i. join_with CHR ''/'' (take (i + 1) parts)) [0 ..< length parts - 1])"

definition all_folders :: "local_state \<Rightarrow> string list" where
  "all_folders files = concat (map folders_of_path (dict_keys files))"

text \<open>A dict comprehension: a later item with the same key replaces the value in place.\<close>

definition dict_of_items :: "('k \<times> 'v) list \<Rightarrow> ('k \<times> 'v) list" where
  "dict_of_items items = foldl (\<lambda>d (k, v). AList.update k v d) [] items"

fun compare_new_files :: "(string \<times> (real \<times> int)) list \<Rightarrow> (string \<times> cloud_item) list \<Rightarrow> exn + bool" where
  "compare_new_files [] old_files = Inr True"
| "compare_new_files ((rel_path, (local_mtime, local_size)) # rest) old_files =
     (case map_of old_files rel_path of
        None \<Rightarrow> Inr False
      | Some d \<Rightarrow>
          (case d ''size'' of
             None \<Rightarrow> Inl (KeyError ''size'')
           | Some v \<Rightarrow>
               if PInt local_size \<noteq> v then Inr False
               else compare_new_files rest old_files))"

definition compare_folder_structures ::
  "string \<Rightarrow> string \<Rightarrow> local_state \<Rightarrow> cloud_state \<Rightarrow> exn + bool" where
  "compare_folder_structures old_folder new_folder current_local current_cloud =
     (let old_files = dict_of_items
            [(drop (length old_folder + 1) f, d). (f, d) \<leftarrow> current_cloud, prefix (old_folder @ ''/'') f];
          new_files = dict_of_items
            [(drop (length new_folder + 1) f, e). (f, e) \<leftarrow> current_local, prefix (new_folder @ ''/'') f]
      in if length old_files \<noteq> length new_files then Inr False
         else compare_new_files new_files old_files)"

fun first_matching_folder ::
  "local_state \<Rightarrow> cloud_state \<Rightarrow> string \<Rightarrow> string list \<Rightarrow> exn + string option" where
  "first_matching_folder current_local current_cloud old_folder [] = Inr None"
| "first_matching_folder current_local current_cloud old_folder (new_folder # rest) =
     (case compare_folder_structures old_folder new_folder current_local current_cloud of
        Inl e \<Rightarrow> Inl e
      | Inr True \<Rightarrow> Inr (Some new_folder)
      | Inr False \<Rightarrow> first_matching_folder current_local current_cloud old_folder rest)"

fun renamed_folders_loop ::
  "local_state \<Rightarrow> cloud_state \<Rightarrow> string list \<Rightarrow> string list \<Rightarrow> (string \<times> string) list \<Rightarrow>
   exn + (string \<times> string) list" where
  "renamed_folders_loop current_local current_cloud [] appeared_folders renamed_folders =
     Inr renamed_folders"
| "renamed_folders_loop current_local current_cloud (old_folder # rest) appeared_folders renamed_folders =
     (case first_matching_folder current_local current_cloud old_folder appeared_folders of
        Inl e \<Rightarrow> Inl e
      | Inr None \<Rightarrow>
          renamed_folders_loop current_local current_cloud rest appeared_folders renamed_folders
      | Inr (Some new_folder) \<Rightarrow>
          renamed_folders_loop current_local current_cloud rest
            (removeAll new_folder appeared_folders) (renamed_folders @ [(old_folder, new_folder)]))"

definition find_renamed_folders ::
  "(string \<Rightarrow> nat) \<Rightarrow> local_state \<Rightarrow> cloud_state \<Rightarrow> local_state \<Rightarrow> exn + (string \<times> string) list" where
  "find_renamed_folders rank current_local current_cloud last_local =
     (let last_folders = all_folders last_local;
          current_folders = all_folders current_local;
          disappeared_folders = set_iter rank [f \<leftarrow> last_folders. f \<notin> set current_folders];
          appeared_folders = set_iter rank [f \<leftarrow> current_folders. f \<notin> set last_folders]
      in renamed_folders_loop current_local current_cloud disappeared_folders appeared_folders [])"

section \<open>The cloud client and the record of a run\<close>

text \<open>
  The three methods of the client the reconciliation calls. \<^verbatim>\<open>delete\<close> receives whatever
  the item holds under \<^verbatim>\<open>'path'\<close>.
\<close>

datatype call = Rename string string | Load string string | Delete pyval

text \<open>The reconciliation item on whose behalf a call is made (a label for the record only).\<close>

datatype item = FolderRename string string | FileRename string string | Upload string | Deletion string

type_synonym event = "item \<times> call \<times> bool"

text \<open>
  The client is outside the program: whether a call succeeds or raises
  \<^verbatim>\<open>CloudStorageError\<close> is given by \<open>responds\<close>, which may depend on every call made
  before and on how it ended. \<open>has_rename\<close> is \<^verbatim>\<open>hasattr(cloud_client, 'rename')\<close>.
\<close>

record client =
  cloud_folder :: string
  has_rename :: bool
  responds :: "(call \<times> bool) list \<Rightarrow> call \<Rightarrow> bool"

datatype log_entry =
    FolderRenameError string string
  | FileRenameError string string
  | SyncFailure

text \<open>What a run leaves behind: the calls made, in order, and the lines of \<^verbatim>\<open>logger.error\<close>.\<close>

record run =
  events :: "event list"
  errors_logged :: "log_entry list"

definition log_error :: "log_entry \<Rightarrow> run \<Rightarrow> run" where
  "log_error e s = s\<lparr>errors_logged := errors_logged s @ [e]\<rparr>"

definition client_call :: "client \<Rightarrow> item \<Rightarrow> call \<Rightarrow> run \<Rightarrow> (exn + unit) \<times> run" where
  "client_call cl it c s =
     (let ok = responds cl (map snd (events s)) c;
          s' = s\<lparr>events := events s @ [(it, c, ok)]\<rparr>
      in (if ok then Inr () else Inl CloudStorageError, s'))"

text \<open>
  The request \<^verbatim>\<open>YandexDiskClient.delete\<close> sends: \<^verbatim>\<open>DELETE /resources\<close> with
  \<^verbatim>\<open>params={'path': file_path, 'permanently': True}\<close>.
\<close>

record http_request =
  http_method :: string
  endpoint :: string
  params :: "(string \<times> pyval) list"

definition delete_request :: "pyval \<Rightarrow> http_request" where
  "delete_request file_path =
     \<lparr>http_method = ''DELETE'', endpoint = ''/resources'',
      params = [(''path'', file_path), (''permanently'', PBool True)]\<rparr>"

text \<open>\<^verbatim>\<open>f"/{cloud_client.cloud_folder}/{name}"\<close>\<close>

definition cloud_path :: "client \<Rightarrow> string \<Rightarrow> string" where
  "cloud_path cl name = ''/'' @ cloud_folder cl @ ''/'' @ name"

text \<open>A \<^verbatim>\<open>for\<close> loop whose body may raise: the exception leaves the loop.\<close>

fun for_loop :: "('a \<Rightarrow> run \<Rightarrow> (exn + unit) \<times> run) \<Rightarrow> 'a list \<Rightarrow> run \<Rightarrow> (exn + unit) \<times> run" where
  "for_loop body [] s = (Inr (), s)"
| "for_loop body (x # xs) s =
     (case body x s of
        (Inl e, s') \<Rightarrow> (Inl e, s')
      | (Inr u, s') \<Rightarrow> for_loop body xs s')"

section \<open>Ordered reconciliation (\<^verbatim>\<open>ChangeDetector.process_local_changes\<close>)\<close>

subsection \<open>Step 1: folder renames\<close>

definition process_folder_rename :: "client \<Rightarrow> string \<Rightarrow> string \<Rightarrow> run \<Rightarrow> (exn + unit) \<times> run" where
  "process_folder_rename cl old_folder new_folder s =
     (let old_path = cloud_path cl old_folder;
          new_path = cloud_path cl new_folder;
          tried = (if has_rename cl
                   then client_call cl (FolderRename old_folder new_folder) (Rename old_path new_path) s
                   else (Inl PlainException, s))
      in case tried of
           (Inl e, s') \<Rightarrow> (Inl e, log_error (FolderRenameError old_folder new_folder) s')
         | (Inr u, s') \<Rightarrow> (Inr (), s'))"

text \<open>The loop of step 1; its \<^verbatim>\<open>except Exception\<close> logs and goes on to the next pair.\<close>

fun folder_renames_loop :: "client \<Rightarrow> (string \<times> string) list \<Rightarrow> run \<Rightarrow> run" where
  "folder_renames_loop cl [] s = s"
| "folder_renames_loop cl ((old_folder, new_folder) # rest) s =
     (case process_folder_rename cl old_folder new_folder s of
        (Inl e, s') \<Rightarrow>
          folder_renames_loop cl rest (log_error (FolderRenameError old_folder new_folder) s')
      | (Inr u, s') \<Rightarrow> folder_renames_loop cl rest s')"

text \<open>\<^verbatim>\<open>folder_renames.sort(key=lambda x: -x[0].count('/'))\<close>; both sorts are stable.\<close>

definition sort_by_depth :: "(string \<times> string) list \<Rightarrow> (string \<times> string) list" where
  "sort_by_depth folder_renames = sort_key (\<lambda>x. - int (depth (fst x))) folder_renames"

definition rename_folders_step :: "client \<Rightarrow> (string \<times> string) list \<Rightarrow> run \<Rightarrow> run" where
  "rename_folders_step cl folder_renames s =
     (if folder_renames \<noteq> [] then folder_renames_loop cl (sort_by_depth folder_renames) s else s)"

subsection \<open>Step 2: file renames\<close>

definition try_rename_cloud_file :: "client \<Rightarrow> string \<Rightarrow> string \<Rightarrow> run \<Rightarrow> bool \<times> run" where
  "try_rename_cloud_file cl old_name new_name s =
     (if has_rename cl then
        (case client_call cl (FileRename old_name new_name)
                (Rename (cloud_path cl old_name) (cloud_path cl new_name)) s of
           (Inr u, s') \<Rightarrow> (True, s')
         | (Inl e, s') \<Rightarrow> (False, s'))
      else (False, s))"

text \<open>The body of the loop of step 2, with its \<^verbatim>\<open>except Exception\<close>.\<close>

definition process_file_rename ::
  "client \<Rightarrow> string \<Rightarrow> cloud_state \<Rightarrow> string \<Rightarrow> string \<Rightarrow> run \<Rightarrow> run" where
  "process_file_rename cl local_path current_cloud old_name new_name s =
     (case try_rename_cloud_file cl old_name new_name s of
        (True, s1) \<Rightarrow> s1
      | (False, s1) \<Rightarrow>
          (case client_call cl (FileRename old_name new_name)
                  (Load (path_join local_path new_name) new_name) s1 of
             (Inl e, s2) \<Rightarrow> log_error (FileRenameError old_name new_name) s2
           | (Inr u, s2) \<Rightarrow>
               (case map_of current_cloud old_name of
                  None \<Rightarrow> s2
                | Some old_item \<Rightarrow>
                    (case old_item ''path'' of
                       None \<Rightarrow> log_error (FileRenameError old_name new_name) s2
                     | Some p \<Rightarrow>
                         (case client_call cl (FileRename old_name new_name) (Delete p) s2 of
                            (Inl e, s3) \<Rightarrow> log_error (FileRenameError old_name new_name) s3
                          | (Inr u, s3) \<Rightarrow> s3)))))"

fun file_renames_loop ::
  "client \<Rightarrow> string \<Rightarrow> cloud_state \<Rightarrow> (string \<times> string) list \<Rightarrow> run \<Rightarrow> run" where
  "file_renames_loop cl local_path current_cloud [] s = s"
| "file_renames_loop cl local_path current_cloud ((old_name, new_name) # rest) s =
     file_renames_loop cl local_path current_cloud rest
       (process_file_rename cl local_path current_cloud old_name new_name s)"

definition rename_files_step ::
  "client \<Rightarrow> string \<Rightarrow> cloud_state \<Rightarrow> (string \<times> string) list \<Rightarrow> run \<Rightarrow> run" where
  "rename_files_step cl local_path current_cloud renamed_pairs s =
     (if renamed_pairs \<noteq> [] then file_renames_loop cl local_path current_cloud renamed_pairs s else s)"

text \<open>\<open>processed_files\<close>: the new and the old names of the file renames, and nothing else.\<close>

definition processed_files :: "(string \<times> string) list \<Rightarrow> string list" where
  "processed_files renamed_pairs =
     (if renamed_pairs \<noteq> [] then map snd renamed_pairs @ map fst renamed_pairs else [])"

subsection \<open>Step 3: new and changed files\<close>

text \<open>
  \<^verbatim>\<open>_parse_cloud_time\<close>. \<open>strptime\<close> stands for the library's
  \<^verbatim>\<open>datetime.strptime(_, "%Y-%m-%dT%H:%M:%S").timestamp()\<close>, \<open>None\<close> when it raises. A
  value that is not a string raises inside the \<^verbatim>\<open>try\<close> as well.
\<close>

definition parse_cloud_time :: "(string \<Rightarrow> real option) \<Rightarrow> pyval \<Rightarrow> real" where
  "parse_cloud_time strptime timestr =
     (case timestr of
        PStr t \<Rightarrow> (case strptime (take 19 t) of Some ts \<Rightarrow> ts | None \<Rightarrow> 0)
      | _ \<Rightarrow> 0)"

text \<open>The body of the loop of step 3. Nothing here is inside a \<^verbatim>\<open>try\<close>.\<close>

definition upload_item ::
  "(string \<Rightarrow> real option) \<Rightarrow> client \<Rightarrow> local_state \<Rightarrow> cloud_state \<Rightarrow> local_state \<Rightarrow> string \<Rightarrow>
   string \<Rightarrow> run \<Rightarrow> (exn + unit) \<times> run" where
  "upload_item strptime cl current_local current_cloud last_local local_path rel_path s =
     (let file_path = path_join local_path rel_path;
          load = client_call cl (Upload rel_path) (Load file_path rel_path)
      in if rel_path \<notin> set (dict_keys current_cloud) then load s
         else
           (case map_of current_local rel_path of
              None \<Rightarrow> (Inl (KeyError rel_path), s)
            | Some (local_mtime, local_size) \<Rightarrow>
                (case map_of current_cloud rel_path of
                   None \<Rightarrow> (Inl (KeyError rel_path), s)
                 | Some cloud_item \<Rightarrow>
                     (case cloud_item ''modified'' of
                        None \<Rightarrow> (Inl (KeyError ''modified''), s)
                      | Some timestr \<Rightarrow>
                          (let cloud_mtime = parse_cloud_time strptime timestr
                           in if (case map_of last_local rel_path of
                                    None \<Rightarrow> False
                                  | Some (last_mtime, last_size) \<Rightarrow>
                                      local_mtime > last_mtime \<or> local_size \<noteq> last_size)
                              then load s
                              else if local_mtime > cloud_mtime then load s
                              else (Inr (), s))))))"

subsection \<open>Step 4: files that are gone\<close>

definition delete_item :: "client \<Rightarrow> cloud_state \<Rightarrow> string \<Rightarrow> run \<Rightarrow> (exn + unit) \<times> run" where
  "delete_item cl current_cloud rel_path s =
     (case map_of current_cloud rel_path of
        None \<Rightarrow> (Inl (KeyError rel_path), s)
      | Some cloud_item \<Rightarrow>
          (case cloud_item ''path'' of
             None \<Rightarrow> (Inl (KeyError ''path''), s)
           | Some p \<Rightarrow> client_call cl (Deletion rel_path) (Delete p) s))"

subsection \<open>The four steps in order\<close>

definition upload_candidates :: "(string \<Rightarrow> nat) \<Rightarrow> local_state \<Rightarrow> string list \<Rightarrow> string list" where
  "upload_candidates rank current_local processed =
     set_iter rank [p \<leftarrow> dict_keys current_local. p \<notin> set processed]"

definition delete_candidates ::
  "(string \<Rightarrow> nat) \<Rightarrow> local_state \<Rightarrow> cloud_state \<Rightarrow> string list \<Rightarrow> string list" where
  "delete_candidates rank current_local current_cloud processed =
     set_iter rank [p \<leftarrow> dict_keys current_cloud.
                      p \<notin> set (dict_keys current_local) \<and> p \<notin> set processed]"

text \<open>
  \<^verbatim>\<open>time.sleep\<close> is left out. The two detections run first; \<^verbatim>\<open>_find_renamed_folders\<close>
  is outside every \<^verbatim>\<open>try\<close>, and so are steps 3 and 4.
\<close>

definition process_local_changes ::
  "(string \<Rightarrow> nat) \<Rightarrow> filesystem \<Rightarrow> (string \<Rightarrow> real option) \<Rightarrow> client \<Rightarrow>
   local_state \<Rightarrow> cloud_state \<Rightarrow> local_state \<Rightarrow> string \<Rightarrow> run \<Rightarrow> (exn + unit) \<times> run" where
  "process_local_changes rank fs strptime cl current_local current_cloud last_local local_path s =
     (let renamed_pairs = find_renamed_files rank fs current_local current_cloud last_local local_path
      in case find_renamed_folders rank current_local current_cloud last_local of
           Inl e \<Rightarrow> (Inl e, s)
         | Inr folder_renames \<Rightarrow>
             (let s1 = rename_folders_step cl folder_renames s;
                  s2 = rename_files_step cl local_path current_cloud renamed_pairs s1;
                  processed = processed_files renamed_pairs
              in case for_loop (upload_item strptime cl current_local current_cloud last_local local_path)
                        (upload_candidates rank current_local processed) s2 of
                   (Inl e, s3) \<Rightarrow> (Inl e, s3)
                 | (Inr u, s3) \<Rightarrow>
                     for_loop (delete_item cl current_cloud)
                       (delete_candidates rank current_local current_cloud processed) s3))"

section \<open>The remote snapshot (\<^verbatim>\<open>CloudOperations.scan_cloud_files_with_retry\<close>)\<close>

text \<open>\<^verbatim>\<open>item['path'].replace(f"disk:/{self.cloud_folder}/", "")\<close>\<close>

definition cloud_key :: "client \<Rightarrow> string \<Rightarrow> string" where
  "cloud_key cl p = str_replace (''disk:/'' @ cloud_folder cl @ ''/'') [] p"

text \<open>The loop \<^verbatim>\<open>for item in items\<close> that fills \<open>cloud_files\<close>.\<close>

fun build_cloud_files :: "client \<Rightarrow> cloud_item list \<Rightarrow> cloud_state \<Rightarrow> exn + cloud_state" where
  "build_cloud_files cl [] cloud_files = Inr cloud_files"
| "build_cloud_files cl (item # rest) cloud_files =
     (case item ''type'' of
        None \<Rightarrow> Inl (KeyError ''type'')
      | Some t \<Rightarrow>
          if t = PStr ''file'' then
            (case item ''path'' of
               None \<Rightarrow> Inl (KeyError ''path'')
             | Some (PStr p) \<Rightarrow>
                 build_cloud_files cl rest (AList.update (cloud_key cl p) item cloud_files)
             | Some _ \<Rightarrow> Inl AttributeError)
          else build_cloud_files cl rest cloud_files)"

text \<open>
  The retry loop. \<open>get_recursive_info k\<close> is what the \<open>k\<close>-th listing of this scan gives,
  \<open>Inl\<close> when it raises; a loop that never runs falls through to \<^verbatim>\<open>None\<close>.
\<close>

fun scan_attempts ::
  "client \<Rightarrow> (nat \<Rightarrow> exn + cloud_item list) \<Rightarrow> nat \<Rightarrow> nat \<Rightarrow> nat \<Rightarrow> exn + cloud_state option" where
  "scan_attempts cl get_recursive_info max_retries attempt 0 = Inr None"
| "scan_attempts cl get_recursive_info max_retries attempt (Suc remaining) =
     (case (case get_recursive_info attempt of
              Inl e \<Rightarrow> Inl e
            | Inr items \<Rightarrow> build_cloud_files cl items []) of
        Inr cloud_files \<Rightarrow> Inr (Some cloud_files)
      | Inl e \<Rightarrow>
          if attempt + 1 = max_retries then Inl e
          else scan_attempts cl get_recursive_info max_retries (attempt + 1) remaining)"

definition scan_cloud_files_with_retry ::
  "client \<Rightarrow> (nat \<Rightarrow> exn + cloud_item list) \<Rightarrow> nat \<Rightarrow> exn + cloud_state option" where
  "scan_cloud_files_with_retry cl get_recursive_info max_retries =
     scan_attempts cl get_recursive_info max_retries 0 max_retries"

section \<open>The incremental tick (\<^verbatim>\<open>FileSynchronizer.sync\<close>)\<close>

record synchronizer =
  last_local_state :: local_state
  last_cloud_state :: cloud_state

datatype tick = NoChanges | Synced

text \<open>
  \<open>current_local\<close> is what \<^verbatim>\<open>scan_local_files\<close> returned. Every exception inside the
  \<^verbatim>\<open>try\<close> is logged and becomes \<open>SyncError\<close>; the two assignments to the baseline are
  the last statements of the \<^verbatim>\<open>try\<close>. With three attempts the scan never falls through
  to \<^verbatim>\<open>None\<close>, so that branch is never taken.
\<close>

definition sync ::
  "(string \<Rightarrow> nat) \<Rightarrow> filesystem \<Rightarrow> (string \<Rightarrow> real option) \<Rightarrow> client \<Rightarrow> string \<Rightarrow>
   local_state \<Rightarrow> (nat \<Rightarrow> exn + cloud_item list) \<Rightarrow> synchronizer \<Rightarrow> run \<Rightarrow>
   (exn + tick) \<times> synchronizer \<times> run" where
  "sync rank fs strptime cl local_path current_local get_recursive_info st s =
     (case scan_cloud_files_with_retry cl get_recursive_info 3 of
        Inl e \<Rightarrow> (Inl SyncError, st, log_error SyncFailure s)
      | Inr None \<Rightarrow> (Inl SyncError, st, log_error SyncFailure s)
      | Inr (Some current_cloud) \<Rightarrow>
          (let local_changes = check_local_changes current_local (last_local_state st);
               cloud_changes = check_cloud_changes current_cloud (last_cloud_state st)
           in if \<not> local_changes \<and> \<not> cloud_changes then (Inr NoChanges, st, s)
              else if local_changes then
                (case process_local_changes rank fs strptime cl current_local current_cloud
                        (last_local_state st) local_path s of
                   (Inl e, s') \<Rightarrow> (Inl SyncError, st, log_error SyncFailure s')
                 | (Inr u, s') \<Rightarrow>
                     (Inr Synced,
                      \<lparr>last_local_state = current_local, last_cloud_state = current_cloud\<rparr>, s'))
              else
                (Inr Synced,
                 \<lparr>last_local_state = current_local, last_cloud_state = current_cloud\<rparr>, s)))"

section \<open>Auxiliary definitions for the statements\<close>

text \<open>What a run added to the record it started from.\<close>

definition new_events :: "run \<Rightarrow> run \<Rightarrow> event list" where
  "new_events s s' = drop (length (events s)) (events s')"


text \<open>
  Condition (a) of step 3: the path is in the previous local baseline and its entry there
  is older or of another size.
\<close>

definition baseline_differs :: "local_state \<Rightarrow> string \<Rightarrow> real \<Rightarrow> int \<Rightarrow> bool" where
  "baseline_differs last_local rel_path local_mtime local_size =
     (case map_of last_local rel_path of
        None \<Rightarrow> False
      | Some (last_mtime, last_size) \<Rightarrow> local_mtime > last_mtime \<or> local_size \<noteq> last_size)"

text \<open>Condition (b) of step 3: the local time is after the parsed remote time.\<close>

definition newer_than_remote :: "(string \<Rightarrow> real option) \<Rightarrow> cloud_item \<Rightarrow> real \<Rightarrow> bool" where
  "newer_than_remote strptime cloud_item local_mtime =
     (case cloud_item ''modified'' of
        None \<Rightarrow> False
      | Some timestr \<Rightarrow> local_mtime > parse_cloud_time strptime timestr)"

text \<open>When step 3 is to upload a path: absent remotely, or present and (a) or (b).\<close>

definition upload_due ::
  "(string \<Rightarrow> real option) \<Rightarrow> local_state \<Rightarrow> cloud_state \<Rightarrow> local_state \<Rightarrow> string \<Rightarrow> bool" where
  "upload_due strptime current_local current_cloud last_local rel_path =
     (rel_path \<notin> set (dict_keys current_cloud) \<or>
      (case map_of current_local rel_path of
         None \<Rightarrow> False
       | Some (local_mtime, local_size) \<Rightarrow>
           (case map_of current_cloud rel_path of
              None \<Rightarrow> False
            | Some cloud_item \<Rightarrow>
                baseline_differs last_local rel_path local_mtime local_size \<or>
                newer_than_remote strptime cloud_item local_mtime)))"

text \<open>A path that is on the remote side with an entry step 3 cannot read.\<close>

definition unreadable_entry :: "local_state \<Rightarrow> cloud_state \<Rightarrow> string \<Rightarrow> bool" where
  "unreadable_entry current_local current_cloud rel_path =
     (rel_path \<in> set (dict_keys current_cloud) \<and>
      (map_of current_local rel_path = None \<or>
       (case map_of current_cloud rel_path of
          None \<Rightarrow> True
        | Some cloud_item \<Rightarrow> cloud_item ''modified'' = None)))"

text \<open>\<^verbatim>\<open>current_cloud[rel_path]['path']\<close>, \<open>None\<close> when either lookup fails.\<close>

definition remote_path :: "cloud_state \<Rightarrow> string \<Rightarrow> pyval option" where
  "remote_path current_cloud rel_path =
     (case map_of current_cloud rel_path of
        None \<Rightarrow> None
      | Some cloud_item \<Rightarrow> cloud_item ''path'')"

text \<open>
  The identity signatures \<open>(size, modificationTime)\<close> agree: the one of the baseline entry
  of the disappeared path and the one a fresh \<^verbatim>\<open>stat\<close> gives for the appeared path.
\<close>

definition same_signature :: "filesystem \<Rightarrow> string \<Rightarrow> local_state \<Rightarrow> string \<Rightarrow> string \<Rightarrow> bool" where
  "same_signature fs local_path last_local old_name new_name =
     (case map_of last_local old_name of
        None \<Rightarrow> False
      | Some (mtime, fsize) \<Rightarrow>
          (case fs (path_join local_path new_name) of
             None \<Rightarrow> False
           | Some (st_mtime, st_size) \<Rightarrow> fsize = st_size \<and> mtime = st_mtime))"

text \<open>\<^verbatim>\<open>item['type'] == 'file'\<close>\<close>

definition is_file :: "cloud_item \<Rightarrow> bool" where
  "is_file item = (item ''type'' = Some (PStr ''file''))"


text \<open>The events made on behalf of folder renames.\<close>

fun is_folder_rename :: "item \<Rightarrow> bool" where
  "is_folder_rename (FolderRename old new) = True"
| "is_folder_rename it = False"

section \<open>Sample data\<close>

text \<open>
  A client of the folder \<^verbatim>\<open>Backup\<close> that has \<^verbatim>\<open>rename\<close> and answers each call by
  \<open>ok\<close>, items as the listing returns them, the empty record, an iteration order that
  keeps the order given, and a clock that reads one timestamp.
\<close>

definition sample_client :: "(call \<Rightarrow> bool) \<Rightarrow> client" where
  "sample_client ok = \<lparr>cloud_folder = ''Backup'', has_rename = True, responds = (\<lambda>history c. ok c)\<rparr>"

definition file_item :: "string \<Rightarrow> int \<Rightarrow> string \<Rightarrow> cloud_item" where
  "file_item p n t =
     [''path'' \<mapsto> PStr p, ''type'' \<mapsto> PStr ''file'', ''size'' \<mapsto> PInt n, ''modified'' \<mapsto> PStr t]"

definition dir_item :: "string \<Rightarrow> cloud_item" where
  "dir_item p = [''path'' \<mapsto> PStr p, ''type'' \<mapsto> PStr ''dir'']"

definition empty_run :: run where
  "empty_run = \<lparr>events = [], errors_logged = []\<rparr>"

definition as_listed :: "string \<Rightarrow> nat" where
  "as_listed p = 0"

definition sample_strptime :: "string \<Rightarrow> real option" where
  "sample_strptime t = (if t = ''2023-04-27T19:41:25'' then Some 1682624485 else None)"

text \<open>
  A tree in which the folder \<^verbatim>\<open>old\<close> (with its subfolder) became \<^verbatim>\<open>new\<close>, as the local
  scans before and after see it, the remote listing of the old tree, and the files as
  \<^verbatim>\<open>stat\<close> finds them under the local root.
\<close>

definition old_tree :: local_state where
  "old_tree = [(''old/sub/a.txt'', (1, 10)), (''old/b.txt'', (1, 20))]"

definition new_tree :: local_state where
  "new_tree = [(''new/sub/a.txt'', (1, 10)), (''new/b.txt'', (1, 20))]"

definition old_cloud :: cloud_state where
  "old_cloud =
     [(''old/sub/a.txt'', file_item ''disk:/Backup/old/sub/a.txt'' 10 ''2023-04-27T19:41:25+00:00''),
      (''old/b.txt'', file_item ''disk:/Backup/old/b.txt'' 20 ''2023-04-27T19:41:25+00:00'')]"

definition new_files_on_disk :: filesystem where
  "new_files_on_disk =
     [''/home/u/sync/new/sub/a.txt'' \<mapsto> (1, 10), ''/home/u/sync/new/b.txt'' \<mapsto> (1, 20)]"

text \<open>
  A folder in which \<^verbatim>\<open>a.txt\<close> (100 bytes) was deleted and an unrelated \<^verbatim>\<open>b.txt\<close> of
  100 bytes and a later time was added, while \<^verbatim>\<open>c.txt\<close> became \<^verbatim>\<open>d.txt\<close>.
\<close>

definition before_edit :: local_state where
  "before_edit = [(''a.txt'', (1, 100)), (''c.txt'', (5, 7))]"

definition after_edit :: local_state where
  "after_edit = [(''b.txt'', (2, 100)), (''d.txt'', (5, 7))]"

definition cloud_before_edit :: cloud_state where
  "cloud_before_edit =
     [(''a.txt'', file_item ''disk:/Backup/a.txt'' 100 ''2023-04-27T19:41:25+00:00''),
      (''c.txt'', file_item ''disk:/Backup/c.txt'' 7 ''2023-04-27T19:41:25+00:00'')]"

definition disk_after_edit :: filesystem where
  "disk_after_edit = [''/home/u/sync/b.txt'' \<mapsto> (2, 100), ''/home/u/sync/d.txt'' \<mapsto> (5, 7)]"

text \<open>
  A client on which every \<^verbatim>\<open>rename\<close> fails and so does the upload of \<^verbatim>\<open>d.txt\<close>; one on
  which the upload of \<^verbatim>\<open>a.txt\<close> fails; and the listing of the cloud before the edit.
\<close>

definition renames_fail :: "call \<Rightarrow> bool" where
  "renames_fail c =
     (case c of Rename old new \<Rightarrow> False | Load file_path rel_path \<Rightarrow> rel_path \<noteq> ''d.txt'' | Delete p \<Rightarrow> True)"

definition upload_of_a_fails :: "call \<Rightarrow> bool" where
  "upload_of_a_fails c =
     (case c of Rename old new \<Rightarrow> True | Load file_path rel_path \<Rightarrow> rel_path \<noteq> ''a.txt'' | Delete p \<Rightarrow> True)"

definition listing_before_edit :: "nat \<Rightarrow> exn + cloud_item list" where
  "listing_before_edit k =
     Inr [file_item ''disk:/Backup/a.txt'' 100 ''2023-04-27T19:41:25+00:00'',
          file_item ''disk:/Backup/c.txt'' 7 ''2023-04-27T19:41:25+00:00'']"

text \<open>
  Three files that are on both sides: \<^verbatim>\<open>x.txt\<close> was edited since the baseline,
  \<^verbatim>\<open>y.txt\<close> has a remote timestamp that does not parse, \<^verbatim>\<open>z.txt\<close> is untouched. And
  two files that are new on the local side.
\<close>

definition edited_tree :: local_state where
  "edited_tree = [(''x.txt'', (5, 10)), (''y.txt'', (1, 10)), (''z.txt'', (1, 10))]"

definition edited_baseline :: local_state where
  "edited_baseline = [(''x.txt'', (3, 10)), (''y.txt'', (1, 10)), (''z.txt'', (1, 10))]"

definition edited_cloud :: cloud_state where
  "edited_cloud =
     [(''x.txt'', file_item ''disk:/Backup/x.txt'' 10 ''2023-04-27T19:41:25+00:00''),
      (''y.txt'', file_item ''disk:/Backup/y.txt'' 10 ''yesterday''),
      (''z.txt'', file_item ''disk:/Backup/z.txt'' 10 ''2023-04-27T19:41:25+00:00'')]"

definition two_new_files :: local_state where
  "two_new_files = [(''a.txt'', (1, 100)), (''b.txt'', (1, 100))]"

text \<open>A client on which the delete of the remote \<^verbatim>\<open>a.txt\<close> fails.\<close>

definition delete_of_a_fails :: "call \<Rightarrow> bool" where
  "delete_of_a_fails c =
     (case c of Rename old new \<Rightarrow> True | Load file_path rel_path \<Rightarrow> True
              | Delete p \<Rightarrow> p \<noteq> PStr ''disk:/Backup/a.txt'')"

text \<open>
  A remote entry of \<^verbatim>\<open>y.txt\<close> that has no \<^verbatim>\<open>'modified'\<close> key, with its unchanged local
  file; and a remote side that holds one file while the local folder is empty.
\<close>

definition cloud_without_time :: cloud_state where
  "cloud_without_time =
     [(''y.txt'', [''path'' \<mapsto> PStr ''disk:/Backup/y.txt'', ''type'' \<mapsto> PStr ''file'', ''size'' \<mapsto> PInt 10])]"

definition tree_of_y :: local_state where
  "tree_of_y = [(''y.txt'', (1, 10))]"

definition cloud_only_a :: cloud_state where
  "cloud_only_a = [(''a.txt'', file_item ''disk:/Backup/a.txt'' 100 ''2023-04-27T19:41:25+00:00'')]"

definition listing_only_a :: "nat \<Rightarrow> exn + cloud_item list" where
  "listing_only_a k = Inr [file_item ''disk:/Backup/a.txt'' 100 ''2023-04-27T19:41:25+00:00'']"

text \<open>A client on which every upload fails.\<close>

definition uploads_fail :: "call \<Rightarrow> bool" where
  "uploads_fail c =
     (case c of Rename old new \<Rightarrow> True | Load file_path rel_path \<Rightarrow> False | Delete p \<Rightarrow> True)"

section \<open>The change signals\<close>

lemma local_entries_changed_bex:
  "local_entries_changed cur base \<longleftrightarrow>
     (\<exists>(p, m, z) \<in> set cur. \<exists>lm lz. map_of base p = Some (lm, lz) \<and> (m > lm \<or> z \<noteq> lz))"
proof (induction cur)
  case Nil
  show ?case by simp
next
  case (Cons e rest)
  obtain path mtime fsize where e: "e = (path, (mtime, fsize))" by (cases e) auto
  have "local_entries_changed (e # rest) base \<longleftrightarrow>
          (\<exists>lm lz. map_of base path = Some (lm, lz) \<and> (mtime > lm \<or> fsize \<noteq> lz)) \<or>
          local_entries_changed rest base"
    unfolding e by (cases "map_of base path") auto
  with Cons.IH show ?case by (simp add: e)
qed

lemma local_entries_changed_set:
  "local_entries_changed cur base \<longleftrightarrow>
     (\<exists>p m z lm lz. (p, (m, z)) \<in> set cur \<and> map_of base p = Some (lm, lz) \<and> (m > lm \<or> z \<noteq> lz))"
  unfolding local_entries_changed_bex by (simp add: Bex_def split_paired_Ex)

lemma cloud_entries_changed_bex:
  "cloud_entries_changed cur base \<longleftrightarrow>
     (\<exists>(p, i) \<in> set cur. \<exists>j. map_of base p = Some j \<and>
        dict_get i ''modified'' \<noteq> dict_get j ''modified'')"
proof (induction cur)
  case Nil
  show ?case by simp
next
  case (Cons e rest)
  obtain path item where e: "e = (path, item)" by (cases e)
  have "cloud_entries_changed (e # rest) base \<longleftrightarrow>
          (\<exists>j. map_of base path = Some j \<and> dict_get item ''modified'' \<noteq> dict_get j ''modified'') \<or>
          cloud_entries_changed rest base"
    unfolding e by (cases "map_of base path") auto
  with Cons.IH show ?case by (simp add: e)
qed

lemma cloud_entries_changed_set:
  "cloud_entries_changed cur base \<longleftrightarrow>
     (\<exists>p i j. (p, i) \<in> set cur \<and> map_of base p = Some j \<and>
        dict_get i ''modified'' \<noteq> dict_get j ''modified'')"
  unfolding cloud_entries_changed_bex by (simp add: Bex_def split_paired_Ex)

lemma key_sets_differ:
  "([p \<leftarrow> xs. p \<notin> set ys] \<noteq> [] \<or> [p \<leftarrow> ys. p \<notin> set xs] \<noteq> []) \<longleftrightarrow> set xs \<noteq> set ys"
  by (auto simp: filter_empty_conv)

lemma check_local_changes_iff:
  assumes "distinct (dict_keys cur)"
  shows "check_local_changes cur base \<longleftrightarrow>
     base = [] \<or> set (dict_keys cur) \<noteq> set (dict_keys base) \<or>
     (\<exists>p m z lm lz. map_of cur p = Some (m, z) \<and> map_of base p = Some (lm, lz) \<and>
        (z \<noteq> lz \<or> m > lm))"
proof -
  have mem: "\<And>p v. (p, v) \<in> set cur \<longleftrightarrow> map_of cur p = Some v"
    using assms by (simp add: dict_keys_def)
  have "check_local_changes cur base \<longleftrightarrow>
          base = [] \<or> set (dict_keys cur) \<noteq> set (dict_keys base) \<or> local_entries_changed cur base"
    using key_sets_differ [of "dict_keys cur" "dict_keys base"]
    by (auto simp: check_local_changes_def Let_def)
  then show ?thesis
    unfolding local_entries_changed_set mem by blast
qed

lemma check_cloud_changes_iff:
  assumes "distinct (dict_keys cur)"
  shows "check_cloud_changes cur base \<longleftrightarrow>
     base = [] \<or> set (dict_keys cur) \<noteq> set (dict_keys base) \<or>
     (\<exists>p i j. map_of cur p = Some i \<and> map_of base p = Some j \<and>
        dict_get i ''modified'' \<noteq> dict_get j ''modified'')"
proof -
  have mem: "\<And>p v. (p, v) \<in> set cur \<longleftrightarrow> map_of cur p = Some v"
    using assms by (simp add: dict_keys_def)
  have "check_cloud_changes cur base \<longleftrightarrow>
          base = [] \<or> set (dict_keys cur) \<noteq> set (dict_keys base) \<or> cloud_entries_changed cur base"
    using key_sets_differ [of "dict_keys cur" "dict_keys base"]
    by (auto simp: check_cloud_changes_def Let_def)
  then show ?thesis
    unfolding cloud_entries_changed_set mem by blast
qed


section \<open>What each step adds to the record of a run\<close>

lemma client_call_run:
  "client_call cl it c s = (r, s') \<Longrightarrow>
     events s' = events s @ [(it, c, r = Inr ())] \<and> errors_logged s' = errors_logged s \<and>
     (r = Inr () \<or> r = Inl CloudStorageError)"
  by (auto simp: client_call_def Let_def split: if_splits)

lemma process_folder_rename_run:
  assumes "process_folder_rename cl old new s = (r, s')"
  shows "events s' = events s @
           (if has_rename cl
            then [(FolderRename old new, Rename (cloud_path cl old) (cloud_path cl new), r = Inr ())]
            else [])"
    and "errors_logged s' = errors_logged s @ (if r = Inr () then [] else [FolderRenameError old new])"
    and "\<not> has_rename cl \<Longrightarrow> r \<noteq> Inr ()"
proof -
  show "events s' = events s @
           (if has_rename cl
            then [(FolderRename old new, Rename (cloud_path cl old) (cloud_path cl new), r = Inr ())]
            else [])"
    using assms
    by (auto simp: process_folder_rename_def Let_def log_error_def
             split: prod.splits sum.splits if_splits dest!: client_call_run)
  show "errors_logged s' = errors_logged s @ (if r = Inr () then [] else [FolderRenameError old new])"
    using assms
    by (auto simp: process_folder_rename_def Let_def log_error_def
             split: prod.splits sum.splits if_splits dest!: client_call_run)
  show "\<not> has_rename cl \<Longrightarrow> r \<noteq> Inr ()"
    using assms
    by (auto simp: process_folder_rename_def Let_def log_error_def
             split: prod.splits sum.splits if_splits)
qed


lemma log_error_run [simp]:
  "events (log_error e s) = events s"
  "errors_logged (log_error e s) = errors_logged s @ [e]"
  by (simp_all add: log_error_def)

lemma folder_renames_loop_run:
  "\<exists>E L. events (folder_renames_loop cl prs s) = events s @ E \<and>
         errors_logged (folder_renames_loop cl prs s) = errors_logged s @ L \<and>
         map (\<lambda>ev. (fst ev, fst (snd ev))) E =
           (if has_rename cl
            then map (\<lambda>(old, new). (FolderRename old new, Rename (cloud_path cl old) (cloud_path cl new))) prs
            else []) \<and>
         (\<forall>old new c. (FolderRename old new, c, False) \<in> set E \<longrightarrow> FolderRenameError old new \<in> set L) \<and>
         (\<not> has_rename cl \<longrightarrow> (\<forall>(old, new) \<in> set prs. FolderRenameError old new \<in> set L))"
proof (induction prs arbitrary: s)
  case Nil
  show ?case by simp
next
  case (Cons pr prs)
  obtain old new where pr: "pr = (old, new)" by (cases pr)
  obtain r s1 where p: "process_folder_rename cl old new s = (r, s1)"
    by (cases "process_folder_rename cl old new s")
  define s2 where "s2 = (if r = Inr () then s1 else log_error (FolderRenameError old new) s1)"
  define e1 where "e1 = (if has_rename cl
            then [(FolderRename old new, Rename (cloud_path cl old) (cloud_path cl new), r = Inr ())]
            else [])"
  define l1 where "l1 = (if r = Inr () then [] else [FolderRenameError old new, FolderRenameError old new])"
  have loop: "folder_renames_loop cl (pr # prs) s = folder_renames_loop cl prs s2"
    using p by (cases r) (simp_all add: pr s2_def)
  have ev2: "events s2 = events s @ e1"
    using process_folder_rename_run(1) [OF p] by (simp add: s2_def e1_def)
  have er2: "errors_logged s2 = errors_logged s @ l1"
    using process_folder_rename_run(2) [OF p] by (simp add: s2_def l1_def)
  have nr: "\<not> has_rename cl \<Longrightarrow> r \<noteq> Inr ()"
    using process_folder_rename_run(3) [OF p] .
  from Cons.IH [of s2] obtain E L where
    E: "events (folder_renames_loop cl prs s2) = events s2 @ E" and
    L: "errors_logged (folder_renames_loop cl prs s2) = errors_logged s2 @ L" and
    M: "map (\<lambda>ev. (fst ev, fst (snd ev))) E =
           (if has_rename cl
            then map (\<lambda>(old, new). (FolderRename old new, Rename (cloud_path cl old) (cloud_path cl new))) prs
            else [])" and
    F: "\<forall>old new c. (FolderRename old new, c, False) \<in> set E \<longrightarrow> FolderRenameError old new \<in> set L" and
    N: "\<not> has_rename cl \<longrightarrow> (\<forall>(old, new) \<in> set prs. FolderRenameError old new \<in> set L)"
    by blast
  have 1: "events (folder_renames_loop cl (pr # prs) s) = events s @ (e1 @ E)"
    by (simp add: loop E ev2)
  have 2: "errors_logged (folder_renames_loop cl (pr # prs) s) = errors_logged s @ (l1 @ L)"
    by (simp add: loop L er2)
  have 3: "map (\<lambda>ev. (fst ev, fst (snd ev))) (e1 @ E) =
           (if has_rename cl
            then map (\<lambda>(old, new). (FolderRename old new, Rename (cloud_path cl old) (cloud_path cl new))) (pr # prs)
            else [])"
    using M by (simp add: e1_def pr)
  have 4: "\<forall>old new c. (FolderRename old new, c, False) \<in> set (e1 @ E) \<longrightarrow>
             FolderRenameError old new \<in> set (l1 @ L)"
    using F by (auto simp: e1_def l1_def split: if_splits)
  have 5: "\<not> has_rename cl \<longrightarrow> (\<forall>(old, new) \<in> set (pr # prs). FolderRenameError old new \<in> set (l1 @ L))"
    using N nr by (auto simp: pr l1_def)
  from 1 2 3 4 5 show ?case by blast
qed


lemma try_rename_cloud_file_run:
  "try_rename_cloud_file cl old new s = (b, s') \<Longrightarrow>
     errors_logged s' = errors_logged s \<and>
     events s' = events s @
       (if has_rename cl
        then [(FileRename old new, Rename (cloud_path cl old) (cloud_path cl new), b)] else []) \<and>
     (\<not> has_rename cl \<longrightarrow> \<not> b)"
  by (auto simp: try_rename_cloud_file_def split: if_splits prod.splits sum.splits
           dest!: client_call_run)

lemma process_file_rename_run:
  "\<exists>E L. events (process_file_rename cl lp cloud old new s) = events s @ E \<and>
         errors_logged (process_file_rename cl lp cloud old new s) = errors_logged s @ L \<and>
         E \<noteq> [] \<and> (\<forall>ev \<in> set E. fst ev = FileRename old new) \<and>
         set L \<subseteq> {FileRenameError old new} \<and>
         ((\<exists>c. (FileRename old new, c, False) \<in> set E \<and> (\<forall>a b. c \<noteq> Rename a b)) \<longrightarrow>
            FileRenameError old new \<in> set L)"
proof -
  obtain b s1 where t: "try_rename_cloud_file cl old new s = (b, s1)"
    by (cases "try_rename_cloud_file cl old new s")
  note t' = try_rename_cloud_file_run [OF t]
  show ?thesis
  proof (cases b)
    case True
    then have "process_file_rename cl lp cloud old new s = s1"
      using t by (simp add: process_file_rename_def)
    with t' True show ?thesis by (auto split: if_splits)
  next
    case False
    obtain r s2 where l: "client_call cl (FileRename old new) (Load (path_join lp new) new) s1 = (r, s2)"
      by (cases "client_call cl (FileRename old new) (Load (path_join lp new) new) s1")
    note l' = client_call_run [OF l]
    have ev2: "\<exists>E. events s2 = events s @ E \<and> E \<noteq> [] \<and> (\<forall>ev \<in> set E. fst ev = FileRename old new) \<and>
                 (\<forall>c. (FileRename old new, c, False) \<in> set E \<and> (\<forall>a b. c \<noteq> Rename a b) \<longrightarrow> r \<noteq> Inr ())"
      using t' l' by (auto split: if_splits)
    have er2: "errors_logged s2 = errors_logged s" using t' l' by simp
    have "\<exists>E' L. events (process_file_rename cl lp cloud old new s) = events s2 @ E' \<and>
                 errors_logged (process_file_rename cl lp cloud old new s) = errors_logged s2 @ L \<and>
                 (\<forall>ev \<in> set E'. fst ev = FileRename old new) \<and> set L \<subseteq> {FileRenameError old new} \<and>
                 (r \<noteq> Inr () \<longrightarrow> FileRenameError old new \<in> set L) \<and>
                 ((\<exists>c. (FileRename old new, c, False) \<in> set E') \<longrightarrow> FileRenameError old new \<in> set L)"
      using t l False
      by (auto simp: process_file_rename_def split: sum.splits option.splits prod.splits
               dest!: client_call_run)
    then obtain E' L where
      "events (process_file_rename cl lp cloud old new s) = events s2 @ E'"
      "errors_logged (process_file_rename cl lp cloud old new s) = errors_logged s2 @ L"
      "\<forall>ev \<in> set E'. fst ev = FileRename old new" "set L \<subseteq> {FileRenameError old new}"
      "r \<noteq> Inr () \<longrightarrow> FileRenameError old new \<in> set L"
      "(\<exists>c. (FileRename old new, c, False) \<in> set E') \<longrightarrow> FileRenameError old new \<in> set L"
      by blast
    moreover from ev2 obtain E where "events s2 = events s @ E" "E \<noteq> []"
      "\<forall>ev \<in> set E. fst ev = FileRename old new"
      "\<forall>c. (FileRename old new, c, False) \<in> set E \<and> (\<forall>a b. c \<noteq> Rename a b) \<longrightarrow> r \<noteq> Inr ()"
      by blast
    ultimately have "events (process_file_rename cl lp cloud old new s) = events s @ (E @ E')"
      "errors_logged (process_file_rename cl lp cloud old new s) = errors_logged s @ L"
      "E @ E' \<noteq> []" "\<forall>ev \<in> set (E @ E'). fst ev = FileRename old new"
      "set L \<subseteq> {FileRenameError old new}"
      "(\<exists>c. (FileRename old new, c, False) \<in> set (E @ E') \<and> (\<forall>a b. c \<noteq> Rename a b)) \<longrightarrow>
            FileRenameError old new \<in> set L"
      using er2 by auto
    then show ?thesis by blast
  qed
qed

lemma file_renames_loop_run:
  "\<exists>E L. events (file_renames_loop cl lp cloud prs s) = events s @ E \<and>
         errors_logged (file_renames_loop cl lp cloud prs s) = errors_logged s @ L \<and>
         (\<forall>ev \<in> set E. \<exists>(old, new) \<in> set prs. fst ev = FileRename old new) \<and>
         (\<forall>(old, new) \<in> set prs. \<exists>ev \<in> set E. fst ev = FileRename old new) \<and>
         set L \<subseteq> (\<lambda>(old, new). FileRenameError old new) ` set prs \<and>
         (\<forall>old new c. (FileRename old new, c, False) \<in> set E \<and> (\<forall>a b. c \<noteq> Rename a b) \<longrightarrow>
            FileRenameError old new \<in> set L)"
proof (induction prs arbitrary: s)
  case Nil
  show ?case by simp
next
  case (Cons pr prs)
  obtain old new where pr: "pr = (old, new)" by (cases pr)
  define s1 where "s1 = process_file_rename cl lp cloud old new s"
  from process_file_rename_run [of cl lp cloud old new s] obtain E1 L1 where
    1: "events s1 = events s @ E1" "errors_logged s1 = errors_logged s @ L1" "E1 \<noteq> []"
       "\<forall>ev \<in> set E1. fst ev = FileRename old new" "set L1 \<subseteq> {FileRenameError old new}"
       "(\<exists>c. (FileRename old new, c, False) \<in> set E1 \<and> (\<forall>a b. c \<noteq> Rename a b)) \<longrightarrow>
            FileRenameError old new \<in> set L1"
    unfolding s1_def by blast
  from Cons.IH [of s1] obtain E L where
    2: "events (file_renames_loop cl lp cloud prs s1) = events s1 @ E"
       "errors_logged (file_renames_loop cl lp cloud prs s1) = errors_logged s1 @ L"
       "\<forall>ev \<in> set E. \<exists>(old, new) \<in> set prs. fst ev = FileRename old new"
       "\<forall>(old, new) \<in> set prs. \<exists>ev \<in> set E. fst ev = FileRename old new"
       "set L \<subseteq> (\<lambda>(old, new). FileRenameError old new) ` set prs"
       "\<forall>old new c. (FileRename old new, c, False) \<in> set E \<and> (\<forall>a b. c \<noteq> Rename a b) \<longrightarrow>
            FileRenameError old new \<in> set L"
    by blast
  have loop: "file_renames_loop cl lp cloud (pr # prs) s = file_renames_loop cl lp cloud prs s1"
    by (simp add: pr s1_def)
  obtain e where e: "e \<in> set E1" using 1(3) by (cases E1) auto
  have a: "events (file_renames_loop cl lp cloud (pr # prs) s) = events s @ (E1 @ E)"
    by (simp add: loop 1 2)
  have b: "errors_logged (file_renames_loop cl lp cloud (pr # prs) s) = errors_logged s @ (L1 @ L)"
    by (simp add: loop 1 2)
  have c: "\<forall>ev \<in> set (E1 @ E). \<exists>(old, new) \<in> set (pr # prs). fst ev = FileRename old new"
    using 1(4) 2(3) by (auto simp: pr)
  have d: "\<forall>(old, new) \<in> set (pr # prs). \<exists>ev \<in> set (E1 @ E). fst ev = FileRename old new"
    using 1(4) 2(4) e by (auto simp: pr)
  have f: "set (L1 @ L) \<subseteq> (\<lambda>(old, new). FileRenameError old new) ` set (pr # prs)"
    using 1(5) 2(5) by (auto simp: pr)
  have g: "\<forall>src dst c. (FileRename src dst, c, False) \<in> set (E1 @ E) \<and> (\<forall>a b. c \<noteq> Rename a b) \<longrightarrow>
            FileRenameError src dst \<in> set (L1 @ L)"
  proof (intro allI impI)
    fix src dst c
    assume h: "(FileRename src dst, c, False) \<in> set (E1 @ E) \<and> (\<forall>a b. c \<noteq> Rename a b)"
    then consider (first) "(FileRename src dst, c, False) \<in> set E1"
      | (later) "(FileRename src dst, c, False) \<in> set E" by auto
    then show "FileRenameError src dst \<in> set (L1 @ L)"
    proof cases
      case first
      with \<open>\<forall>ev \<in> set E1. fst ev = FileRename old new\<close> have "src = old" "dst = new" by auto
      with first h \<open>(\<exists>c. (FileRename old new, c, False) \<in> set E1 \<and> (\<forall>a b. c \<noteq> Rename a b)) \<longrightarrow>
            FileRenameError old new \<in> set L1\<close> show ?thesis by auto
    next
      case later
      with h 2(6) have "FileRenameError src dst \<in> set L" by blast
      then show ?thesis by simp
    qed
  qed
  from a b c d f g show ?case by blast
qed


lemma for_loop_run:
  assumes body: "\<And>x s r s'. body x s = (r, s') \<Longrightarrow>
            errors_logged s' = errors_logged s \<and> (bad x \<longrightarrow> r \<noteq> Inr ()) \<and>
            ((events s' = events s \<and> (r = Inr () \<longrightarrow> \<not> due x) \<and> (\<forall>e. r = Inl e \<longrightarrow> (\<exists>k. e = KeyError k))) \<or>
             (events s' = events s @ [(tag x, act x, r = Inr ())] \<and> due x \<and>
              (r = Inr () \<or> r = Inl CloudStorageError)))"
    and run: "for_loop body xs s = (r, s')"
  shows "\<exists>E. events s' = events s @ E \<and> errors_logged s' = errors_logged s \<and>
           (\<forall>e \<in> set E. \<exists>x \<in> set xs. \<exists>ok. due x \<and> e = (tag x, act x, ok)) \<and>
           (r = Inr () \<longrightarrow> E = map (\<lambda>x. (tag x, act x, True)) (filter due xs)) \<and>
           (\<forall>e. r = Inl e \<longrightarrow> (\<exists>k. e = KeyError k) \<or>
                 (e = CloudStorageError \<and> (\<exists>ev \<in> set E. \<not> snd (snd ev)))) \<and>
           ((\<exists>e \<in> set E. \<not> snd (snd e)) \<longrightarrow> r = Inl CloudStorageError) \<and>
           (r = Inr () \<longrightarrow> (\<forall>x \<in> set xs. \<not> bad x))"
  using run
proof (induction xs arbitrary: s)
  case Nil
  then show ?case by auto
next
  case (Cons x xs)
  obtain r1 s1 where b: "body x s = (r1, s1)" by (cases "body x s")
  note sp = body [OF b]
  show ?case
  proof (cases r1)
    case (Inl e)
    with Cons.prems b have fin: "r = Inl e" "s' = s1" by simp_all
    from sp Inl consider
        (quiet) "events s1 = events s" "\<exists>k. e = KeyError k"
      | (failed) "events s1 = events s @ [(tag x, act x, False)]" "due x" "e = CloudStorageError"
      by auto
    then show ?thesis
    proof cases
      case quiet
      with sp fin show ?thesis by (intro exI [of _ "[]"]) auto
    next
      case failed
      with sp fin show ?thesis by (intro exI [of _ "[(tag x, act x, False)]"]) auto
    qed
  next
    case (Inr u)
    with Cons.prems b have rest: "for_loop body xs s1 = (r, s')" by simp
    define e1 where "e1 = (if due x then [(tag x, act x, True)] else [])"
    have ev1: "events s1 = events s @ e1" and er1: "errors_logged s1 = errors_logged s"
      using sp Inr by (auto simp: e1_def)
    from Cons.IH [OF rest] obtain E where
      E: "events s' = events s1 @ E" "errors_logged s' = errors_logged s1"
         "\<forall>e \<in> set E. \<exists>x \<in> set xs. \<exists>ok. due x \<and> e = (tag x, act x, ok)"
         "r = Inr () \<longrightarrow> E = map (\<lambda>x. (tag x, act x, True)) (filter due xs)"
         "\<forall>e. r = Inl e \<longrightarrow> (\<exists>k. e = KeyError k) \<or>
                 (e = CloudStorageError \<and> (\<exists>ev \<in> set E. \<not> snd (snd ev)))"
         "(\<exists>e \<in> set E. \<not> snd (snd e)) \<longrightarrow> r = Inl CloudStorageError"
         "r = Inr () \<longrightarrow> (\<forall>x \<in> set xs. \<not> bad x)"
      by blast
    have 1: "events s' = events s @ (e1 @ E)" using E(1) ev1 by simp
    have 2: "errors_logged s' = errors_logged s" using E(2) er1 by simp
    have 3: "\<forall>e \<in> set (e1 @ E). \<exists>y \<in> set (x # xs). \<exists>ok. due y \<and> e = (tag y, act y, ok)"
      using E(3) by (auto simp: e1_def)
    have 4: "r = Inr () \<longrightarrow> e1 @ E = map (\<lambda>x. (tag x, act x, True)) (filter due (x # xs))"
      using E(4) by (simp add: e1_def)
    have 5: "\<forall>e. r = Inl e \<longrightarrow> (\<exists>k. e = KeyError k) \<or>
                 (e = CloudStorageError \<and> (\<exists>ev \<in> set (e1 @ E). \<not> snd (snd ev)))"
      using E(5) by auto
    have 6: "(\<exists>e \<in> set (e1 @ E). \<not> snd (snd e)) \<longrightarrow> r = Inl CloudStorageError"
      using E(6) by (auto simp: e1_def)
    have 7: "r = Inr () \<longrightarrow> (\<forall>y \<in> set (x # xs). \<not> bad y)"
      using E(7) sp Inr by auto
    from 1 2 3 4 5 6 7 show ?thesis by blast
  qed
qed


lemma upload_item_run:
  assumes "upload_item strp cl cur cloud base lp rel s = (r, s')"
  shows "errors_logged s' = errors_logged s \<and>
         (unreadable_entry cur cloud rel \<longrightarrow> r \<noteq> Inr ()) \<and>
         ((events s' = events s \<and>
           (r = Inr () \<longrightarrow> \<not> (upload_due strp cur cloud base rel \<and> \<not> unreadable_entry cur cloud rel)) \<and>
           (\<forall>e. r = Inl e \<longrightarrow> (\<exists>k. e = KeyError k))) \<or>
          (events s' = events s @ [(Upload rel, Load (path_join lp rel) rel, r = Inr ())] \<and>
           (upload_due strp cur cloud base rel \<and> \<not> unreadable_entry cur cloud rel) \<and>
           (r = Inr () \<or> r = Inl CloudStorageError)))"
proof (cases "rel \<in> set (dict_keys cloud)")
  case False
  then have "client_call cl (Upload rel) (Load (path_join lp rel) rel) s = (r, s')"
    using assms by (simp add: upload_item_def Let_def)
  from client_call_run [OF this] False show ?thesis
    by (simp add: upload_due_def unreadable_entry_def)
next
  case True
  show ?thesis
  proof (cases "map_of cur rel")
    case None
    with True assms show ?thesis
      by (auto simp: upload_item_def Let_def unreadable_entry_def)
  next
    case (Some e)
    obtain m z where e: "e = (m, z)" by (cases e)
    from True obtain item where item: "map_of cloud rel = Some item"
      by (cases "map_of cloud rel") (auto simp: dict_keys_def map_of_eq_None_iff)
    show ?thesis
    proof (cases "item ''modified''")
      case None
      with True Some e item assms show ?thesis
        by (auto simp: upload_item_def Let_def unreadable_entry_def)
    next
      case (Some t)
      note md = this
      have nb: "\<not> unreadable_entry cur cloud rel"
        using \<open>map_of cur rel = Some e\<close> item md by (simp add: unreadable_entry_def)
      have due: "upload_due strp cur cloud base rel \<longleftrightarrow>
                  baseline_differs base rel m z \<or> m > parse_cloud_time strp t"
        using True \<open>map_of cur rel = Some e\<close> e item md
        by (simp add: upload_due_def newer_than_remote_def)
      show ?thesis
      proof (cases "baseline_differs base rel m z \<or> m > parse_cloud_time strp t")
        case True
        then have "client_call cl (Upload rel) (Load (path_join lp rel) rel) s = (r, s')"
          using assms \<open>rel \<in> set (dict_keys cloud)\<close> \<open>map_of cur rel = Some e\<close> e item md
          by (auto simp: upload_item_def Let_def baseline_differs_def split: if_splits)
        from client_call_run [OF this] True nb due show ?thesis by simp
      next
        case False
        then have "(r, s') = (Inr (), s)"
          using assms \<open>rel \<in> set (dict_keys cloud)\<close> \<open>map_of cur rel = Some e\<close> e item md
          by (auto simp: upload_item_def Let_def baseline_differs_def)
        with False nb due show ?thesis by simp
      qed
    qed
  qed
qed

lemma delete_item_run:
  assumes "delete_item cl cloud rel s = (r, s')"
  shows "errors_logged s' = errors_logged s \<and>
         (remote_path cloud rel = None \<longrightarrow> r \<noteq> Inr ()) \<and>
         ((events s' = events s \<and> (r = Inr () \<longrightarrow> \<not> (remote_path cloud rel \<noteq> None)) \<and>
           (\<forall>e. r = Inl e \<longrightarrow> (\<exists>k. e = KeyError k))) \<or>
          (events s' = events s @
             [(Deletion rel, Delete (case remote_path cloud rel of Some p \<Rightarrow> p | None \<Rightarrow> PNone), r = Inr ())] \<and>
           remote_path cloud rel \<noteq> None \<and>
           (r = Inr () \<or> r = Inl CloudStorageError)))"
proof (cases "remote_path cloud rel")
  case None
  with assms show ?thesis
    by (auto simp: delete_item_def remote_path_def split: option.splits)
next
  case (Some p)
  then have "client_call cl (Deletion rel) (Delete p) s = (r, s')"
    using assms by (auto simp: delete_item_def remote_path_def split: option.splits)
  from client_call_run [OF this] Some show ?thesis by simp
qed


lemma rename_folders_step_run:
  obtains E L where
    "events (rename_folders_step cl frs s) = events s @ E"
    "errors_logged (rename_folders_step cl frs s) = errors_logged s @ L"
    "map (\<lambda>ev. (fst ev, fst (snd ev))) E =
       (if has_rename cl
        then map (\<lambda>(old, new). (FolderRename old new, Rename (cloud_path cl old) (cloud_path cl new)))
               (sort_by_depth frs)
        else [])"
    "\<forall>old new c. (FolderRename old new, c, False) \<in> set E \<longrightarrow> FolderRenameError old new \<in> set L"
    "\<not> has_rename cl \<longrightarrow> (\<forall>(old, new) \<in> set frs. FolderRenameError old new \<in> set L)"
proof (cases "frs = []")
  case True
  then show ?thesis
    using that [of "[]" "[]"] by (simp add: rename_folders_step_def sort_by_depth_def)
next
  case False
  from folder_renames_loop_run [of cl "sort_by_depth frs" s] obtain E L where
    "events (folder_renames_loop cl (sort_by_depth frs) s) = events s @ E"
    "errors_logged (folder_renames_loop cl (sort_by_depth frs) s) = errors_logged s @ L"
    "map (\<lambda>ev. (fst ev, fst (snd ev))) E =
       (if has_rename cl
        then map (\<lambda>(old, new). (FolderRename old new, Rename (cloud_path cl old) (cloud_path cl new)))
               (sort_by_depth frs)
        else [])"
    "\<forall>old new c. (FolderRename old new, c, False) \<in> set E \<longrightarrow> FolderRenameError old new \<in> set L"
    "\<not> has_rename cl \<longrightarrow> (\<forall>(old, new) \<in> set (sort_by_depth frs). FolderRenameError old new \<in> set L)"
    by blast
  with False show ?thesis
    using that [of E L] by (simp add: rename_folders_step_def sort_by_depth_def)
qed

lemma rename_files_step_run:
  obtains E L where
    "events (rename_files_step cl lp cloud prs s) = events s @ E"
    "errors_logged (rename_files_step cl lp cloud prs s) = errors_logged s @ L"
    "\<forall>ev \<in> set E. \<exists>(old, new) \<in> set prs. fst ev = FileRename old new"
    "\<forall>(old, new) \<in> set prs. \<exists>ev \<in> set E. fst ev = FileRename old new"
    "set L \<subseteq> (\<lambda>(old, new). FileRenameError old new) ` set prs"
    "\<forall>old new c. (FileRename old new, c, False) \<in> set E \<and> (\<forall>a b. c \<noteq> Rename a b) \<longrightarrow>
            FileRenameError old new \<in> set L"
proof (cases "prs = []")
  case True
  then show ?thesis using that [of "[]" "[]"] by (simp add: rename_files_step_def)
next
  case False
  from file_renames_loop_run [of cl lp cloud prs s] obtain E L where
    "events (file_renames_loop cl lp cloud prs s) = events s @ E"
    "errors_logged (file_renames_loop cl lp cloud prs s) = errors_logged s @ L"
    "\<forall>ev \<in> set E. \<exists>(old, new) \<in> set prs. fst ev = FileRename old new"
    "\<forall>(old, new) \<in> set prs. \<exists>ev \<in> set E. fst ev = FileRename old new"
    "set L \<subseteq> (\<lambda>(old, new). FileRenameError old new) ` set prs"
    "\<forall>old new c. (FileRename old new, c, False) \<in> set E \<and> (\<forall>a b. c \<noteq> Rename a b) \<longrightarrow>
            FileRenameError old new \<in> set L"
    by blast
  with False show ?thesis using that [of E L] by (simp add: rename_files_step_def)
qed

lemma upload_loop_run:
  assumes "for_loop (upload_item strp cl cur cloud base lp) xs s = (r, s')"
  shows "\<exists>E. events s' = events s @ E \<and> errors_logged s' = errors_logged s \<and>
           (\<forall>e \<in> set E. \<exists>x \<in> set xs. \<exists>ok.
               (upload_due strp cur cloud base x \<and> \<not> unreadable_entry cur cloud x) \<and>
               e = (Upload x, Load (path_join lp x) x, ok)) \<and>
           (r = Inr () \<longrightarrow> E = map (\<lambda>x. (Upload x, Load (path_join lp x) x, True))
               (filter (\<lambda>x. upload_due strp cur cloud base x \<and> \<not> unreadable_entry cur cloud x) xs)) \<and>
           (\<forall>e. r = Inl e \<longrightarrow> (\<exists>k. e = KeyError k) \<or>
                 (e = CloudStorageError \<and> (\<exists>ev \<in> set E. \<not> snd (snd ev)))) \<and>
           ((\<exists>e \<in> set E. \<not> snd (snd e)) \<longrightarrow> r = Inl CloudStorageError) \<and>
           (r = Inr () \<longrightarrow> (\<forall>x \<in> set xs. \<not> unreadable_entry cur cloud x))"
  by (rule for_loop_run [where body = "upload_item strp cl cur cloud base lp"
        and bad = "unreadable_entry cur cloud", OF upload_item_run assms])

lemma delete_loop_run:
  assumes "for_loop (delete_item cl cloud) xs s = (r, s')"
  shows "\<exists>E. events s' = events s @ E \<and> errors_logged s' = errors_logged s \<and>
           (\<forall>e \<in> set E. \<exists>x \<in> set xs. \<exists>ok. remote_path cloud x \<noteq> None \<and>
               e = (Deletion x, Delete (case remote_path cloud x of Some p \<Rightarrow> p | None \<Rightarrow> PNone), ok)) \<and>
           (r = Inr () \<longrightarrow> E = map (\<lambda>x. (Deletion x,
                  Delete (case remote_path cloud x of Some p \<Rightarrow> p | None \<Rightarrow> PNone), True))
               (filter (\<lambda>x. remote_path cloud x \<noteq> None) xs)) \<and>
           (\<forall>e. r = Inl e \<longrightarrow> (\<exists>k. e = KeyError k) \<or>
                 (e = CloudStorageError \<and> (\<exists>ev \<in> set E. \<not> snd (snd ev)))) \<and>
           ((\<exists>e \<in> set E. \<not> snd (snd e)) \<longrightarrow> r = Inl CloudStorageError) \<and>
           (r = Inr () \<longrightarrow> (\<forall>x \<in> set xs. \<not> remote_path cloud x = None))"
  by (rule for_loop_run [where body = "delete_item cl cloud"
        and bad = "\<lambda>x. remote_path cloud x = None", OF delete_item_run assms])

lemma process_local_changes_run:
  fixes rank fs strp cl cur cloud base lp
  defines "pairs \<equiv> find_renamed_files rank fs cur cloud base lp"
  defines "ucands \<equiv> upload_candidates rank cur (processed_files pairs)"
  defines "dcands \<equiv> delete_candidates rank cur cloud (processed_files pairs)"
  defines "due3 \<equiv> \<lambda>x. upload_due strp cur cloud base x \<and> \<not> unreadable_entry cur cloud x"
  defines "ev3 \<equiv> \<lambda>x ok. (Upload x, Load (path_join lp x) x, ok)"
  defines "ev4 \<equiv> \<lambda>x ok. (Deletion x, Delete (case remote_path cloud x of Some p \<Rightarrow> p | None \<Rightarrow> PNone), ok)"
  assumes run: "process_local_changes rank fs strp cl cur cloud base lp s = (r, s')"
      and fr: "find_renamed_folders rank cur cloud base = Inr frs"
  obtains E1 E2 E3 E4 L1 L2 where
    "events s' = events s @ E1 @ E2 @ E3 @ E4"
    "errors_logged s' = errors_logged s @ L1 @ L2"
    "map (\<lambda>ev. (fst ev, fst (snd ev))) E1 =
       (if has_rename cl
        then map (\<lambda>(old, new). (FolderRename old new, Rename (cloud_path cl old) (cloud_path cl new)))
               (sort_by_depth frs)
        else [])"
    "\<forall>old new c. (FolderRename old new, c, False) \<in> set E1 \<longrightarrow> FolderRenameError old new \<in> set L1"
    "\<not> has_rename cl \<longrightarrow> (\<forall>(old, new) \<in> set frs. FolderRenameError old new \<in> set L1)"
    "\<forall>ev \<in> set E2. \<exists>(old, new) \<in> set pairs. fst ev = FileRename old new"
    "\<forall>(old, new) \<in> set pairs. \<exists>ev \<in> set E2. fst ev = FileRename old new"
    "set L2 \<subseteq> (\<lambda>(old, new). FileRenameError old new) ` set pairs"
    "\<forall>old new c. (FileRename old new, c, False) \<in> set E2 \<and> (\<forall>a b. c \<noteq> Rename a b) \<longrightarrow>
            FileRenameError old new \<in> set L2"
    "\<forall>e \<in> set E3. \<exists>x \<in> set ucands. \<exists>ok. due3 x \<and> e = ev3 x ok"
    "\<forall>e \<in> set E4. \<exists>x \<in> set dcands. \<exists>ok. remote_path cloud x \<noteq> None \<and> e = ev4 x ok"
    "r = Inr () \<longrightarrow> E3 = map (\<lambda>x. ev3 x True) (filter due3 ucands) \<and>
                    E4 = map (\<lambda>x. ev4 x True) (filter (\<lambda>x. remote_path cloud x \<noteq> None) dcands) \<and>
                    (\<forall>x \<in> set ucands. \<not> unreadable_entry cur cloud x) \<and>
                    (\<forall>x \<in> set dcands. remote_path cloud x \<noteq> None)"
    "\<forall>e. r = Inl e \<longrightarrow> (\<exists>k. e = KeyError k) \<or>
           (e = CloudStorageError \<and> (\<exists>ev \<in> set (E3 @ E4). \<not> snd (snd ev)))"
    "(\<exists>ev \<in> set (E3 @ E4). \<not> snd (snd ev)) \<longrightarrow> r = Inl CloudStorageError"
proof -
  define s1 where "s1 = rename_folders_step cl frs s"
  define s2 where "s2 = rename_files_step cl lp cloud pairs s1"
  obtain E1 L1 where 1:
    "events s1 = events s @ E1"
    "errors_logged s1 = errors_logged s @ L1"
    "map (\<lambda>ev. (fst ev, fst (snd ev))) E1 =
       (if has_rename cl
        then map (\<lambda>(old, new). (FolderRename old new, Rename (cloud_path cl old) (cloud_path cl new)))
               (sort_by_depth frs)
        else [])"
    "\<forall>old new c. (FolderRename old new, c, False) \<in> set E1 \<longrightarrow> FolderRenameError old new \<in> set L1"
    "\<not> has_rename cl \<longrightarrow> (\<forall>(old, new) \<in> set frs. FolderRenameError old new \<in> set L1)"
    unfolding s1_def by (rule rename_folders_step_run [of cl frs s])
  obtain E2 L2 where 2:
    "events s2 = events s1 @ E2"
    "errors_logged s2 = errors_logged s1 @ L2"
    "\<forall>ev \<in> set E2. \<exists>(old, new) \<in> set pairs. fst ev = FileRename old new"
    "\<forall>(old, new) \<in> set pairs. \<exists>ev \<in> set E2. fst ev = FileRename old new"
    "set L2 \<subseteq> (\<lambda>(old, new). FileRenameError old new) ` set pairs"
    "\<forall>old new c. (FileRename old new, c, False) \<in> set E2 \<and> (\<forall>a b. c \<noteq> Rename a b) \<longrightarrow>
            FileRenameError old new \<in> set L2"
    unfolding s2_def by (rule rename_files_step_run [of cl lp cloud pairs s1])
  obtain r3 s3 where u: "for_loop (upload_item strp cl cur cloud base lp) ucands s2 = (r3, s3)"
    by (cases "for_loop (upload_item strp cl cur cloud base lp) ucands s2")
  from upload_loop_run [OF u]
  obtain E3 where 3:
    "events s3 = events s2 @ E3" "errors_logged s3 = errors_logged s2"
    "\<forall>e \<in> set E3. \<exists>x \<in> set ucands. \<exists>ok. due3 x \<and> e = ev3 x ok"
    "r3 = Inr () \<longrightarrow> E3 = map (\<lambda>x. ev3 x True) (filter due3 ucands)"
    "\<forall>e. r3 = Inl e \<longrightarrow> (\<exists>k. e = KeyError k) \<or>
           (e = CloudStorageError \<and> (\<exists>ev \<in> set E3. \<not> snd (snd ev)))"
    "(\<exists>e \<in> set E3. \<not> snd (snd e)) \<longrightarrow> r3 = Inl CloudStorageError"
    "r3 = Inr () \<longrightarrow> (\<forall>x \<in> set ucands. \<not> unreadable_entry cur cloud x)"
    unfolding ev3_def due3_def by (elim exE conjE) 
  show thesis
  proof (cases r3)
    case (Inl e)
    then have fin: "r = Inl e" "s' = s3"
      using run fr u by (simp_all add: process_local_changes_def Let_def pairs_def ucands_def s1_def s2_def)
    have a: "events s' = events s @ E1 @ E2 @ E3 @ []"
      using fin 1(1) 2(1) 3(1) by simp
    have b: "errors_logged s' = errors_logged s @ L1 @ L2"
      using fin 1(2) 2(2) 3(2) by simp
    have k: "\<forall>e. r = Inl e \<longrightarrow> (\<exists>k. e = KeyError k) \<or>
           (e = CloudStorageError \<and> (\<exists>ev \<in> set (E3 @ []). \<not> snd (snd ev)))"
      using fin Inl 3(5) by simp
    have l: "(\<exists>ev \<in> set (E3 @ []). \<not> snd (snd ev)) \<longrightarrow> r = Inl CloudStorageError"
      using fin Inl 3(6) by auto
    show thesis
      by (rule that [OF a b 1(3) 1(4) 1(5) 2(3) 2(4) 2(5) 2(6) 3(3) _ _ k l]) (simp_all add: fin)
  next
    case (Inr u3)
    then have d: "for_loop (delete_item cl cloud) dcands s3 = (r, s')"
      using run fr u
      by (simp add: process_local_changes_def Let_def pairs_def ucands_def dcands_def s1_def s2_def)
    from delete_loop_run [OF d]
    obtain E4 where 4:
      "events s' = events s3 @ E4" "errors_logged s' = errors_logged s3"
      "\<forall>e \<in> set E4. \<exists>x \<in> set dcands. \<exists>ok. remote_path cloud x \<noteq> None \<and> e = ev4 x ok"
      "r = Inr () \<longrightarrow> E4 = map (\<lambda>x. ev4 x True) (filter (\<lambda>x. remote_path cloud x \<noteq> None) dcands)"
      "\<forall>e. r = Inl e \<longrightarrow> (\<exists>k. e = KeyError k) \<or>
             (e = CloudStorageError \<and> (\<exists>ev \<in> set E4. \<not> snd (snd ev)))"
      "(\<exists>e \<in> set E4. \<not> snd (snd e)) \<longrightarrow> r = Inl CloudStorageError"
      "r = Inr () \<longrightarrow> (\<forall>x \<in> set dcands. remote_path cloud x \<noteq> None)"
      unfolding ev4_def by (elim exE conjE) 
    have ok3: "\<forall>e \<in> set E3. snd (snd e)" using 3(6) Inr by auto
    have a: "events s' = events s @ E1 @ E2 @ E3 @ E4"
      using 1(1) 2(1) 3(1) 4(1) by simp
    have b: "errors_logged s' = errors_logged s @ L1 @ L2"
      using 1(2) 2(2) 3(2) 4(2) by simp
    have i: "r = Inr () \<longrightarrow> E3 = map (\<lambda>x. ev3 x True) (filter due3 ucands) \<and>
                    E4 = map (\<lambda>x. ev4 x True) (filter (\<lambda>x. remote_path cloud x \<noteq> None) dcands) \<and>
                    (\<forall>x \<in> set ucands. \<not> unreadable_entry cur cloud x) \<and>
                    (\<forall>x \<in> set dcands. remote_path cloud x \<noteq> None)"
      using 3(4) 3(7) 4(4) 4(7) Inr by simp
    have k: "\<forall>e. r = Inl e \<longrightarrow> (\<exists>k. e = KeyError k) \<or>
           (e = CloudStorageError \<and> (\<exists>ev \<in> set (E3 @ E4). \<not> snd (snd ev)))"
      using 4(5) by auto
    have l: "(\<exists>ev \<in> set (E3 @ E4). \<not> snd (snd ev)) \<longrightarrow> r = Inl CloudStorageError"
      using 4(6) ok3 by auto
    show thesis
      by (rule that [OF a b 1(3) 1(4) 1(5) 2(3) 2(4) 2(5) 2(6) 3(3) 4(3) i k l])
  qed
qed

section \<open>Facts about the tick and the sample data\<close>

lemma sync_proceeds:
  assumes "scan_cloud_files_with_retry cl get_recursive_info 3 = Inr (Some current_cloud)"
  shows "fst (sync rank fs strptime cl local_path current_local get_recursive_info st s) = Inr NoChanges
     \<longleftrightarrow> \<not> check_local_changes current_local (last_local_state st) \<and>
          \<not> check_cloud_changes current_cloud (last_cloud_state st)"
  using assms by (auto simp: sync_def Let_def split: prod.splits sum.splits)

lemma scan_sample:
  "scan_cloud_files_with_retry (sample_client ok)
     (\<lambda>k. Inr [dir_item ''disk:/Backup/docs'', file_item ''disk:/Backup/docs/a.txt'' 200 ''2023-04-27T19:41:25+00:00'']) 3
   = Inr (Some [(''docs/a.txt'', file_item ''disk:/Backup/docs/a.txt'' 200 ''2023-04-27T19:41:25+00:00'')])"
  by (simp add: scan_cloud_files_with_retry_def numeral_3_eq_3 sample_client_def dir_item_def file_item_def cloud_key_def)


section \<open>The order of folder renames\<close>

lemma sort_by_depth_sorted:
  "sorted_wrt (\<lambda>a b. depth (fst a) \<ge> depth (fst b)) (sort_by_depth frs)"
proof -
  have "sorted (map (\<lambda>x. - int (depth (fst x))) (sort_by_depth frs))"
    unfolding sort_by_depth_def by (rule sorted_sort_key)
  then show ?thesis by (simp add: sorted_map)
qed

lemma sort_by_depth_mset: "mset (sort_by_depth frs) = mset frs"
  by (simp add: sort_by_depth_def)

lemma depth_child: "depth (parent @ ''/'' @ sub) = depth parent + 1 + depth sub"
  by (simp add: depth_def)

lemma child_before_parent:
  assumes "i < length (sort_by_depth frs)" "j < length (sort_by_depth frs)"
      and "sort_by_depth frs ! i = (parent @ ''/'' @ sub, c)"
      and "sort_by_depth frs ! j = (parent, p)"
  shows "i < j"
proof (rule ccontr)
  assume "\<not> i < j"
  then consider "i = j" | "j < i" by linarith
  then show False
  proof cases
    case 1
    with assms(3,4) have "parent @ ''/'' @ sub = parent" by simp
    then show False by simp
  next
    case 2
    from sorted_wrt_nth_less [OF sort_by_depth_sorted 2 assms(1)] assms(3,4)
    have "depth parent \<ge> depth (parent @ ''/'' @ sub)" by simp
    then show False by (simp add: depth_def)
  qed
qed

lemma map_eq_tags:
  assumes "map f E = map g xs"
  shows "\<forall>e \<in> set E. \<exists>x \<in> set xs. f e = g x"
proof -
  have "f ` set E = g ` set xs" using assms by (metis list.set_map)
  then show ?thesis by auto
qed

lemma folder_events_only_step1:
  assumes 1: "map (\<lambda>ev. (fst ev, fst (snd ev))) E1 =
       (if has_rename cl
        then map (\<lambda>(old, new). (FolderRename old new, Rename (cloud_path cl old) (cloud_path cl new))) xs
        else [])"
    and 2: "\<forall>ev \<in> set E2. \<exists>(old, new) \<in> set pairs. fst ev = FileRename old new"
    and 3: "\<forall>e \<in> set E3. \<exists>x \<in> set ucands. \<exists>ok. due3 x \<and> e = (Upload x, act3 x, ok)"
    and 4: "\<forall>e \<in> set E4. \<exists>x \<in> set dcands. \<exists>ok. due4 x \<and> e = (Deletion x, act4 x, ok)"
  shows "[ev \<leftarrow> E1 @ E2 @ E3 @ E4. is_folder_rename (fst ev)] = E1"
proof -
  have "\<forall>e \<in> set E1. is_folder_rename (fst e)"
  proof (cases "has_rename cl")
    case True
    with 1 have "map (\<lambda>ev. (fst ev, fst (snd ev))) E1 =
        map (\<lambda>(old, new). (FolderRename old new, Rename (cloud_path cl old) (cloud_path cl new))) xs"
      by simp
    from map_eq_tags [OF this] show ?thesis by fastforce
  next
    case False
    with 1 show ?thesis by simp
  qed
  then have a: "[ev \<leftarrow> E1. is_folder_rename (fst ev)] = E1" by (simp add: filter_id_conv)
  have b: "[ev \<leftarrow> E2. is_folder_rename (fst ev)] = []"
    using 2 by (fastforce simp: filter_empty_conv)
  have c: "[ev \<leftarrow> E3. is_folder_rename (fst ev)] = []"
    using 3 by (fastforce simp: filter_empty_conv)
  have d: "[ev \<leftarrow> E4. is_folder_rename (fst ev)] = []"
    using 4 by (fastforce simp: filter_empty_conv)
  from a b c d show ?thesis by simp
qed

section \<open>Greedy pairing of renamed files\<close>

lemma first_matching_name_find:
  "first_matching_name fs lp h cands =
     find (\<lambda>n. fs (path_join lp n) \<noteq> None \<and> h = calculate_file_identifier fs (path_join lp n)) cands"
  by (induction cands) (auto simp: Let_def)

lemma renamed_files_loop_spec:
  "renamed_files_loop fs lp cloud base ds cands acc =
     acc @ spec_rename_pairs (\<lambda>old. old \<in> set (dict_keys cloud))
             (\<lambda>old new. fs (path_join lp new) \<noteq> None \<and>
                  get_file_identifier old base = calculate_file_identifier fs (path_join lp new))
             ds cands"
proof (induction ds arbitrary: cands acc)
  case Nil
  show ?case by simp
next
  case (Cons d ds)
  show ?case
    by (simp add: Cons.IH first_matching_name_find split: option.splits)
qed

lemma spec_rename_pairs_sound:
  "(old, new) \<in> set (spec_rename_pairs R S ds cs) \<Longrightarrow>
     old \<in> set ds \<and> new \<in> set cs \<and> R old \<and> S old new"
proof (induction ds arbitrary: cs)
  case Nil
  then show ?case by simp
next
  case (Cons d ds)
  show ?case
  proof (cases "R d")
    case False
    with Cons show ?thesis by auto
  next
    case True
    show ?thesis
    proof (cases "find (S d) cs")
      case None
      with True Cons show ?thesis by auto
    next
      case (Some n)
      then have n: "n \<in> set cs" "S d n" by (auto simp: find_Some_iff)
      from Cons.prems True Some consider "(old, new) = (d, n)"
        | "(old, new) \<in> set (spec_rename_pairs R S ds (removeAll n cs))" by auto
      then show ?thesis
      proof cases
        case 1
        with n True show ?thesis by simp
      next
        case 2
        from Cons.IH [OF 2] show ?thesis by auto
      qed
    qed
  qed
qed

lemma spec_rename_pairs_distinct_fst:
  "distinct ds \<Longrightarrow> distinct (map fst (spec_rename_pairs R S ds cs))"
proof (induction ds arbitrary: cs)
  case Nil
  show ?case by simp
next
  case (Cons d ds)
  have "\<And>cs'. d \<notin> fst ` set (spec_rename_pairs R S ds cs')"
    using Cons.prems spec_rename_pairs_sound [of d _ R S ds] by force
  with Cons show ?case by (auto split: option.splits)
qed

lemma spec_rename_pairs_distinct_snd:
  "distinct (map snd (spec_rename_pairs R S ds cs))"
proof (induction ds arbitrary: cs)
  case Nil
  show ?case by simp
next
  case (Cons d ds)
  have "\<And>n. n \<notin> snd ` set (spec_rename_pairs R S ds (removeAll n cs))"
    using spec_rename_pairs_sound [of _ _ R S ds] by force
  with Cons show ?case by (auto split: option.splits)
qed

lemma spec_rename_pairs_maximal:
  assumes "old \<in> set ds" "new \<in> set cs" "R old" "S old new"
  shows "old \<in> fst ` set (spec_rename_pairs R S ds cs) \<or>
         new \<in> snd ` set (spec_rename_pairs R S ds cs)"
  using assms
proof (induction ds arbitrary: cs)
  case Nil
  then show ?case by simp
next
  case (Cons d ds)
  show ?case
  proof (cases "R d")
    case False
    with Cons.prems have "old \<in> set ds" by auto
    from Cons.IH [OF this Cons.prems(2,3,4)] False show ?thesis by simp
  next
    case True
    show ?thesis
    proof (cases "find (S d) cs")
      case None
      then have no: "\<forall>n \<in> set cs. \<not> S d n" by (simp add: find_None_iff)
      with Cons.prems have "old \<in> set ds" by auto
      from Cons.IH [OF this Cons.prems(2,3,4)] True None show ?thesis by simp
    next
      case (Some n)
      show ?thesis
      proof (cases "old = d \<or> new = n")
        case True
        with \<open>R d\<close> Some show ?thesis by force
      next
        case False
        with Cons.prems have "old \<in> set ds" "new \<in> set (removeAll n cs)" by auto
        from Cons.IH [OF this Cons.prems(3,4)] \<open>R d\<close> Some show ?thesis by auto
      qed
    qed
  qed
qed

lemma set_iter_set [simp]: "set (set_iter rank xs) = set xs"
  by (simp add: set_iter_def)

lemma set_iter_distinct [simp]: "distinct (set_iter rank xs)"
  by (simp add: set_iter_def)

lemma same_signature_iff:
  "fs p \<noteq> None \<and> get_file_identifier old base = calculate_file_identifier fs p \<longleftrightarrow>
     (\<exists>m z. map_of base old = Some (m, z) \<and> fs p = Some (m, z))"
  by (auto simp: get_file_identifier_def calculate_file_identifier_def split: option.splits)

lemma same_signature_code:
  "same_signature fs lp base old new \<longleftrightarrow>
     fs (path_join lp new) \<noteq> None \<and>
     get_file_identifier old base = calculate_file_identifier fs (path_join lp new)"
  by (auto simp: same_signature_def get_file_identifier_def calculate_file_identifier_def
           split: option.splits)

lemma find_renamed_files_spec:
  "find_renamed_files rank fs cur cloud base lp =
     spec_rename_pairs (\<lambda>old. old \<in> set (dict_keys cloud)) (same_signature fs lp base)
       (disappeared_locally rank cur base) (appeared_locally rank cur base)"
proof -
  have "same_signature fs lp base =
          (\<lambda>old new. fs (path_join lp new) \<noteq> None \<and>
             get_file_identifier old base = calculate_file_identifier fs (path_join lp new))"
    by (intro ext) (rule same_signature_code)
  then show ?thesis
    by (simp add: find_renamed_files_def renamed_files_loop_spec)
qed

section \<open>Building the remote snapshot\<close>

lemma build_cloud_files_step:
  assumes "build_cloud_files cl (item # rest) acc = Inr snap"
  shows "(is_file item \<and> (\<exists>p. item ''path'' = Some (PStr p) \<and>
            build_cloud_files cl rest (AList.update (cloud_key cl p) item acc) = Inr snap)) \<or>
         (\<not> is_file item \<and> build_cloud_files cl rest acc = Inr snap)"
  using assms
  by (auto simp: is_file_def split: option.splits if_splits pyval.splits)



lemma build_cloud_files_distinct:
  "build_cloud_files cl items acc = Inr snap \<Longrightarrow> distinct (dict_keys acc) \<Longrightarrow>
     distinct (dict_keys snap)"
proof (induction items arbitrary: acc)
  case Nil
  then show ?case by simp
next
  case (Cons item rest)
  from build_cloud_files_step [OF Cons.prems(1)] show ?case
  proof (elim disjE conjE exE)
    fix p assume b: "build_cloud_files cl rest (AList.update (cloud_key cl p) item acc) = Inr snap"
    have "distinct (dict_keys (AList.update (cloud_key cl p) item acc))"
      using Cons.prems(2) by (simp add: dict_keys_def distinct_update)
    from Cons.IH [OF b this] show ?thesis .
  next
    assume b: "build_cloud_files cl rest acc = Inr snap"
    from Cons.IH [OF b Cons.prems(2)] show ?thesis .
  qed
qed


lemma check_cloud_changes_same:
  assumes "distinct (dict_keys snap)"
  shows "check_cloud_changes snap snap \<longleftrightarrow> snap = []"
  using check_cloud_changes_iff [OF assms, of snap] by auto




lemma scan_before_edit:
  "scan_cloud_files_with_retry (sample_client ok) listing_before_edit 3 = Inr (Some cloud_before_edit)"
  by (simp add: scan_cloud_files_with_retry_def numeral_3_eq_3 listing_before_edit_def
        cloud_before_edit_def sample_client_def file_item_def cloud_key_def)

section \<open>Which step an event belongs to\<close>

lemma step1_tags:
  assumes "map (\<lambda>ev. (fst ev, fst (snd ev))) E1 =
       (if hr then map (\<lambda>(old, new). (FolderRename old new, R old new)) xs else [])"
  shows "\<forall>ev \<in> set E1. \<exists>old new. fst ev = FolderRename old new"
proof (cases hr)
  case True
  with assms have "map (\<lambda>ev. (fst ev, fst (snd ev))) E1 =
      map (\<lambda>(old, new). (FolderRename old new, R old new)) xs" by simp
  from map_eq_tags [OF this] show ?thesis by fastforce
next
  case False
  with assms show ?thesis by simp
qed




lemma in_step3:
  fixes E1 E2 E3 E4 :: "event list"
  assumes t1: "\<forall>ev \<in> set E1. \<exists>old new. fst ev = FolderRename old new"
      and t2: "\<forall>ev \<in> set E2. \<exists>old new. fst ev = FileRename old new"
      and t4: "\<forall>ev \<in> set E4. \<exists>x. fst ev = Deletion x"
      and m: "(Upload rel, c, ok) \<in> set (E1 @ E2 @ E3 @ E4)"
  shows "(Upload rel, c, ok) \<in> set E3"
proof (rule ccontr)
  assume "(Upload rel, c, ok) \<notin> set E3"
  with m consider "(Upload rel, c, ok) \<in> set E1" | "(Upload rel, c, ok) \<in> set E2"
    | "(Upload rel, c, ok) \<in> set E4" by auto
  then show False
  proof cases
    case 1 with t1 [rule_format, OF 1] show False by simp
  next
    case 2 with t2 [rule_format, OF 2] show False by simp
  next
    case 3 with t4 [rule_format, OF 3] show False by simp
  qed
qed

lemma in_step4:
  fixes E1 E2 E3 E4 :: "event list"
  assumes t1: "\<forall>ev \<in> set E1. \<exists>old new. fst ev = FolderRename old new"
      and t2: "\<forall>ev \<in> set E2. \<exists>old new. fst ev = FileRename old new"
      and t3: "\<forall>ev \<in> set E3. \<exists>x. fst ev = Upload x"
      and m: "(Deletion rel, c, ok) \<in> set (E1 @ E2 @ E3 @ E4)"
  shows "(Deletion rel, c, ok) \<in> set E4"
proof (rule ccontr)
  assume "(Deletion rel, c, ok) \<notin> set E4"
  with m consider "(Deletion rel, c, ok) \<in> set E1" | "(Deletion rel, c, ok) \<in> set E2"
    | "(Deletion rel, c, ok) \<in> set E3" by auto
  then show False
  proof cases
    case 1 with t1 [rule_format, OF 1] show False by simp
  next
    case 2 with t2 [rule_format, OF 2] show False by simp
  next
    case 3 with t3 [rule_format, OF 3] show False by simp
  qed
qed

lemma process_local_changes_aborted:
  "find_renamed_folders rank cur cloud base = Inl e \<Longrightarrow>
     process_local_changes rank fs strp cl cur cloud base lp s = (Inl e, s)"
  by (simp add: process_local_changes_def Let_def)

lemma upload_candidates_set:
  "set (upload_candidates rank cur processed) = {p \<in> set (dict_keys cur). p \<notin> set processed}"
  by (auto simp: upload_candidates_def)

lemma delete_candidates_set:
  "set (delete_candidates rank cur cloud processed) =
     {p \<in> set (dict_keys cloud). p \<notin> set (dict_keys cur) \<and> p \<notin> set processed}"
  by (auto simp: delete_candidates_def)

lemma new_events_same [simp]: "new_events s s = []"
  by (simp add: new_events_def)

lemma delete_request_permanent:
  "map_of (params (delete_request p)) ''permanently'' = Some (PBool True) \<and>
   map_of (params (delete_request p)) ''path'' = Some p \<and>
   http_method (delete_request p) = ''DELETE''"
  by (simp add: delete_request_def)

section \<open>The uploads of step 3\<close>

lemma step3_uploads:
  assumes run: "process_local_changes rank fs strptime cl current_local current_cloud last_local local_path s = (r, s')"
  shows "(\<forall>rel c ok. (Upload rel, c, ok) \<in> set (new_events s s') \<longrightarrow>
            rel \<in> set (dict_keys current_local) \<and>
            rel \<notin> set (processed_files
                          (find_renamed_files rank fs current_local current_cloud last_local local_path)) \<and>
            c = Load (path_join local_path rel) rel \<and>
            upload_due strptime current_local current_cloud last_local rel) \<and>
         (r = Inr () \<longrightarrow>
            (\<forall>rel. rel \<in> set (dict_keys current_local) \<and>
                   rel \<notin> set (processed_files
                          (find_renamed_files rank fs current_local current_cloud last_local local_path)) \<and>
                   upload_due strptime current_local current_cloud last_local rel \<longrightarrow>
               (Upload rel, Load (path_join local_path rel) rel, True) \<in> set (new_events s s')))"
proof (cases "find_renamed_folders rank current_local current_cloud last_local")
  case (Inl e)
  from process_local_changes_aborted [OF Inl] run have "r = Inl e" "s' = s" by simp_all
  then show ?thesis by simp
next
  case (Inr folder_renames)
  let ?pairs = "find_renamed_files rank fs current_local current_cloud last_local local_path"
  let ?ucands = "upload_candidates rank current_local (processed_files ?pairs)"
  let ?due3 = "\<lambda>x. upload_due strptime current_local current_cloud last_local x \<and>
                  \<not> unreadable_entry current_local current_cloud x"
  show ?thesis
  proof (rule process_local_changes_run [OF run Inr])
    fix E1 E2 E3 E4 :: "event list"
    assume ev: "events s' = events s @ E1 @ E2 @ E3 @ E4"
    assume 1: "map (\<lambda>ev. (fst ev, fst (snd ev))) E1 =
       (if has_rename cl
        then map (\<lambda>(old, new). (FolderRename old new, Rename (cloud_path cl old) (cloud_path cl new)))
               (sort_by_depth folder_renames)
        else [])"
    assume 2: "\<forall>ev \<in> set E2. \<exists>(old, new) \<in> set ?pairs. fst ev = FileRename old new"
    assume 3: "\<forall>e \<in> set E3. \<exists>x \<in> set ?ucands. \<exists>ok. ?due3 x \<and>
                e = (Upload x, Load (path_join local_path x) x, ok)"
    assume 4: "\<forall>e \<in> set E4. \<exists>x \<in> set (delete_candidates rank current_local current_cloud (processed_files ?pairs)).
           \<exists>ok. remote_path current_cloud x \<noteq> None \<and>
                e = (Deletion x, Delete (case remote_path current_cloud x of Some p \<Rightarrow> p | None \<Rightarrow> PNone), ok)"
    assume fin: "r = Inr () \<longrightarrow>
        E3 = map (\<lambda>x. (Upload x, Load (path_join local_path x) x, True)) (filter ?due3 ?ucands) \<and>
        E4 = map (\<lambda>x. (Deletion x, Delete (case remote_path current_cloud x of Some p \<Rightarrow> p | None \<Rightarrow> PNone), True))
               (filter (\<lambda>x. remote_path current_cloud x \<noteq> None)
                  (delete_candidates rank current_local current_cloud (processed_files ?pairs))) \<and>
        (\<forall>x \<in> set ?ucands. \<not> unreadable_entry current_local current_cloud x) \<and>
        (\<forall>x \<in> set (delete_candidates rank current_local current_cloud (processed_files ?pairs)).
            remote_path current_cloud x \<noteq> None)"
    have ne: "new_events s s' = E1 @ E2 @ E3 @ E4" by (simp add: new_events_def ev)
    have t1: "\<forall>ev \<in> set E1. \<exists>old new. fst ev = FolderRename old new"
      by (rule step1_tags [OF 1])
    have t2: "\<forall>ev \<in> set E2. \<exists>old new. fst ev = FileRename old new"
    proof
      fix ev assume "ev \<in> set E2"
      with 2 obtain pr where "pr \<in> set ?pairs" "case pr of (old, new) \<Rightarrow> fst ev = FileRename old new"
        by blast
      then show "\<exists>old new. fst ev = FileRename old new" by (cases pr) auto
    qed
    have t4: "\<forall>ev \<in> set E4. \<exists>x. fst ev = Deletion x"
    proof
      fix ev assume "ev \<in> set E4"
      with 4 obtain x ok where
        "ev = (Deletion x, Delete (case remote_path current_cloud x of Some p \<Rightarrow> p | None \<Rightarrow> PNone), ok)"
        by blast
      then show "\<exists>x. fst ev = Deletion x" by simp
    qed
    have only: "\<forall>rel c ok. (Upload rel, c, ok) \<in> set (new_events s s') \<longrightarrow>
            rel \<in> set (dict_keys current_local) \<and> rel \<notin> set (processed_files ?pairs) \<and>
            c = Load (path_join local_path rel) rel \<and>
            upload_due strptime current_local current_cloud last_local rel"
    proof (intro allI impI)
      fix rel c ok assume "(Upload rel, c, ok) \<in> set (new_events s s')"
      then have m: "(Upload rel, c, ok) \<in> set E3"
        unfolding ne by (rule in_step3 [OF t1 t2 t4])
      with 3 obtain x ok' where x: "x \<in> set ?ucands" "?due3 x"
        "(Upload rel, c, ok) = (Upload x, Load (path_join local_path x) x, ok')" by blast
      then have "rel = x" "c = Load (path_join local_path rel) rel" by simp_all
      with x(1,2) show "rel \<in> set (dict_keys current_local) \<and> rel \<notin> set (processed_files ?pairs) \<and>
            c = Load (path_join local_path rel) rel \<and>
            upload_due strptime current_local current_cloud last_local rel"
        by (simp add: upload_candidates_set)
    qed
    have all: "r = Inr () \<longrightarrow>
            (\<forall>rel. rel \<in> set (dict_keys current_local) \<and> rel \<notin> set (processed_files ?pairs) \<and>
                   upload_due strptime current_local current_cloud last_local rel \<longrightarrow>
               (Upload rel, Load (path_join local_path rel) rel, True) \<in> set (new_events s s'))"
    proof (intro allI impI)
      fix rel
      assume ok: "r = Inr ()"
      assume h: "rel \<in> set (dict_keys current_local) \<and> rel \<notin> set (processed_files ?pairs) \<and>
                   upload_due strptime current_local current_cloud last_local rel"
      then have c: "rel \<in> set ?ucands" by (simp add: upload_candidates_set)
      from fin ok have e3: "E3 = map (\<lambda>x. (Upload x, Load (path_join local_path x) x, True)) (filter ?due3 ?ucands)"
        and rd: "\<forall>x \<in> set ?ucands. \<not> unreadable_entry current_local current_cloud x" by simp_all
      from rd c h have "?due3 rel" by simp
      with c have "rel \<in> set (filter ?due3 ?ucands)" by simp
      then have "(Upload rel, Load (path_join local_path rel) rel, True) \<in> set E3"
        unfolding e3 by (simp add: image_iff del: set_filter) 
      then show "(Upload rel, Load (path_join local_path rel) rel, True) \<in> set (new_events s s')"
        unfolding ne by simp
    qed
    show ?thesis by (intro conjI) (rule only, rule all)
  qed
qed

lemma parse_cloud_time_fallback:
  "(\<forall>t. v = PStr t \<longrightarrow> strptime (take 19 t) = None) \<Longrightarrow> parse_cloud_time strptime v = 0"
  by (cases v) (simp_all add: parse_cloud_time_def)

lemma upload_item_unparsed:
  assumes l: "map_of cur rel = Some (mtime, fsize)"
      and c: "map_of cloud rel = Some item"
      and m: "item ''modified'' = Some v"
      and z: "parse_cloud_time strp v = 0"
      and pos: "0 < mtime"
  shows "upload_item strp cl cur cloud base lp rel s0 =
           client_call cl (Upload rel) (Load (path_join lp rel) rel) s0"
    and "upload_due strp cur cloud base rel"
proof -
  from c have k: "rel \<in> set (dict_keys cloud)"
    by (auto simp: dict_keys_def dest: map_of_SomeD intro: rev_image_eqI)
  show "upload_item strp cl cur cloud base lp rel s0 =
           client_call cl (Upload rel) (Load (path_join lp rel) rel) s0"
    using k l c m z pos by (simp add: upload_item_def Let_def)
  show "upload_due strp cur cloud base rel"
    using l c m z pos by (simp add: upload_due_def newer_than_remote_def)
qed

section \<open>A tick that observes its own baseline\<close>

lemma check_local_changes_same:
  assumes "distinct (dict_keys cur)"
  shows "check_local_changes cur cur \<longleftrightarrow> cur = []"
  using check_local_changes_iff [OF assms, of cur] by auto

lemma scan_attempts_distinct:
  "scan_attempts cl gri mr attempt n = Inr (Some cc) \<Longrightarrow> distinct (dict_keys cc)"
proof (induction n arbitrary: attempt)
  case 0
  then show ?case by simp
next
  case (Suc n)
  show ?case
  proof (cases "case gri attempt of Inl e \<Rightarrow> Inl e | Inr items \<Rightarrow> build_cloud_files cl items []")
    case (Inr snap)
    with Suc.prems have eq: "cc = snap" by simp
    from Inr obtain items where "build_cloud_files cl items [] = Inr snap"
      by (cases "gri attempt") auto
    from build_cloud_files_distinct [OF this] eq show ?thesis by (simp add: dict_keys_def)
  next
    case (Inl e)
    with Suc.prems have "scan_attempts cl gri mr (attempt + 1) n = Inr (Some cc)"
      by (simp split: if_splits)
    from Suc.IH [OF this] show ?thesis .
  qed
qed

lemma scan_distinct:
  "scan_cloud_files_with_retry cl gri n = Inr (Some cc) \<Longrightarrow> distinct (dict_keys cc)"
  unfolding scan_cloud_files_with_retry_def by (rule scan_attempts_distinct)

lemma process_local_changes_nothing:
  "process_local_changes rank fs strp cl [] [] [] lp s = (Inr (), s)"
  by (simp add: process_local_changes_def find_renamed_files_def find_renamed_folders_def
        disappeared_locally_def appeared_locally_def all_folders_def dict_keys_def set_iter_def
        rename_folders_step_def rename_files_step_def processed_files_def
        upload_candidates_def delete_candidates_def Let_def)

lemma sync_synced:
  assumes "sync rank fs strp cl lp cur gri st s = (Inr Synced, st1, s1)"
  shows "\<exists>cc. scan_cloud_files_with_retry cl gri 3 = Inr (Some cc) \<and>
              st1 = \<lparr>last_local_state = cur, last_cloud_state = cc\<rparr>"
  using assms
  by (auto simp: sync_def Let_def split: sum.splits option.splits if_splits prod.splits)

lemma scan_only_a:
  "scan_cloud_files_with_retry (sample_client ok) listing_only_a 3 = Inr (Some cloud_only_a)"
  by (simp add: scan_cloud_files_with_retry_def numeral_3_eq_3 listing_only_a_def
        cloud_only_a_def sample_client_def file_item_def cloud_key_def)

section \<open>A failed upload or delete ends the run\<close>

lemma new_events_append: "events s' = events s @ E \<Longrightarrow> new_events s s' = E"
  by (simp add: new_events_def)

lemma set_butlast_append:
  "set (butlast (xs @ ys)) \<subseteq> set xs \<union> set (butlast ys)"
  by (auto simp: butlast_append dest: in_set_butlastD)

lemma for_loop_stops:
  assumes body: "\<And>x s r s'. body x s = (r, s') \<Longrightarrow>
            errors_logged s' = errors_logged s \<and> (bad x \<longrightarrow> r \<noteq> Inr ()) \<and>
            ((events s' = events s \<and> (r = Inr () \<longrightarrow> \<not> due x) \<and> (\<forall>e. r = Inl e \<longrightarrow> (\<exists>k. e = KeyError k))) \<or>
             (events s' = events s @ [(tag x, act x, r = Inr ())] \<and> due x \<and>
              (r = Inr () \<or> r = Inl CloudStorageError)))"
    and run: "for_loop body xs s = (r, s')"
  shows "\<exists>E. events s' = events s @ E \<and> (\<forall>e \<in> set (butlast E). snd (snd e))"
  using run
proof (induction xs arbitrary: s)
  case Nil
  then show ?case by auto
next
  case (Cons x xs)
  obtain r1 s1 where b: "body x s = (r1, s1)" by (cases "body x s")
  note sp = body [OF b]
  show ?case
  proof (cases r1)
    case (Inl e)
    with Cons.prems b have fin: "s' = s1" by simp
    from sp Inl consider "events s1 = events s" | "events s1 = events s @ [(tag x, act x, False)]"
      by auto
    then show ?thesis
    proof cases
      case 1
      with fin show ?thesis by (intro exI [of _ "[]"]) simp
    next
      case 2
      with fin show ?thesis by (intro exI [of _ "[(tag x, act x, False)]"]) simp
    qed
  next
    case (Inr u)
    with Cons.prems b have rest: "for_loop body xs s1 = (r, s')" by simp
    define e1 where "e1 = (if due x then [(tag x, act x, True)] else [])"
    have ev1: "events s1 = events s @ e1"
      using sp Inr by (auto simp: e1_def)
    from Cons.IH [OF rest] obtain E where
      E: "events s' = events s1 @ E" "\<forall>e \<in> set (butlast E). snd (snd e)" by blast
    have 1: "events s' = events s @ (e1 @ E)" using E(1) ev1 by simp
    have "\<forall>e \<in> set e1. snd (snd e)" by (simp add: e1_def)
    with E(2) set_butlast_append [of e1 E]
    have 2: "\<forall>e \<in> set (butlast (e1 @ E)). snd (snd e)" by blast
    from 1 2 show ?thesis by blast
  qed
qed

lemma upload_loop_stops:
  assumes "for_loop (upload_item strp cl cur cloud base lp) xs s = (r, s')"
  shows "\<exists>E. events s' = events s @ E \<and> (\<forall>e \<in> set (butlast E). snd (snd e))"
  by (rule for_loop_stops [where body = "upload_item strp cl cur cloud base lp"
        and bad = "unreadable_entry cur cloud"
        and due = "\<lambda>x. upload_due strp cur cloud base x \<and> \<not> unreadable_entry cur cloud x"
        and tag = Upload and act = "\<lambda>x. Load (path_join lp x) x", OF upload_item_run assms])

lemma delete_loop_stops:
  assumes "for_loop (delete_item cl cloud) xs s = (r, s')"
  shows "\<exists>E. events s' = events s @ E \<and> (\<forall>e \<in> set (butlast E). snd (snd e))"
  by (rule for_loop_stops [where body = "delete_item cl cloud"
        and bad = "\<lambda>x. remote_path cloud x = None"
        and due = "\<lambda>x. remote_path cloud x \<noteq> None"
        and tag = Deletion
        and act = "\<lambda>x. Delete (case remote_path cloud x of Some p \<Rightarrow> p | None \<Rightarrow> PNone)",
        OF delete_item_run assms])

lemma process_local_changes_stops:
  assumes run: "process_local_changes rank fs strp cl cur cloud base lp s = (r, s')"
      and fr: "find_renamed_folders rank cur cloud base = Inr frs"
  obtains E12 E34 where
    "new_events s s' = E12 @ E34"
    "\<forall>ev \<in> set E12. \<exists>old new. fst ev = FolderRename old new \<or> fst ev = FileRename old new"
    "\<forall>ev \<in> set E34. \<exists>rel. fst ev = Upload rel \<or> fst ev = Deletion rel"
    "\<forall>ev \<in> set (butlast E34). snd (snd ev)"
    "(\<exists>ev \<in> set E34. \<not> snd (snd ev)) \<longrightarrow> r = Inl CloudStorageError"
proof -
  let ?pairs = "find_renamed_files rank fs cur cloud base lp"
  let ?ucands = "upload_candidates rank cur (processed_files ?pairs)"
  let ?dcands = "delete_candidates rank cur cloud (processed_files ?pairs)"
  define s1 where "s1 = rename_folders_step cl frs s"
  define s2 where "s2 = rename_files_step cl lp cloud ?pairs s1"
  obtain E1 L1 where 1: "events s1 = events s @ E1"
    "map (\<lambda>ev. (fst ev, fst (snd ev))) E1 =
       (if has_rename cl
        then map (\<lambda>(old, new). (FolderRename old new, Rename (cloud_path cl old) (cloud_path cl new)))
               (sort_by_depth frs)
        else [])"
    unfolding s1_def by (rule rename_folders_step_run [of cl frs s])
  obtain E2 L2 where 2: "events s2 = events s1 @ E2"
    "\<forall>ev \<in> set E2. \<exists>(old, new) \<in> set ?pairs. fst ev = FileRename old new"
    unfolding s2_def by (rule rename_files_step_run [of cl lp cloud ?pairs s1])
  have t1: "\<forall>ev \<in> set E1. \<exists>old new. fst ev = FolderRename old new"
    by (rule step1_tags [OF 1(2)])
  have t2: "\<forall>ev \<in> set E2. \<exists>old new. fst ev = FileRename old new"
  proof
    fix ev assume "ev \<in> set E2"
    with 2(2) obtain pr where "pr \<in> set ?pairs" "case pr of (old, new) \<Rightarrow> fst ev = FileRename old new"
      by blast
    then show "\<exists>old new. fst ev = FileRename old new" by (cases pr) auto
  qed
  have t12: "\<forall>ev \<in> set (E1 @ E2). \<exists>old new. fst ev = FolderRename old new \<or> fst ev = FileRename old new"
    using t1 t2 by auto
  obtain r3 s3 where u: "for_loop (upload_item strp cl cur cloud base lp) ?ucands s2 = (r3, s3)"
    by (cases "for_loop (upload_item strp cl cur cloud base lp) ?ucands s2")
  from upload_loop_run [OF u] obtain E3 where 3: "events s3 = events s2 @ E3"
    "\<forall>e \<in> set E3. \<exists>x \<in> set ?ucands. \<exists>ok.
        (upload_due strp cur cloud base x \<and> \<not> unreadable_entry cur cloud x) \<and>
        e = (Upload x, Load (path_join lp x) x, ok)"
    "(\<exists>e \<in> set E3. \<not> snd (snd e)) \<longrightarrow> r3 = Inl CloudStorageError"
    by blast
  from upload_loop_stops [OF u]
  obtain E3' where "events s3 = events s2 @ E3'" "\<forall>e \<in> set (butlast E3'). snd (snd e)" by blast
  with 3(1) have b3: "\<forall>e \<in> set (butlast E3). snd (snd e)" by simp
  have t3: "\<forall>ev \<in> set E3. \<exists>rel. fst ev = Upload rel \<or> fst ev = Deletion rel"
  proof
    fix ev assume "ev \<in> set E3"
    with 3(2) obtain x ok where "ev = (Upload x, Load (path_join lp x) x, ok)" by blast
    then show "\<exists>rel. fst ev = Upload rel \<or> fst ev = Deletion rel" by simp
  qed
  show thesis
  proof (cases r3)
    case (Inl e)
    then have fin: "s' = s3 \<and> r = r3"
      using run fr u by (simp add: process_local_changes_def Let_def s1_def s2_def)
    with 1(1) 2(1) 3(1) have "events s' = events s @ (E1 @ E2) @ E3" by simp
    then have ne: "new_events s s' = (E1 @ E2) @ E3" by (rule new_events_append)
    from 3(3) fin have "(\<exists>ev \<in> set E3. \<not> snd (snd ev)) \<longrightarrow> r = Inl CloudStorageError" by simp
    from that [OF ne t12 t3 b3 this] show thesis .
  next
    case (Inr u3)
    then have d: "for_loop (delete_item cl cloud) ?dcands s3 = (r, s')"
      using run fr u by (simp add: process_local_changes_def Let_def s1_def s2_def)
    from delete_loop_run [OF d] obtain E4 where 4: "events s' = events s3 @ E4"
      "\<forall>e \<in> set E4. \<exists>x \<in> set ?dcands. \<exists>ok. remote_path cloud x \<noteq> None \<and>
          e = (Deletion x, Delete (case remote_path cloud x of Some p \<Rightarrow> p | None \<Rightarrow> PNone), ok)"
      "(\<exists>e \<in> set E4. \<not> snd (snd e)) \<longrightarrow> r = Inl CloudStorageError"
      by blast
    from delete_loop_stops [OF d]
    obtain E4' where "events s' = events s3 @ E4'" "\<forall>e \<in> set (butlast E4'). snd (snd e)" by blast
    with 4(1) have b4: "\<forall>e \<in> set (butlast E4). snd (snd e)" by simp
    have ok3: "\<forall>e \<in> set E3. snd (snd e)" using 3(3) Inr by auto
    have t4: "\<forall>ev \<in> set E4. \<exists>rel. fst ev = Upload rel \<or> fst ev = Deletion rel"
    proof
      fix ev assume "ev \<in> set E4"
      with 4(2) obtain x ok where
        "ev = (Deletion x, Delete (case remote_path cloud x of Some p \<Rightarrow> p | None \<Rightarrow> PNone), ok)"
        by blast
      then show "\<exists>rel. fst ev = Upload rel \<or> fst ev = Deletion rel" by simp
    qed
    from t3 t4 have t34: "\<forall>ev \<in> set (E3 @ E4). \<exists>rel. fst ev = Upload rel \<or> fst ev = Deletion rel"
      by auto
    from ok3 b4 set_butlast_append [of E3 E4]
    have b34: "\<forall>ev \<in> set (butlast (E3 @ E4)). snd (snd ev)" by blast
    from 1(1) 2(1) 3(1) 4(1) have "events s' = events s @ (E1 @ E2) @ (E3 @ E4)" by simp
    then have ne: "new_events s s' = (E1 @ E2) @ (E3 @ E4)" by (rule new_events_append)
    from ok3 4(3) have "(\<exists>ev \<in> set (E3 @ E4). \<not> snd (snd ev)) \<longrightarrow> r = Inl CloudStorageError"
      by auto
    from that [OF ne t12 t34 b34 this] show thesis .
  qed
qed

lemma failed_item_ends_run:
  assumes run: "process_local_changes rank fs strp cl cur cloud base lp s = (r, s')"
      and ev: "(it, c, False) \<in> set (new_events s s')"
      and it: "\<exists>rel. it = Upload rel \<or> it = Deletion rel"
  shows "r = Inl CloudStorageError \<and>
         (\<exists>before. new_events s s' = before @ [(it, c, False)] \<and>
            (\<forall>ev \<in> set before. snd (snd ev) \<or>
               (\<exists>old new. fst ev = FolderRename old new \<or> fst ev = FileRename old new)))"
proof (cases "find_renamed_folders rank cur cloud base")
  case (Inl e)
  from process_local_changes_aborted [OF Inl] run have "s' = s" by simp
  with ev show ?thesis by simp
next
  case (Inr frs)
  show ?thesis
  proof (rule process_local_changes_stops [OF run Inr])
    fix E12 E34 :: "event list"
    assume ne: "new_events s s' = E12 @ E34"
    assume t12: "\<forall>ev \<in> set E12. \<exists>old new. fst ev = FolderRename old new \<or> fst ev = FileRename old new"
    assume b: "\<forall>ev \<in> set (butlast E34). snd (snd ev)"
    assume esc: "(\<exists>ev \<in> set E34. \<not> snd (snd ev)) \<longrightarrow> r = Inl CloudStorageError"
    from ev have "(it, c, False) \<in> set E12 \<or> (it, c, False) \<in> set E34" unfolding ne by simp
    moreover have "(it, c, False) \<notin> set E12"
    proof
      assume "(it, c, False) \<in> set E12"
      with t12 have "\<exists>old new. fst (it, c, False) = FolderRename old new \<or>
                       fst (it, c, False) = FileRename old new" by (rule bspec)
      with it show False by auto
    qed
    ultimately have m: "(it, c, False) \<in> set E34" by simp
    then have n: "E34 \<noteq> []" by auto
    from m have "\<exists>ev \<in> set E34. \<not> snd (snd ev)" by (intro bexI [of _ "(it, c, False)"]) simp_all
    with esc have r: "r = Inl CloudStorageError" by simp
    have nb: "(it, c, False) \<notin> set (butlast E34)"
    proof
      assume "(it, c, False) \<in> set (butlast E34)"
      with b have "snd (snd (it, c, False))" by (rule bspec)
      then show False by simp
    qed
    from n have sp: "butlast E34 @ [last E34] = E34" by (rule append_butlast_last_id)
    have "set (butlast E34 @ [last E34]) = set (butlast E34) \<union> {last E34}" by simp
    then have "set E34 = set (butlast E34) \<union> {last E34}" unfolding sp .
    with m nb have l: "last E34 = (it, c, False)" by simp
    from sp have "E34 = butlast E34 @ [(it, c, False)]" unfolding l by (rule sym)
    then have eq: "new_events s s' = (E12 @ butlast E34) @ [(it, c, False)]" unfolding ne by simp
    have pre: "\<forall>ev \<in> set (E12 @ butlast E34). snd (snd ev) \<or>
               (\<exists>old new. fst ev = FolderRename old new \<or> fst ev = FileRename old new)"
    proof
      fix ev assume "ev \<in> set (E12 @ butlast E34)"
      then have "ev \<in> set E12 \<or> ev \<in> set (butlast E34)" by simp
      then show "snd (snd ev) \<or>
               (\<exists>old new. fst ev = FolderRename old new \<or> fst ev = FileRename old new)"
      proof
        assume "ev \<in> set E12"
        with t12 show ?thesis by simp
      next
        assume "ev \<in> set (butlast E34)"
        with b show ?thesis by simp
      qed
    qed
    from eq pre have "\<exists>before. new_events s s' = before @ [(it, c, False)] \<and>
            (\<forall>ev \<in> set before. snd (snd ev) \<or>
               (\<exists>old new. fst ev = FolderRename old new \<or> fst ev = FileRename old new))"
      by (intro exI [of _ "E12 @ butlast E34"] conjI)
    with r show ?thesis by simp
  qed
qed

lemma sync_after_reconciliation:
  assumes run: "process_local_changes rank fs strptime cl current_local current_cloud
                  (last_local_state st) local_path s = (r, s')"
      and scan: "scan_cloud_files_with_retry cl get_recursive_info 3 = Inr (Some current_cloud)"
      and lc: "check_local_changes current_local (last_local_state st)"
  shows "sync rank fs strptime cl local_path current_local get_recursive_info st s =
           (case r of
              Inl e \<Rightarrow> (Inl SyncError, st, log_error SyncFailure s')
            | Inr u \<Rightarrow> (Inr Synced,
                        \<lparr>last_local_state = current_local, last_cloud_state = current_cloud\<rparr>, s'))"
  using assms by (cases r) (simp_all add: sync_def Let_def)

section \<open>The value stored under a key of the remote snapshot\<close>


section \<open>The claims\<close>

subsection \<open>C2: the change signals\<close>

text \<open>
  C2, as amended. For snapshots with unique keys: the local signal is true exactly when the
  local baseline is empty, or the key sets of the current snapshot and the baseline differ,
  or some path in both has another size or a strictly later modification time now. The
  cloud signal is true exactly when the cloud baseline is empty, or the key sets differ,
  or some path in both has another value under \<^verbatim>\<open>'modified'\<close> (earlier or later; the size
  is not looked at). Once the remote scan has returned, the tick goes past its early
  return exactly when one of the two signals is true.
\<close>

theorem change_signals:
  assumes "distinct (dict_keys current_local)" and "distinct (dict_keys current_cloud)"
  shows "(check_local_changes current_local (last_local_state st) \<longleftrightarrow>
            last_local_state st = [] \<or>
            set (dict_keys current_local) \<noteq> set (dict_keys (last_local_state st)) \<or>
            (\<exists>p m z lm lz. map_of current_local p = Some (m, z) \<and>
                map_of (last_local_state st) p = Some (lm, lz) \<and> (z \<noteq> lz \<or> m > lm))) \<and>
         (check_cloud_changes current_cloud (last_cloud_state st) \<longleftrightarrow>
            last_cloud_state st = [] \<or>
            set (dict_keys current_cloud) \<noteq> set (dict_keys (last_cloud_state st)) \<or>
            (\<exists>p i j. map_of current_cloud p = Some i \<and> map_of (last_cloud_state st) p = Some j \<and>
                dict_get i ''modified'' \<noteq> dict_get j ''modified'')) \<and>
         (scan_cloud_files_with_retry cl get_recursive_info 3 = Inr (Some current_cloud) \<longrightarrow>
            (fst (sync rank fs strptime cl local_path current_local get_recursive_info st s) \<noteq> Inr NoChanges
             \<longleftrightarrow> check_local_changes current_local (last_local_state st) \<or>
                  check_cloud_changes current_cloud (last_cloud_state st)))"
  using check_local_changes_iff [OF assms(1), of "last_local_state st"]
        check_cloud_changes_iff [OF assms(2), of "last_cloud_state st"]
        sync_proceeds [of cl get_recursive_info current_cloud rank fs strptime local_path current_local st s]
  by blast

theorem change_signals_witness:
  "distinct (dict_keys [(''docs/a.txt'', (2 :: real, 200 :: int))]) \<and>
   distinct (dict_keys [(''docs/a.txt'', file_item ''disk:/Backup/docs/a.txt'' 200 ''2023-04-27T19:41:25+00:00'')]) \<and>
   scan_cloud_files_with_retry (sample_client (\<lambda>c. True))
     (\<lambda>k. Inr [dir_item ''disk:/Backup/docs'',
                 file_item ''disk:/Backup/docs/a.txt'' 200 ''2023-04-27T19:41:25+00:00'']) 3
     = Inr (Some [(''docs/a.txt'', file_item ''disk:/Backup/docs/a.txt'' 200 ''2023-04-27T19:41:25+00:00'')]) \<and>
   check_local_changes [(''docs/a.txt'', (2, 200))] [(''docs/a.txt'', (1, 200))] \<and>
   \<not> check_cloud_changes
       [(''docs/a.txt'', file_item ''disk:/Backup/docs/a.txt'' 200 ''2023-04-27T19:41:25+00:00'')]
       [(''docs/a.txt'', file_item ''disk:/Backup/docs/a.txt'' 200 ''2023-04-27T19:41:25+00:00'')] \<and>
   fst (sync as_listed Map.empty sample_strptime (sample_client (\<lambda>c. True)) ''/home/u/sync''
          [(''docs/a.txt'', (2, 200))]
          (\<lambda>k. Inr [dir_item ''disk:/Backup/docs'',
                      file_item ''disk:/Backup/docs/a.txt'' 200 ''2023-04-27T19:41:25+00:00''])
          \<lparr>last_local_state = [(''docs/a.txt'', (1, 200))],
           last_cloud_state =
             [(''docs/a.txt'', file_item ''disk:/Backup/docs/a.txt'' 200 ''2023-04-27T19:41:25+00:00'')]\<rparr>
          empty_run) \<noteq> Inr NoChanges"
  using change_signals
    [where current_local = "[(''docs/a.txt'', (2, 200))]"
       and current_cloud = "[(''docs/a.txt'', file_item ''disk:/Backup/docs/a.txt'' 200 ''2023-04-27T19:41:25+00:00'')]"
       and st = "\<lparr>last_local_state = [(''docs/a.txt'', (1, 200))],
           last_cloud_state =
             [(''docs/a.txt'', file_item ''disk:/Backup/docs/a.txt'' 200 ''2023-04-27T19:41:25+00:00'')]\<rparr>"
       and cl = "sample_client (\<lambda>c. True)"
       and get_recursive_info = "\<lambda>k. Inr [dir_item ''disk:/Backup/docs'',
                      file_item ''disk:/Backup/docs/a.txt'' 200 ''2023-04-27T19:41:25+00:00'']"
       and rank = as_listed and fs = Map.empty and strptime = sample_strptime
       and local_path = "''/home/u/sync''" and s = empty_run]
    scan_sample [of "\<lambda>c. True"]
  by (simp add: dict_keys_def check_local_changes_def check_cloud_changes_def dict_get_def)

text \<open>
  C2 as stated fails on the cloud side: with a non-empty baseline and the same keys, a
  file whose size went from 100 to 200 under an unchanged \<^verbatim>\<open>'modified'\<close> gives no signal,
  and a file of unchanged size whose \<^verbatim>\<open>'modified'\<close> went back by a day gives one.
\<close>

theorem cloud_signal_counterexample:
  "\<not> check_cloud_changes
       [(''a.txt'', [''size'' \<mapsto> PInt 200, ''modified'' \<mapsto> PStr ''2023-04-27T19:41:25+00:00''])]
       [(''a.txt'', [''size'' \<mapsto> PInt 100, ''modified'' \<mapsto> PStr ''2023-04-27T19:41:25+00:00''])] \<and>
   dict_get [''size'' \<mapsto> PInt 200, ''modified'' \<mapsto> PStr ''2023-04-27T19:41:25+00:00''] ''size'' \<noteq>
   dict_get [''size'' \<mapsto> PInt 100, ''modified'' \<mapsto> PStr ''2023-04-27T19:41:25+00:00''] ''size'' \<and>
   check_cloud_changes
       [(''a.txt'', [''size'' \<mapsto> PInt 100, ''modified'' \<mapsto> PStr ''2023-04-26T08:00:00+00:00''])]
       [(''a.txt'', [''size'' \<mapsto> PInt 100, ''modified'' \<mapsto> PStr ''2023-04-27T19:41:25+00:00''])]"
  by (simp add: check_cloud_changes_def dict_keys_def dict_get_def)

subsection \<open>C6: folder renames, deepest first\<close>

text \<open>
  C6. With a client that has \<^verbatim>\<open>rename\<close>, the calls made for folder renames in a run are
  one \<^verbatim>\<open>rename\<close> per detected pair, from and to the paths under the cloud folder, in the
  order of the detected list sorted by the number of \<^verbatim>\<open>/\<close> in the old folder, largest
  first: the sorted list has the same pairs, the depth never increases along it, and a
  pair whose old folder lies inside the old folder of another pair comes before that pair.
\<close>

theorem folder_renames_deepest_first:
  assumes run: "process_local_changes rank fs strptime cl current_local current_cloud last_local local_path s = (r, s')"
      and fr: "find_renamed_folders rank current_local current_cloud last_local = Inr folder_renames"
      and hr: "has_rename cl"
  shows "map (\<lambda>ev. (fst ev, fst (snd ev))) [ev \<leftarrow> new_events s s'. is_folder_rename (fst ev)] =
           map (\<lambda>(old, new). (FolderRename old new, Rename (cloud_path cl old) (cloud_path cl new)))
             (sort_by_depth folder_renames) \<and>
         mset (sort_by_depth folder_renames) = mset folder_renames \<and>
         sorted_wrt (\<lambda>a b. depth (fst a) \<ge> depth (fst b)) (sort_by_depth folder_renames) \<and>
         (\<forall>i j parent sub p c.
            i < length folder_renames \<and> j < length folder_renames \<and>
            sort_by_depth folder_renames ! i = (parent @ ''/'' @ sub, c) \<and>
            sort_by_depth folder_renames ! j = (parent, p) \<longrightarrow> i < j)"
proof (rule process_local_changes_run [OF run fr])
  fix E1 E2 E3 E4 :: "event list"
  assume ev: "events s' = events s @ E1 @ E2 @ E3 @ E4"
  assume 1: "map (\<lambda>ev. (fst ev, fst (snd ev))) E1 =
       (if has_rename cl
        then map (\<lambda>(old, new). (FolderRename old new, Rename (cloud_path cl old) (cloud_path cl new)))
               (sort_by_depth folder_renames)
        else [])"
  assume 2: "\<forall>ev \<in> set E2. \<exists>(old, new) \<in> set (find_renamed_files rank fs current_local current_cloud last_local local_path).
           fst ev = FileRename old new"
  assume 3: "\<forall>e \<in> set E3. \<exists>x \<in> set (upload_candidates rank current_local
             (processed_files (find_renamed_files rank fs current_local current_cloud last_local local_path))).
           \<exists>ok. (upload_due strptime current_local current_cloud last_local x \<and>
                 \<not> unreadable_entry current_local current_cloud x) \<and>
                e = (Upload x, Load (path_join local_path x) x, ok)"
  assume 4: "\<forall>e \<in> set E4. \<exists>x \<in> set (delete_candidates rank current_local current_cloud
             (processed_files (find_renamed_files rank fs current_local current_cloud last_local local_path))).
           \<exists>ok. remote_path current_cloud x \<noteq> None \<and>
                e = (Deletion x, Delete (case remote_path current_cloud x of Some p \<Rightarrow> p | None \<Rightarrow> PNone), ok)"
  have ne: "new_events s s' = E1 @ E2 @ E3 @ E4" by (simp add: new_events_def ev)
  have "[ev \<leftarrow> new_events s s'. is_folder_rename (fst ev)] = E1"
    unfolding ne by (rule folder_events_only_step1 [OF 1 2 3 4])
  with 1 hr have a: "map (\<lambda>ev. (fst ev, fst (snd ev))) [ev \<leftarrow> new_events s s'. is_folder_rename (fst ev)] =
           map (\<lambda>(old, new). (FolderRename old new, Rename (cloud_path cl old) (cloud_path cl new)))
             (sort_by_depth folder_renames)" by simp
  have len: "length (sort_by_depth folder_renames) = length folder_renames"
    by (simp add: sort_by_depth_def)
  have d: "\<forall>i j parent sub p c.
            i < length folder_renames \<and> j < length folder_renames \<and>
            sort_by_depth folder_renames ! i = (parent @ ''/'' @ sub, c) \<and>
            sort_by_depth folder_renames ! j = (parent, p) \<longrightarrow> i < j"
    using child_before_parent [of _ folder_renames] unfolding len by blast
  show ?thesis
    by (intro conjI) (rule a, rule sort_by_depth_mset, rule sort_by_depth_sorted, rule d)
qed

theorem folder_renames_deepest_first_witness:
  "process_local_changes length new_files_on_disk sample_strptime (sample_client (\<lambda>c. True))
       new_tree old_cloud old_tree ''/home/u/sync'' empty_run =
     (Inr (),
      \<lparr>events =
         [(FolderRename ''old/sub'' ''new/sub'', Rename ''/Backup/old/sub'' ''/Backup/new/sub'', True),
          (FolderRename ''old'' ''new'', Rename ''/Backup/old'' ''/Backup/new'', True),
          (FileRename ''old/b.txt'' ''new/b.txt'', Rename ''/Backup/old/b.txt'' ''/Backup/new/b.txt'', True),
          (FileRename ''old/sub/a.txt'' ''new/sub/a.txt'',
             Rename ''/Backup/old/sub/a.txt'' ''/Backup/new/sub/a.txt'', True)],
       errors_logged = []\<rparr>) \<and>
   find_renamed_folders length new_tree old_cloud old_tree =
     Inr [(''old'', ''new''), (''old/sub'', ''new/sub'')] \<and>
   has_rename (sample_client (\<lambda>c. True)) \<and>
   sort_by_depth [(''old'', ''new''), (''old/sub'', ''new/sub'')] =
     [(''old/sub'', ''new/sub''), (''old'', ''new'')] \<and>
   sorted_wrt (\<lambda>a b. depth (fst a) \<ge> depth (fst b)) [(''old/sub'', ''new/sub''), (''old'', ''new'')]"
proof -
  have run: "process_local_changes length new_files_on_disk sample_strptime (sample_client (\<lambda>c. True))
       new_tree old_cloud old_tree ''/home/u/sync'' empty_run =
     (Inr (),
      \<lparr>events =
         [(FolderRename ''old/sub'' ''new/sub'', Rename ''/Backup/old/sub'' ''/Backup/new/sub'', True),
          (FolderRename ''old'' ''new'', Rename ''/Backup/old'' ''/Backup/new'', True),
          (FileRename ''old/b.txt'' ''new/b.txt'', Rename ''/Backup/old/b.txt'' ''/Backup/new/b.txt'', True),
          (FileRename ''old/sub/a.txt'' ''new/sub/a.txt'',
             Rename ''/Backup/old/sub/a.txt'' ''/Backup/new/sub/a.txt'', True)],
       errors_logged = []\<rparr>)"
    by code_simp
  have fr: "find_renamed_folders length new_tree old_cloud old_tree =
     Inr [(''old'', ''new''), (''old/sub'', ''new/sub'')]"
    by code_simp
  have hr: "has_rename (sample_client (\<lambda>c. True))"
    by (simp add: sample_client_def)
  have so: "sort_by_depth [(''old'', ''new''), (''old/sub'', ''new/sub'')] =
     [(''old/sub'', ''new/sub''), (''old'', ''new'')]"
    by code_simp
  from folder_renames_deepest_first [OF run fr hr] run fr hr so show ?thesis by simp
qed

subsection \<open>C4: rename detection for files\<close>

text \<open>
  C4. File rename detection is the greedy pairing of the specification: the disappeared
  paths (in the baseline, not in the current local snapshot) are taken in iteration order;
  one that is still in the current remote snapshot is paired with the first appeared path
  (in the current local snapshot, not in the baseline), among those not paired yet, whose
  freshly read signature \<open>(size, modificationTime)\<close> equals the signature of its baseline
  entry, and that appeared path leaves the candidates. Hence every pair found is a
  disappeared and an appeared path with (a) and (b); no pair with (a) and (b) is left with
  both of its paths unpaired; no path is in two pairs; and a deleted file of size 100 is
  never paired with an added file of size 100 and another modification time.
\<close>

theorem file_rename_detection:
  "find_renamed_files rank fs current_local current_cloud last_local local_path =
     spec_rename_pairs (\<lambda>old. old \<in> set (dict_keys current_cloud))
       (same_signature fs local_path last_local)
       (disappeared_locally rank current_local last_local)
       (appeared_locally rank current_local last_local) \<and>
   set (disappeared_locally rank current_local last_local) =
     set (dict_keys last_local) - set (dict_keys current_local) \<and>
   set (appeared_locally rank current_local last_local) =
     set (dict_keys current_local) - set (dict_keys last_local) \<and>
   (\<forall>old new.
      (old, new) \<in> set (find_renamed_files rank fs current_local current_cloud last_local local_path) \<longrightarrow>
      old \<in> set (dict_keys last_local) \<and> old \<notin> set (dict_keys current_local) \<and>
      new \<in> set (dict_keys current_local) \<and> new \<notin> set (dict_keys last_local) \<and>
      old \<in> set (dict_keys current_cloud) \<and> same_signature fs local_path last_local old new) \<and>
   (\<forall>old new.
      old \<in> set (dict_keys last_local) \<and> old \<notin> set (dict_keys current_local) \<and>
      new \<in> set (dict_keys current_local) \<and> new \<notin> set (dict_keys last_local) \<and>
      old \<in> set (dict_keys current_cloud) \<and> same_signature fs local_path last_local old new \<longrightarrow>
      old \<in> fst ` set (find_renamed_files rank fs current_local current_cloud last_local local_path) \<or>
      new \<in> snd ` set (find_renamed_files rank fs current_local current_cloud last_local local_path)) \<and>
   distinct (map fst (find_renamed_files rank fs current_local current_cloud last_local local_path)) \<and>
   distinct (map snd (find_renamed_files rank fs current_local current_cloud last_local local_path)) \<and>
   (\<forall>old new mtime mtime'.
      map_of last_local old = Some (mtime, 100) \<and>
      fs (path_join local_path new) = Some (mtime', 100) \<and> mtime \<noteq> mtime' \<longrightarrow>
      (old, new) \<notin> set (find_renamed_files rank fs current_local current_cloud last_local local_path))"
proof -
  let ?F = "find_renamed_files rank fs current_local current_cloud last_local local_path"
  let ?R = "\<lambda>old. old \<in> set (dict_keys current_cloud)"
  let ?S = "same_signature fs local_path last_local"
  let ?ds = "disappeared_locally rank current_local last_local"
  let ?cs = "appeared_locally rank current_local last_local"
  have spec: "?F = spec_rename_pairs ?R ?S ?ds ?cs" by (rule find_renamed_files_spec)
  have ds: "set ?ds = set (dict_keys last_local) - set (dict_keys current_local)"
    by (auto simp: disappeared_locally_def)
  have cs: "set ?cs = set (dict_keys current_local) - set (dict_keys last_local)"
    by (auto simp: appeared_locally_def)
  have sound: "\<forall>old new. (old, new) \<in> set ?F \<longrightarrow>
      old \<in> set (dict_keys last_local) \<and> old \<notin> set (dict_keys current_local) \<and>
      new \<in> set (dict_keys current_local) \<and> new \<notin> set (dict_keys last_local) \<and>
      old \<in> set (dict_keys current_cloud) \<and> ?S old new"
  proof (intro allI impI)
    fix old new assume "(old, new) \<in> set ?F"
    then have "(old, new) \<in> set (spec_rename_pairs ?R ?S ?ds ?cs)" by (simp only: spec)
    from spec_rename_pairs_sound [OF this] ds cs
    show "old \<in> set (dict_keys last_local) \<and> old \<notin> set (dict_keys current_local) \<and>
      new \<in> set (dict_keys current_local) \<and> new \<notin> set (dict_keys last_local) \<and>
      old \<in> set (dict_keys current_cloud) \<and> ?S old new" by simp
  qed
  have maximal: "\<forall>old new.
      old \<in> set (dict_keys last_local) \<and> old \<notin> set (dict_keys current_local) \<and>
      new \<in> set (dict_keys current_local) \<and> new \<notin> set (dict_keys last_local) \<and>
      old \<in> set (dict_keys current_cloud) \<and> ?S old new \<longrightarrow>
      old \<in> fst ` set ?F \<or> new \<in> snd ` set ?F"
  proof (intro allI impI)
    fix old new
    assume a: "old \<in> set (dict_keys last_local) \<and> old \<notin> set (dict_keys current_local) \<and>
      new \<in> set (dict_keys current_local) \<and> new \<notin> set (dict_keys last_local) \<and>
      old \<in> set (dict_keys current_cloud) \<and> ?S old new"
    then have "old \<in> set ?ds" "new \<in> set ?cs" "?R old" "?S old new" using ds cs by simp_all
    from spec_rename_pairs_maximal [of old ?ds new ?cs ?R ?S, OF this]
    show "old \<in> fst ` set ?F \<or> new \<in> snd ` set ?F" by (simp only: spec)
  qed
  have d1: "distinct (map fst ?F)"
    unfolding spec by (rule spec_rename_pairs_distinct_fst) (simp add: disappeared_locally_def)
  have d2: "distinct (map snd ?F)"
    unfolding spec by (rule spec_rename_pairs_distinct_snd)
  have boundary: "\<forall>old new mtime mtime'.
      map_of last_local old = Some (mtime, 100) \<and>
      fs (path_join local_path new) = Some (mtime', 100) \<and> mtime \<noteq> mtime' \<longrightarrow>
      (old, new) \<notin> set ?F"
  proof (intro allI impI notI)
    fix old new mtime mtime'
    assume a: "map_of last_local old = Some (mtime, 100) \<and>
      fs (path_join local_path new) = Some (mtime', 100) \<and> mtime \<noteq> mtime'"
    assume "(old, new) \<in> set ?F"
    with sound have "?S old new" by blast
    with a show False by (simp add: same_signature_def)
  qed
  show ?thesis
    by (intro conjI) (rule spec, rule ds, rule cs, rule sound, rule maximal, rule d1, rule d2, rule boundary)
qed

theorem file_rename_detection_witness:
  "find_renamed_files as_listed disk_after_edit after_edit cloud_before_edit before_edit ''/home/u/sync'' =
     [(''c.txt'', ''d.txt'')] \<and>
   map_of before_edit ''a.txt'' = Some (1, 100) \<and>
   disk_after_edit (path_join ''/home/u/sync'' ''b.txt'') = Some (2, 100) \<and>
   (1 :: real) \<noteq> 2 \<and>
   ''a.txt'' \<in> set (dict_keys before_edit) \<and> ''a.txt'' \<notin> set (dict_keys after_edit) \<and>
   ''b.txt'' \<in> set (dict_keys after_edit) \<and> ''b.txt'' \<notin> set (dict_keys before_edit) \<and>
   ''a.txt'' \<in> set (dict_keys cloud_before_edit) \<and>
   (''a.txt'', ''b.txt'') \<notin>
     set (find_renamed_files as_listed disk_after_edit after_edit cloud_before_edit before_edit ''/home/u/sync'') \<and>
   same_signature disk_after_edit ''/home/u/sync'' before_edit ''c.txt'' ''d.txt''"
proof -
  have run: "find_renamed_files as_listed disk_after_edit after_edit cloud_before_edit before_edit ''/home/u/sync'' =
     [(''c.txt'', ''d.txt'')]"
    by code_simp
  have a: "map_of before_edit ''a.txt'' = Some (1, 100)" by (simp add: before_edit_def)
  have b: "disk_after_edit (path_join ''/home/u/sync'' ''b.txt'') = Some (2, 100)"
    by (simp add: disk_after_edit_def path_join_def)
  have k: "''a.txt'' \<in> set (dict_keys before_edit) \<and> ''a.txt'' \<notin> set (dict_keys after_edit) \<and>
   ''b.txt'' \<in> set (dict_keys after_edit) \<and> ''b.txt'' \<notin> set (dict_keys before_edit) \<and>
   ''a.txt'' \<in> set (dict_keys cloud_before_edit)"
    by (simp add: dict_keys_def before_edit_def after_edit_def cloud_before_edit_def)
  note t = file_rename_detection [of as_listed disk_after_edit after_edit cloud_before_edit before_edit
      "''/home/u/sync''"]
  have n: "(''a.txt'', ''b.txt'') \<notin>
     set (find_renamed_files as_listed disk_after_edit after_edit cloud_before_edit before_edit ''/home/u/sync'')"
    using t [THEN conjunct2, THEN conjunct2, THEN conjunct2, THEN conjunct2, THEN conjunct2,
               THEN conjunct2, THEN conjunct2, rule_format, of "''a.txt''" 1 "''b.txt''" 2] a b
    by simp
  have "(''c.txt'', ''d.txt'') \<in>
     set (find_renamed_files as_listed disk_after_edit after_edit cloud_before_edit before_edit ''/home/u/sync'')"
    by (simp add: run)
  from t [THEN conjunct2, THEN conjunct2, THEN conjunct2, THEN conjunct1, rule_format, OF this]
  have g: "same_signature disk_after_edit ''/home/u/sync'' before_edit ''c.txt'' ''d.txt''"
    by simp
  from n g run a b k show ?thesis by simp
qed

subsection \<open>C9: the remote snapshot holds files only\<close>




subsection \<open>C3: when the baselines are replaced\<close>

text \<open>
  C3, as amended. In a tick whose remote scan returned and in which a change signal fired:
  if the reconciliation returns normally (or was not run, because only the cloud signal
  fired), the tick ends normally and both baselines are the snapshots just observed;
  nothing is asked of the calls made inside the reconciliation, so renames that failed and
  were caught there do not matter. If the reconciliation raises, the tick raises
  \<open>SyncError\<close>, logs it, and both baselines keep the value they had; and the
  reconciliation does raise whenever an upload of step 3 or a delete of step 4 fails.
\<close>

theorem baseline_replaced:
  assumes scan: "scan_cloud_files_with_retry cl get_recursive_info 3 = Inr (Some current_cloud)"
      and fired: "check_local_changes current_local (last_local_state st) \<or>
                  check_cloud_changes current_cloud (last_cloud_state st)"
  shows "((check_local_changes current_local (last_local_state st) \<longrightarrow>
             fst (process_local_changes rank fs strptime cl current_local current_cloud
                    (last_local_state st) local_path s) = Inr ()) \<longrightarrow>
          sync rank fs strptime cl local_path current_local get_recursive_info st s =
            (Inr Synced,
             \<lparr>last_local_state = current_local, last_cloud_state = current_cloud\<rparr>,
             if check_local_changes current_local (last_local_state st)
             then snd (process_local_changes rank fs strptime cl current_local current_cloud
                         (last_local_state st) local_path s)
             else s)) \<and>
         (check_local_changes current_local (last_local_state st) \<and>
          fst (process_local_changes rank fs strptime cl current_local current_cloud
                 (last_local_state st) local_path s) \<noteq> Inr () \<longrightarrow>
          sync rank fs strptime cl local_path current_local get_recursive_info st s =
            (Inl SyncError, st,
             log_error SyncFailure
               (snd (process_local_changes rank fs strptime cl current_local current_cloud
                       (last_local_state st) local_path s)))) \<and>
         (\<forall>it c. check_local_changes current_local (last_local_state st) \<and>
            (it, c, False) \<in> set (new_events s
               (snd (process_local_changes rank fs strptime cl current_local current_cloud
                       (last_local_state st) local_path s))) \<and>
            (\<exists>rel. it = Upload rel \<or> it = Deletion rel) \<longrightarrow>
            sync rank fs strptime cl local_path current_local get_recursive_info st s =
              (Inl SyncError, st,
               log_error SyncFailure
                 (snd (process_local_changes rank fs strptime cl current_local current_cloud
                         (last_local_state st) local_path s))))"
proof -
  obtain r s' where run: "process_local_changes rank fs strptime cl current_local current_cloud
                    (last_local_state st) local_path s = (r, s')"
    by (cases "process_local_changes rank fs strptime cl current_local current_cloud
                    (last_local_state st) local_path s")
  note after = sync_after_reconciliation [OF run scan]
  have 1: "(check_local_changes current_local (last_local_state st) \<longrightarrow> r = Inr ()) \<longrightarrow>
          sync rank fs strptime cl local_path current_local get_recursive_info st s =
            (Inr Synced,
             \<lparr>last_local_state = current_local, last_cloud_state = current_cloud\<rparr>,
             if check_local_changes current_local (last_local_state st) then s' else s)"
  proof (cases "check_local_changes current_local (last_local_state st)")
    case True
    with after show ?thesis by simp
  next
    case False
    with fired scan show ?thesis by (simp add: sync_def Let_def)
  qed
  have 2: "check_local_changes current_local (last_local_state st) \<and> r \<noteq> Inr () \<longrightarrow>
          sync rank fs strptime cl local_path current_local get_recursive_info st s =
            (Inl SyncError, st, log_error SyncFailure s')"
  proof
    assume a: "check_local_changes current_local (last_local_state st) \<and> r \<noteq> Inr ()"
    then obtain e where "r = Inl e" by (cases r) auto
    with after [OF conjunct1 [OF a]] show "sync rank fs strptime cl local_path current_local get_recursive_info st s =
            (Inl SyncError, st, log_error SyncFailure s')" by simp
  qed
  have 3: "\<forall>it c. check_local_changes current_local (last_local_state st) \<and>
            (it, c, False) \<in> set (new_events s s') \<and>
            (\<exists>rel. it = Upload rel \<or> it = Deletion rel) \<longrightarrow>
            sync rank fs strptime cl local_path current_local get_recursive_info st s =
              (Inl SyncError, st, log_error SyncFailure s')"
  proof (intro allI impI, elim conjE)
    fix it c
    assume lc: "check_local_changes current_local (last_local_state st)"
      and ev: "(it, c, False) \<in> set (new_events s s')"
      and it: "\<exists>rel. it = Upload rel \<or> it = Deletion rel"
    from failed_item_ends_run [OF run ev it] have "r = Inl CloudStorageError" by (rule conjunct1)
    with after [OF lc] show "sync rank fs strptime cl local_path current_local get_recursive_info st s =
              (Inl SyncError, st, log_error SyncFailure s')" by simp
  qed
  from 1 2 3 show ?thesis unfolding run by simp
qed

theorem baseline_replaced_witness:
  "scan_cloud_files_with_retry (sample_client renames_fail) listing_before_edit 3 =
     Inr (Some cloud_before_edit) \<and>
   check_local_changes after_edit before_edit \<and>
   process_local_changes as_listed disk_after_edit sample_strptime (sample_client renames_fail)
       after_edit cloud_before_edit before_edit ''/home/u/sync'' empty_run =
     (Inr (),
      \<lparr>events =
         [(FileRename ''c.txt'' ''d.txt'', Rename ''/Backup/c.txt'' ''/Backup/d.txt'', False),
          (FileRename ''c.txt'' ''d.txt'', Load ''/home/u/sync/d.txt'' ''d.txt'', False),
          (Upload ''b.txt'', Load ''/home/u/sync/b.txt'' ''b.txt'', True),
          (Deletion ''a.txt'', Delete (PStr ''disk:/Backup/a.txt''), True)],
       errors_logged = [FileRenameError ''c.txt'' ''d.txt'']\<rparr>) \<and>
   sync as_listed disk_after_edit sample_strptime (sample_client renames_fail) ''/home/u/sync''
       after_edit listing_before_edit
       \<lparr>last_local_state = before_edit, last_cloud_state = cloud_before_edit\<rparr> empty_run =
     (Inr Synced,
      \<lparr>last_local_state = after_edit, last_cloud_state = cloud_before_edit\<rparr>,
      \<lparr>events =
         [(FileRename ''c.txt'' ''d.txt'', Rename ''/Backup/c.txt'' ''/Backup/d.txt'', False),
          (FileRename ''c.txt'' ''d.txt'', Load ''/home/u/sync/d.txt'' ''d.txt'', False),
          (Upload ''b.txt'', Load ''/home/u/sync/b.txt'' ''b.txt'', True),
          (Deletion ''a.txt'', Delete (PStr ''disk:/Backup/a.txt''), True)],
       errors_logged = [FileRenameError ''c.txt'' ''d.txt'']\<rparr>) \<and>
   process_local_changes as_listed disk_after_edit sample_strptime (sample_client delete_of_a_fails)
       after_edit cloud_before_edit before_edit ''/home/u/sync'' empty_run =
     (Inl CloudStorageError,
      \<lparr>events =
         [(FileRename ''c.txt'' ''d.txt'', Rename ''/Backup/c.txt'' ''/Backup/d.txt'', True),
          (Upload ''b.txt'', Load ''/home/u/sync/b.txt'' ''b.txt'', True),
          (Deletion ''a.txt'', Delete (PStr ''disk:/Backup/a.txt''), False)],
       errors_logged = []\<rparr>) \<and>
   sync as_listed disk_after_edit sample_strptime (sample_client delete_of_a_fails) ''/home/u/sync''
       after_edit listing_before_edit
       \<lparr>last_local_state = before_edit, last_cloud_state = cloud_before_edit\<rparr> empty_run =
     (Inl SyncError,
      \<lparr>last_local_state = before_edit, last_cloud_state = cloud_before_edit\<rparr>,
      \<lparr>events =
         [(FileRename ''c.txt'' ''d.txt'', Rename ''/Backup/c.txt'' ''/Backup/d.txt'', True),
          (Upload ''b.txt'', Load ''/home/u/sync/b.txt'' ''b.txt'', True),
          (Deletion ''a.txt'', Delete (PStr ''disk:/Backup/a.txt''), False)],
       errors_logged = [SyncFailure]\<rparr>)"
proof -
  let ?st = "\<lparr>last_local_state = before_edit, last_cloud_state = cloud_before_edit\<rparr>"
  have sc: "scan_cloud_files_with_retry (sample_client renames_fail) listing_before_edit 3 =
     Inr (Some cloud_before_edit)" by (rule scan_before_edit)
  have sc2: "scan_cloud_files_with_retry (sample_client delete_of_a_fails) listing_before_edit 3 =
     Inr (Some cloud_before_edit)" by (rule scan_before_edit)
  have lc: "check_local_changes after_edit before_edit" by code_simp
  then have fired: "check_local_changes after_edit (last_local_state ?st) \<or>
                    check_cloud_changes cloud_before_edit (last_cloud_state ?st)" by simp
  have run: "process_local_changes as_listed disk_after_edit sample_strptime (sample_client renames_fail)
       after_edit cloud_before_edit before_edit ''/home/u/sync'' empty_run =
     (Inr (),
      \<lparr>events =
         [(FileRename ''c.txt'' ''d.txt'', Rename ''/Backup/c.txt'' ''/Backup/d.txt'', False),
          (FileRename ''c.txt'' ''d.txt'', Load ''/home/u/sync/d.txt'' ''d.txt'', False),
          (Upload ''b.txt'', Load ''/home/u/sync/b.txt'' ''b.txt'', True),
          (Deletion ''a.txt'', Delete (PStr ''disk:/Backup/a.txt''), True)],
       errors_logged = [FileRenameError ''c.txt'' ''d.txt'']\<rparr>)"
    by code_simp
  have run2: "process_local_changes as_listed disk_after_edit sample_strptime (sample_client delete_of_a_fails)
       after_edit cloud_before_edit before_edit ''/home/u/sync'' empty_run =
     (Inl CloudStorageError,
      \<lparr>events =
         [(FileRename ''c.txt'' ''d.txt'', Rename ''/Backup/c.txt'' ''/Backup/d.txt'', True),
          (Upload ''b.txt'', Load ''/home/u/sync/b.txt'' ''b.txt'', True),
          (Deletion ''a.txt'', Delete (PStr ''disk:/Backup/a.txt''), False)],
       errors_logged = []\<rparr>)"
    by code_simp
  from baseline_replaced [where st = ?st
      and current_local = after_edit and s = empty_run and rank = as_listed and fs = disk_after_edit
      and strptime = sample_strptime and local_path = "''/home/u/sync''", OF sc fired, THEN conjunct1] lc run
  have a: "sync as_listed disk_after_edit sample_strptime (sample_client renames_fail) ''/home/u/sync''
       after_edit listing_before_edit ?st empty_run =
     (Inr Synced,
      \<lparr>last_local_state = after_edit, last_cloud_state = cloud_before_edit\<rparr>,
      \<lparr>events =
         [(FileRename ''c.txt'' ''d.txt'', Rename ''/Backup/c.txt'' ''/Backup/d.txt'', False),
          (FileRename ''c.txt'' ''d.txt'', Load ''/home/u/sync/d.txt'' ''d.txt'', False),
          (Upload ''b.txt'', Load ''/home/u/sync/b.txt'' ''b.txt'', True),
          (Deletion ''a.txt'', Delete (PStr ''disk:/Backup/a.txt''), True)],
       errors_logged = [FileRenameError ''c.txt'' ''d.txt'']\<rparr>)"
    by simp
  from baseline_replaced [where st = ?st
      and current_local = after_edit and s = empty_run and rank = as_listed and fs = disk_after_edit
      and strptime = sample_strptime and local_path = "''/home/u/sync''", OF sc2 fired,
      THEN conjunct2, THEN conjunct1] lc run2
  have b: "sync as_listed disk_after_edit sample_strptime (sample_client delete_of_a_fails) ''/home/u/sync''
       after_edit listing_before_edit ?st empty_run =
     (Inl SyncError, ?st,
      \<lparr>events =
         [(FileRename ''c.txt'' ''d.txt'', Rename ''/Backup/c.txt'' ''/Backup/d.txt'', True),
          (Upload ''b.txt'', Load ''/home/u/sync/b.txt'' ''b.txt'', True),
          (Deletion ''a.txt'', Delete (PStr ''disk:/Backup/a.txt''), False)],
       errors_logged = [SyncFailure]\<rparr>)"
    by (simp add: log_error_def)
  from sc lc run a run2 b show ?thesis by simp
qed

text \<open>
  C3 as stated fails for a failed upload: the rename of \<^verbatim>\<open>c.txt\<close> succeeds, the upload of
  \<^verbatim>\<open>b.txt\<close> fails, the tick raises and both baselines are the old ones, although a signal
  had fired and the local snapshot differs from the local baseline.
\<close>

theorem baseline_kept_counterexample:
  "check_local_changes after_edit before_edit \<and>
   sync as_listed disk_after_edit sample_strptime (sample_client uploads_fail) ''/home/u/sync''
       after_edit listing_before_edit
       \<lparr>last_local_state = before_edit, last_cloud_state = cloud_before_edit\<rparr> empty_run =
     (Inl SyncError,
      \<lparr>last_local_state = before_edit, last_cloud_state = cloud_before_edit\<rparr>,
      \<lparr>events =
         [(FileRename ''c.txt'' ''d.txt'', Rename ''/Backup/c.txt'' ''/Backup/d.txt'', True),
          (Upload ''b.txt'', Load ''/home/u/sync/b.txt'' ''b.txt'', False)],
       errors_logged = [SyncFailure]\<rparr>) \<and>
   before_edit \<noteq> after_edit"
proof -
  let ?st = "\<lparr>last_local_state = before_edit, last_cloud_state = cloud_before_edit\<rparr>"
  have lc: "check_local_changes after_edit before_edit" by code_simp
  have ne: "before_edit \<noteq> after_edit" by code_simp
  have sc: "scan_cloud_files_with_retry (sample_client uploads_fail) listing_before_edit 3 =
     Inr (Some cloud_before_edit)" by (rule scan_before_edit)
  have run: "process_local_changes as_listed disk_after_edit sample_strptime (sample_client uploads_fail)
       after_edit cloud_before_edit (last_local_state ?st) ''/home/u/sync'' empty_run =
     (Inl CloudStorageError,
      \<lparr>events =
         [(FileRename ''c.txt'' ''d.txt'', Rename ''/Backup/c.txt'' ''/Backup/d.txt'', True),
          (Upload ''b.txt'', Load ''/home/u/sync/b.txt'' ''b.txt'', False)],
       errors_logged = []\<rparr>)"
    by code_simp
  from lc have lc': "check_local_changes after_edit (last_local_state ?st)" by simp
  from sync_after_reconciliation [OF run sc lc']
  have "sync as_listed disk_after_edit sample_strptime (sample_client uploads_fail) ''/home/u/sync''
       after_edit listing_before_edit ?st empty_run =
     (Inl SyncError, ?st,
      \<lparr>events =
         [(FileRename ''c.txt'' ''d.txt'', Rename ''/Backup/c.txt'' ''/Backup/d.txt'', True),
          (Upload ''b.txt'', Load ''/home/u/sync/b.txt'' ''b.txt'', False)],
       errors_logged = [SyncFailure]\<rparr>)"
    by (simp add: log_error_def)
  with lc ne show ?thesis by simp
qed

subsection \<open>C1: which failures stay inside the reconciliation\<close>




subsection \<open>C5: what step 3 uploads\<close>

text \<open>
  C5, as amended. In every reconciliation run, an upload is issued in step 3 only for a
  local path that the rename steps did not process and that is absent from the current
  remote snapshot, or present there with (a) an entry in the previous local baseline that
  is older or of another size than the current local entry, or (b) a parsed remote
  modification time before the current local one. In a run that returns normally, every
  such path has been uploaded; no other path is uploaded by step 3.
\<close>

theorem upload_decision:
  assumes run: "process_local_changes rank fs strptime cl current_local current_cloud last_local local_path s = (r, s')"
  shows "(\<forall>rel c ok. (Upload rel, c, ok) \<in> set (new_events s s') \<longrightarrow>
            rel \<in> set (dict_keys current_local) \<and>
            rel \<notin> set (processed_files
                          (find_renamed_files rank fs current_local current_cloud last_local local_path)) \<and>
            c = Load (path_join local_path rel) rel \<and>
            upload_due strptime current_local current_cloud last_local rel) \<and>
         (r = Inr () \<longrightarrow>
            (\<forall>rel. rel \<in> set (dict_keys current_local) \<and>
                   rel \<notin> set (processed_files
                          (find_renamed_files rank fs current_local current_cloud last_local local_path)) \<and>
                   upload_due strptime current_local current_cloud last_local rel \<longrightarrow>
               (Upload rel, Load (path_join local_path rel) rel, True) \<in> set (new_events s s')))"
  by (rule step3_uploads [OF run])

theorem upload_decision_witness:
  "process_local_changes as_listed Map.empty sample_strptime (sample_client (\<lambda>c. True))
       edited_tree edited_cloud edited_baseline ''/home/u/sync'' empty_run =
     (Inr (),
      \<lparr>events =
         [(Upload ''x.txt'', Load ''/home/u/sync/x.txt'' ''x.txt'', True),
          (Upload ''y.txt'', Load ''/home/u/sync/y.txt'' ''y.txt'', True)],
       errors_logged = []\<rparr>) \<and>
   upload_due sample_strptime edited_tree edited_cloud edited_baseline ''x.txt'' \<and>
   upload_due sample_strptime edited_tree edited_cloud edited_baseline ''y.txt'' \<and>
   \<not> upload_due sample_strptime edited_tree edited_cloud edited_baseline ''z.txt'' \<and>
   ''x.txt'' \<in> set (dict_keys edited_tree) \<and>
   ''x.txt'' \<notin> set (processed_files
        (find_renamed_files as_listed Map.empty edited_tree edited_cloud edited_baseline ''/home/u/sync''))"
proof -
  let ?s' = "\<lparr>events =
         [(Upload ''x.txt'', Load ''/home/u/sync/x.txt'' ''x.txt'', True),
          (Upload ''y.txt'', Load ''/home/u/sync/y.txt'' ''y.txt'', True)],
       errors_logged = []\<rparr>"
  have run: "process_local_changes as_listed Map.empty sample_strptime (sample_client (\<lambda>c. True))
       edited_tree edited_cloud edited_baseline ''/home/u/sync'' empty_run = (Inr (), ?s')"
    by code_simp
  have x: "(Upload ''x.txt'', Load ''/home/u/sync/x.txt'' ''x.txt'', True) \<in> set (new_events empty_run ?s')"
    and y: "(Upload ''y.txt'', Load ''/home/u/sync/y.txt'' ''y.txt'', True) \<in> set (new_events empty_run ?s')"
    by (simp_all add: new_events_def empty_run_def)
  note t = upload_decision [OF run, THEN conjunct1, rule_format]
  have z: "\<not> upload_due sample_strptime edited_tree edited_cloud edited_baseline ''z.txt''"
    by code_simp
  from t [OF x] t [OF y] z run show ?thesis by simp
qed

text \<open>
  C5 as stated fails in a run that is cut short: of two new files, both absent from the
  remote side and neither processed by a rename, the second is not uploaded once the
  upload of the first has failed.
\<close>

theorem upload_skipped_counterexample:
  "process_local_changes as_listed Map.empty sample_strptime (sample_client upload_of_a_fails)
       two_new_files [] [] ''/home/u/sync'' empty_run =
     (Inl CloudStorageError,
      \<lparr>events = [(Upload ''a.txt'', Load ''/home/u/sync/a.txt'' ''a.txt'', False)],
       errors_logged = []\<rparr>) \<and>
   ''b.txt'' \<in> set (dict_keys two_new_files) \<and>
   ''b.txt'' \<notin> set (processed_files
        (find_renamed_files as_listed Map.empty two_new_files [] [] ''/home/u/sync'')) \<and>
   ''b.txt'' \<notin> set (dict_keys ([] :: cloud_state)) \<and>
   [ev \<leftarrow> events (snd (process_local_changes as_listed Map.empty sample_strptime
                          (sample_client upload_of_a_fails) two_new_files [] [] ''/home/u/sync'' empty_run)).
      fst ev = Upload ''b.txt''] = []"
  by code_simp

subsection \<open>C7: what step 4 deletes\<close>

text \<open>
  C7, as amended. In every reconciliation run, step 4 issues a delete only for a path that
  is in the current remote snapshot, absent from the current local snapshot and not
  marked processed by the file renames; the call carries the path stored in the remote
  entry, and the request the client sends for it has \<^verbatim>\<open>permanently\<close> set. In a run that
  returns normally, a delete has been made for every such path, so the set of deleted
  paths is exactly that set.
\<close>

theorem deletions_issued:
  assumes run: "process_local_changes rank fs strptime cl current_local current_cloud last_local local_path s = (r, s')"
  shows "(\<forall>rel c ok. (Deletion rel, c, ok) \<in> set (new_events s s') \<longrightarrow>
            rel \<in> set (dict_keys current_cloud) \<and>
            rel \<notin> set (dict_keys current_local) \<and>
            rel \<notin> set (processed_files
                          (find_renamed_files rank fs current_local current_cloud last_local local_path)) \<and>
            (\<exists>p. remote_path current_cloud rel = Some p \<and> c = Delete p \<and>
                 map_of (params (delete_request p)) ''permanently'' = Some (PBool True))) \<and>
         (r = Inr () \<longrightarrow>
            (\<forall>rel. rel \<in> set (dict_keys current_cloud) \<and>
                   rel \<notin> set (dict_keys current_local) \<and>
                   rel \<notin> set (processed_files
                          (find_renamed_files rank fs current_local current_cloud last_local local_path)) \<longrightarrow>
               (\<exists>p. remote_path current_cloud rel = Some p \<and>
                    (Deletion rel, Delete p, True) \<in> set (new_events s s'))))"
proof (cases "find_renamed_folders rank current_local current_cloud last_local")
  case (Inl e)
  from process_local_changes_aborted [OF Inl] run have "r = Inl e" "s' = s" by simp_all
  then show ?thesis by simp
next
  case (Inr folder_renames)
  let ?pairs = "find_renamed_files rank fs current_local current_cloud last_local local_path"
  let ?ucands = "upload_candidates rank current_local (processed_files ?pairs)"
  let ?dcands = "delete_candidates rank current_local current_cloud (processed_files ?pairs)"
  let ?due3 = "\<lambda>x. upload_due strptime current_local current_cloud last_local x \<and>
                  \<not> unreadable_entry current_local current_cloud x"
  let ?del = "\<lambda>x. Delete (case remote_path current_cloud x of Some p \<Rightarrow> p | None \<Rightarrow> PNone)"
  show ?thesis
  proof (rule process_local_changes_run [OF run Inr])
    fix E1 E2 E3 E4 :: "event list"
    assume ev: "events s' = events s @ E1 @ E2 @ E3 @ E4"
    assume 1: "map (\<lambda>ev. (fst ev, fst (snd ev))) E1 =
       (if has_rename cl
        then map (\<lambda>(old, new). (FolderRename old new, Rename (cloud_path cl old) (cloud_path cl new)))
               (sort_by_depth folder_renames)
        else [])"
    assume 2: "\<forall>ev \<in> set E2. \<exists>(old, new) \<in> set ?pairs. fst ev = FileRename old new"
    assume 3: "\<forall>e \<in> set E3. \<exists>x \<in> set ?ucands. \<exists>ok. ?due3 x \<and>
                e = (Upload x, Load (path_join local_path x) x, ok)"
    assume 4: "\<forall>e \<in> set E4. \<exists>x \<in> set ?dcands.
           \<exists>ok. remote_path current_cloud x \<noteq> None \<and> e = (Deletion x, ?del x, ok)"
    assume fin: "r = Inr () \<longrightarrow>
        E3 = map (\<lambda>x. (Upload x, Load (path_join local_path x) x, True)) (filter ?due3 ?ucands) \<and>
        E4 = map (\<lambda>x. (Deletion x, ?del x, True))
               (filter (\<lambda>x. remote_path current_cloud x \<noteq> None) ?dcands) \<and>
        (\<forall>x \<in> set ?ucands. \<not> unreadable_entry current_local current_cloud x) \<and>
        (\<forall>x \<in> set ?dcands. remote_path current_cloud x \<noteq> None)"
    have ne: "new_events s s' = E1 @ E2 @ E3 @ E4" by (simp add: new_events_def ev)
    have t1: "\<forall>ev \<in> set E1. \<exists>old new. fst ev = FolderRename old new"
      by (rule step1_tags [OF 1])
    have t2: "\<forall>ev \<in> set E2. \<exists>old new. fst ev = FileRename old new"
    proof
      fix ev assume "ev \<in> set E2"
      with 2 obtain pr where "pr \<in> set ?pairs" "case pr of (old, new) \<Rightarrow> fst ev = FileRename old new"
        by blast
      then show "\<exists>old new. fst ev = FileRename old new" by (cases pr) auto
    qed
    have t3: "\<forall>ev \<in> set E3. \<exists>x. fst ev = Upload x"
    proof
      fix ev assume "ev \<in> set E3"
      with 3 obtain x ok where "ev = (Upload x, Load (path_join local_path x) x, ok)" by blast
      then show "\<exists>x. fst ev = Upload x" by simp
    qed
    have only: "\<forall>rel c ok. (Deletion rel, c, ok) \<in> set (new_events s s') \<longrightarrow>
            rel \<in> set (dict_keys current_cloud) \<and> rel \<notin> set (dict_keys current_local) \<and>
            rel \<notin> set (processed_files ?pairs) \<and>
            (\<exists>p. remote_path current_cloud rel = Some p \<and> c = Delete p \<and>
                 map_of (params (delete_request p)) ''permanently'' = Some (PBool True))"
    proof (intro allI impI)
      fix rel c ok assume "(Deletion rel, c, ok) \<in> set (new_events s s')"
      then have m: "(Deletion rel, c, ok) \<in> set E4"
        unfolding ne by (rule in_step4 [OF t1 t2 t3])
      with 4 obtain x ok' where x: "x \<in> set ?dcands" "remote_path current_cloud x \<noteq> None"
        "(Deletion rel, c, ok) = (Deletion x, ?del x, ok')" by blast
      then have rx: "rel = x" and c: "c = ?del rel" by simp_all
      from x(2) rx obtain p where p: "remote_path current_cloud rel = Some p" by auto
      with c have "c = Delete p" by simp
      with p x(1) rx delete_request_permanent [of p]
      show "rel \<in> set (dict_keys current_cloud) \<and> rel \<notin> set (dict_keys current_local) \<and>
            rel \<notin> set (processed_files ?pairs) \<and>
            (\<exists>p. remote_path current_cloud rel = Some p \<and> c = Delete p \<and>
                 map_of (params (delete_request p)) ''permanently'' = Some (PBool True))"
        by (simp add: delete_candidates_set)
    qed
    have all: "r = Inr () \<longrightarrow>
            (\<forall>rel. rel \<in> set (dict_keys current_cloud) \<and> rel \<notin> set (dict_keys current_local) \<and>
                   rel \<notin> set (processed_files ?pairs) \<longrightarrow>
               (\<exists>p. remote_path current_cloud rel = Some p \<and>
                    (Deletion rel, Delete p, True) \<in> set (new_events s s')))"
    proof (intro allI impI)
      fix rel
      assume ok: "r = Inr ()"
      assume h: "rel \<in> set (dict_keys current_cloud) \<and> rel \<notin> set (dict_keys current_local) \<and>
                   rel \<notin> set (processed_files ?pairs)"
      then have c: "rel \<in> set ?dcands" by (simp add: delete_candidates_set)
      from fin ok have e4: "E4 = map (\<lambda>x. (Deletion x, ?del x, True))
               (filter (\<lambda>x. remote_path current_cloud x \<noteq> None) ?dcands)"
        and rd: "\<forall>x \<in> set ?dcands. remote_path current_cloud x \<noteq> None" by simp_all
      from rd c obtain p where p: "remote_path current_cloud rel = Some p" by auto
      with c have "rel \<in> set (filter (\<lambda>x. remote_path current_cloud x \<noteq> None) ?dcands)" by simp
      then have "(Deletion rel, ?del rel, True) \<in> set E4"
        unfolding e4 by (simp add: image_iff del: set_filter)
      with p have "(Deletion rel, Delete p, True) \<in> set (new_events s s')"
        unfolding ne by simp
      with p show "\<exists>p. remote_path current_cloud rel = Some p \<and>
                    (Deletion rel, Delete p, True) \<in> set (new_events s s')" by simp
    qed
    show ?thesis by (intro conjI) (rule only, rule all)
  qed
qed

theorem deletions_issued_witness:
  "process_local_changes as_listed disk_after_edit sample_strptime (sample_client renames_fail)
       after_edit cloud_before_edit before_edit ''/home/u/sync'' empty_run =
     (Inr (),
      \<lparr>events =
         [(FileRename ''c.txt'' ''d.txt'', Rename ''/Backup/c.txt'' ''/Backup/d.txt'', False),
          (FileRename ''c.txt'' ''d.txt'', Load ''/home/u/sync/d.txt'' ''d.txt'', False),
          (Upload ''b.txt'', Load ''/home/u/sync/b.txt'' ''b.txt'', True),
          (Deletion ''a.txt'', Delete (PStr ''disk:/Backup/a.txt''), True)],
       errors_logged = [FileRenameError ''c.txt'' ''d.txt'']\<rparr>) \<and>
   ''a.txt'' \<in> set (dict_keys cloud_before_edit) \<and>
   ''a.txt'' \<notin> set (dict_keys after_edit) \<and>
   ''a.txt'' \<notin> set (processed_files
       (find_renamed_files as_listed disk_after_edit after_edit cloud_before_edit before_edit ''/home/u/sync'')) \<and>
   remote_path cloud_before_edit ''a.txt'' = Some (PStr ''disk:/Backup/a.txt'') \<and>
   map_of (params (delete_request (PStr ''disk:/Backup/a.txt''))) ''permanently'' = Some (PBool True)"
proof -
  let ?s' = "\<lparr>events =
         [(FileRename ''c.txt'' ''d.txt'', Rename ''/Backup/c.txt'' ''/Backup/d.txt'', False),
          (FileRename ''c.txt'' ''d.txt'', Load ''/home/u/sync/d.txt'' ''d.txt'', False),
          (Upload ''b.txt'', Load ''/home/u/sync/b.txt'' ''b.txt'', True),
          (Deletion ''a.txt'', Delete (PStr ''disk:/Backup/a.txt''), True)],
       errors_logged = [FileRenameError ''c.txt'' ''d.txt'']\<rparr>"
  have run: "process_local_changes as_listed disk_after_edit sample_strptime (sample_client renames_fail)
       after_edit cloud_before_edit before_edit ''/home/u/sync'' empty_run = (Inr (), ?s')"
    by code_simp
  have d: "(Deletion ''a.txt'', Delete (PStr ''disk:/Backup/a.txt''), True) \<in> set (new_events empty_run ?s')"
    by (simp add: new_events_def empty_run_def)
  from deletions_issued [OF run, THEN conjunct1, rule_format, OF d] run
  show ?thesis by auto
qed

text \<open>
  C7 as stated fails in a run that is cut short: of two remote files that are gone
  locally, the second is not deleted once the delete of the first has failed.
\<close>

theorem deletion_skipped_counterexample:
  "process_local_changes as_listed Map.empty sample_strptime (sample_client delete_of_a_fails)
       [] cloud_before_edit [] ''/home/u/sync'' empty_run =
     (Inl CloudStorageError,
      \<lparr>events = [(Deletion ''a.txt'', Delete (PStr ''disk:/Backup/a.txt''), False)],
       errors_logged = []\<rparr>) \<and>
   ''c.txt'' \<in> set (dict_keys cloud_before_edit) \<and>
   ''c.txt'' \<notin> set (dict_keys ([] :: local_state)) \<and>
   ''c.txt'' \<notin> set (processed_files
        (find_renamed_files as_listed Map.empty [] cloud_before_edit [] ''/home/u/sync'')) \<and>
   [ev \<leftarrow> events (snd (process_local_changes as_listed Map.empty sample_strptime
                          (sample_client delete_of_a_fails) [] cloud_before_edit [] ''/home/u/sync'' empty_run)).
      fst ev = Deletion ''c.txt''] = []"
  by code_simp

subsection \<open>C10: a remote time that does not parse\<close>

text \<open>
  C10, as amended. Parsing a remote modification time never fails: a value that is not a
  string, or a string whose first 19 characters the library does not parse, gives 0. So
  for a local path with a positive modification time whose remote entry has such a value
  under \<^verbatim>\<open>'modified'\<close>, the body of step 3 is the upload call, whatever the baseline
  says; and in a run that returns normally the upload of every such path that the file
  renames did not process has been made.
\<close>

theorem malformed_remote_time:
  assumes run: "process_local_changes rank fs strptime cl current_local current_cloud last_local local_path s = (r, s')"
  shows "(\<forall>v. (\<forall>t. v = PStr t \<longrightarrow> strptime (take 19 t) = None) \<longrightarrow> parse_cloud_time strptime v = 0) \<and>
         (\<forall>rel mtime fsize item v s0.
            map_of current_local rel = Some (mtime, fsize) \<and>
            map_of current_cloud rel = Some item \<and>
            item ''modified'' = Some v \<and>
            (\<forall>t. v = PStr t \<longrightarrow> strptime (take 19 t) = None) \<and>
            0 < mtime \<longrightarrow>
            upload_item strptime cl current_local current_cloud last_local local_path rel s0 =
              client_call cl (Upload rel) (Load (path_join local_path rel) rel) s0 \<and>
            (r = Inr () \<and>
             rel \<notin> set (processed_files
                          (find_renamed_files rank fs current_local current_cloud last_local local_path)) \<longrightarrow>
               (Upload rel, Load (path_join local_path rel) rel, True) \<in> set (new_events s s')))"
proof (intro conjI allI impI)
  fix v assume "\<forall>t. v = PStr t \<longrightarrow> strptime (take 19 t) = None"
  then show "parse_cloud_time strptime v = 0" by (rule parse_cloud_time_fallback)
next
  fix rel mtime fsize item v s0
  assume h: "map_of current_local rel = Some (mtime, fsize) \<and>
            map_of current_cloud rel = Some item \<and>
            item ''modified'' = Some v \<and>
            (\<forall>t. v = PStr t \<longrightarrow> strptime (take 19 t) = None) \<and>
            0 < mtime"
  then have z: "parse_cloud_time strptime v = 0" by (simp add: parse_cloud_time_fallback)
  from h z show "upload_item strptime cl current_local current_cloud last_local local_path rel s0 =
              client_call cl (Upload rel) (Load (path_join local_path rel) rel) s0"
    by (intro upload_item_unparsed(1) [where v = v and item = item and mtime = mtime and fsize = fsize]) simp_all
next
  fix rel mtime fsize item v s0
  assume h: "map_of current_local rel = Some (mtime, fsize) \<and>
            map_of current_cloud rel = Some item \<and>
            item ''modified'' = Some v \<and>
            (\<forall>t. v = PStr t \<longrightarrow> strptime (take 19 t) = None) \<and>
            0 < mtime"
  assume g: "r = Inr () \<and>
             rel \<notin> set (processed_files
                          (find_renamed_files rank fs current_local current_cloud last_local local_path))"
  from h have z: "parse_cloud_time strptime v = 0" by (simp add: parse_cloud_time_fallback)
  from h z have due: "upload_due strptime current_local current_cloud last_local rel"
    by (intro upload_item_unparsed(2) [where v = v and item = item and mtime = mtime and fsize = fsize]) simp_all
  from h have k: "rel \<in> set (dict_keys current_local)"
    by (auto simp: dict_keys_def dest: map_of_SomeD intro: rev_image_eqI)
  from step3_uploads [OF run, THEN conjunct2, rule_format, of rel] g k due
  show "(Upload rel, Load (path_join local_path rel) rel, True) \<in> set (new_events s s')" by simp
qed

theorem malformed_remote_time_witness:
  "process_local_changes as_listed Map.empty sample_strptime (sample_client (\<lambda>c. True))
       edited_tree edited_cloud edited_baseline ''/home/u/sync'' empty_run =
     (Inr (),
      \<lparr>events =
         [(Upload ''x.txt'', Load ''/home/u/sync/x.txt'' ''x.txt'', True),
          (Upload ''y.txt'', Load ''/home/u/sync/y.txt'' ''y.txt'', True)],
       errors_logged = []\<rparr>) \<and>
   map_of edited_tree ''y.txt'' = Some (1, 10) \<and>
   map_of edited_cloud ''y.txt'' = Some (file_item ''disk:/Backup/y.txt'' 10 ''yesterday'') \<and>
   file_item ''disk:/Backup/y.txt'' 10 ''yesterday'' ''modified'' = Some (PStr ''yesterday'') \<and>
   sample_strptime (take 19 ''yesterday'') = None \<and>
   (0 :: real) < 1 \<and>
   ''y.txt'' \<notin> set (processed_files
       (find_renamed_files as_listed Map.empty edited_tree edited_cloud edited_baseline ''/home/u/sync'')) \<and>
   upload_item sample_strptime (sample_client (\<lambda>c. True)) edited_tree edited_cloud edited_baseline
       ''/home/u/sync'' ''y.txt'' empty_run =
     client_call (sample_client (\<lambda>c. True)) (Upload ''y.txt'') (Load (path_join ''/home/u/sync'' ''y.txt'') ''y.txt'')
       empty_run \<and>
   (Upload ''y.txt'', Load (path_join ''/home/u/sync'' ''y.txt'') ''y.txt'', True) \<in>
     set (new_events empty_run
       \<lparr>events =
         [(Upload ''x.txt'', Load ''/home/u/sync/x.txt'' ''x.txt'', True),
          (Upload ''y.txt'', Load ''/home/u/sync/y.txt'' ''y.txt'', True)],
       errors_logged = []\<rparr>)"
proof -
  let ?s' = "\<lparr>events =
         [(Upload ''x.txt'', Load ''/home/u/sync/x.txt'' ''x.txt'', True),
          (Upload ''y.txt'', Load ''/home/u/sync/y.txt'' ''y.txt'', True)],
       errors_logged = []\<rparr>"
  have run: "process_local_changes as_listed Map.empty sample_strptime (sample_client (\<lambda>c. True))
       edited_tree edited_cloud edited_baseline ''/home/u/sync'' empty_run = (Inr (), ?s')"
    by code_simp
  have l: "map_of edited_tree ''y.txt'' = Some (1, 10)" by (simp add: edited_tree_def)
  have c: "map_of edited_cloud ''y.txt'' = Some (file_item ''disk:/Backup/y.txt'' 10 ''yesterday'')"
    by (simp add: edited_cloud_def)
  have m: "file_item ''disk:/Backup/y.txt'' 10 ''yesterday'' ''modified'' = Some (PStr ''yesterday'')"
    by (simp add: file_item_def)
  have u: "\<forall>t. PStr ''yesterday'' = PStr t \<longrightarrow> sample_strptime (take 19 t) = None"
    by (simp add: sample_strptime_def)
  have np: "''y.txt'' \<notin> set (processed_files
       (find_renamed_files as_listed Map.empty edited_tree edited_cloud edited_baseline ''/home/u/sync''))"
    by code_simp
  have pos: "(0 :: real) < 1" by simp
  note t = malformed_remote_time [OF run, THEN conjunct2, rule_format,
      of "''y.txt''" 1 10 "file_item ''disk:/Backup/y.txt'' 10 ''yesterday''" "PStr ''yesterday''"]
  from l c m u pos have h: "map_of edited_tree ''y.txt'' = Some (1, 10) \<and>
     map_of edited_cloud ''y.txt'' = Some (file_item ''disk:/Backup/y.txt'' 10 ''yesterday'') \<and>
     file_item ''disk:/Backup/y.txt'' 10 ''yesterday'' ''modified'' = Some (PStr ''yesterday'') \<and>
     (\<forall>t. PStr ''yesterday'' = PStr t \<longrightarrow> sample_strptime (take 19 t) = None) \<and> (0 :: real) < 1"
    by blast
  from t [OF h, of empty_run] np
  have "upload_item sample_strptime (sample_client (\<lambda>c. True)) edited_tree edited_cloud edited_baseline
       ''/home/u/sync'' ''y.txt'' empty_run =
     client_call (sample_client (\<lambda>c. True)) (Upload ''y.txt'') (Load (path_join ''/home/u/sync'' ''y.txt'') ''y.txt'')
       empty_run"
    and "(Upload ''y.txt'', Load (path_join ''/home/u/sync'' ''y.txt'') ''y.txt'', True) \<in>
     set (new_events empty_run ?s')"
    by simp_all
  with run l c m np show ?thesis by (simp add: sample_strptime_def)
qed

text \<open>
  C10 as stated fails for metadata that is missing: with no \<^verbatim>\<open>'modified'\<close> key in the
  remote entry of an unchanged local file of positive modification time, step 3 raises
  \<open>KeyError\<close> and no upload is issued.
\<close>

theorem missing_remote_time_counterexample:
  "process_local_changes as_listed Map.empty sample_strptime (sample_client (\<lambda>c. True))
       tree_of_y cloud_without_time tree_of_y ''/home/u/sync'' empty_run =
     (Inl (KeyError ''modified''), \<lparr>events = [], errors_logged = []\<rparr>) \<and>
   map_of tree_of_y ''y.txt'' = Some (1, 10) \<and> (0 :: real) < 1 \<and>
   dict_get [''path'' \<mapsto> PStr ''disk:/Backup/y.txt'', ''type'' \<mapsto> PStr ''file'', ''size'' \<mapsto> PInt 10]
     ''modified'' = PNone"
  by code_simp

subsection \<open>C8: a second tick on the same snapshots\<close>

text \<open>
  C8, as amended. After an incremental tick that committed its snapshots as the baseline, a
  second tick that observes the same local snapshot (with unique keys) and the same remote
  snapshot makes no remote call and leaves the baseline as it is, provided the local
  snapshot is not empty or the remote snapshot is empty.
\<close>

theorem second_tick_idle:
  assumes first: "sync rank fs strptime cl local_path current_local get_recursive_info st0 s0 =
                    (Inr Synced, st1, s1)"
      and same: "scan_cloud_files_with_retry cl get_recursive_info' 3 =
                 scan_cloud_files_with_retry cl get_recursive_info 3"
      and dist: "distinct (dict_keys current_local)"
      and quiet: "current_local \<noteq> [] \<or> last_cloud_state st1 = []"
  shows "last_local_state st1 = current_local \<and>
         scan_cloud_files_with_retry cl get_recursive_info 3 = Inr (Some (last_cloud_state st1)) \<and>
         events (snd (snd (sync rank' fs' strptime' cl local_path current_local get_recursive_info' st1 s)))
           = events s \<and>
         fst (snd (sync rank' fs' strptime' cl local_path current_local get_recursive_info' st1 s)) = st1 \<and>
         fst (sync rank' fs' strptime' cl local_path current_local get_recursive_info' st1 s)
           \<in> {Inr NoChanges, Inr Synced}"
proof -
  from sync_synced [OF first] obtain cc where
    sc: "scan_cloud_files_with_retry cl get_recursive_info 3 = Inr (Some cc)" and
    st1: "st1 = \<lparr>last_local_state = current_local, last_cloud_state = cc\<rparr>" by blast
  from same sc have sc': "scan_cloud_files_with_retry cl get_recursive_info' 3 = Inr (Some cc)" by simp
  have lc: "check_local_changes current_local current_local \<longleftrightarrow> current_local = []"
    by (rule check_local_changes_same [OF dist])
  have cc: "check_cloud_changes cc cc \<longleftrightarrow> cc = []"
    by (rule check_cloud_changes_same [OF scan_distinct [OF sc]])
  have second: "sync rank' fs' strptime' cl local_path current_local get_recursive_info' st1 s =
          (if current_local \<noteq> [] \<and> cc \<noteq> [] then Inr NoChanges else Inr Synced, st1, s)"
  proof (cases "current_local = []")
    case True
    with quiet st1 have "cc = []" by simp
    with True sc' st1 lc show ?thesis
      by (simp add: sync_def Let_def process_local_changes_nothing)
  next
    case False
    with sc' st1 lc cc show ?thesis by (simp add: sync_def Let_def)
  qed
  from st1 sc second show ?thesis by simp
qed

theorem second_tick_idle_witness:
  "sync as_listed disk_after_edit sample_strptime (sample_client (\<lambda>c. True)) ''/home/u/sync''
       after_edit listing_before_edit
       \<lparr>last_local_state = before_edit, last_cloud_state = cloud_before_edit\<rparr> empty_run =
     (Inr Synced,
      \<lparr>last_local_state = after_edit, last_cloud_state = cloud_before_edit\<rparr>,
      \<lparr>events =
         [(FileRename ''c.txt'' ''d.txt'', Rename ''/Backup/c.txt'' ''/Backup/d.txt'', True),
          (Upload ''b.txt'', Load ''/home/u/sync/b.txt'' ''b.txt'', True),
          (Deletion ''a.txt'', Delete (PStr ''disk:/Backup/a.txt''), True)],
       errors_logged = []\<rparr>) \<and>
   distinct (dict_keys after_edit) \<and> after_edit \<noteq> [] \<and>
   events (snd (snd (sync as_listed disk_after_edit sample_strptime (sample_client (\<lambda>c. True))
       ''/home/u/sync'' after_edit listing_before_edit
       \<lparr>last_local_state = after_edit, last_cloud_state = cloud_before_edit\<rparr>
       \<lparr>events =
         [(FileRename ''c.txt'' ''d.txt'', Rename ''/Backup/c.txt'' ''/Backup/d.txt'', True),
          (Upload ''b.txt'', Load ''/home/u/sync/b.txt'' ''b.txt'', True),
          (Deletion ''a.txt'', Delete (PStr ''disk:/Backup/a.txt''), True)],
       errors_logged = []\<rparr>))) =
     [(FileRename ''c.txt'' ''d.txt'', Rename ''/Backup/c.txt'' ''/Backup/d.txt'', True),
      (Upload ''b.txt'', Load ''/home/u/sync/b.txt'' ''b.txt'', True),
      (Deletion ''a.txt'', Delete (PStr ''disk:/Backup/a.txt''), True)]"
proof -
  let ?s1 = "\<lparr>events =
         [(FileRename ''c.txt'' ''d.txt'', Rename ''/Backup/c.txt'' ''/Backup/d.txt'', True),
          (Upload ''b.txt'', Load ''/home/u/sync/b.txt'' ''b.txt'', True),
          (Deletion ''a.txt'', Delete (PStr ''disk:/Backup/a.txt''), True)],
       errors_logged = []\<rparr>"
  let ?st1 = "\<lparr>last_local_state = after_edit, last_cloud_state = cloud_before_edit\<rparr>"
  have lc: "check_local_changes after_edit before_edit" by code_simp
  have run: "process_local_changes as_listed disk_after_edit sample_strptime (sample_client (\<lambda>c. True))
       after_edit cloud_before_edit before_edit ''/home/u/sync'' empty_run = (Inr (), ?s1)"
    by code_simp
  have first: "sync as_listed disk_after_edit sample_strptime (sample_client (\<lambda>c. True)) ''/home/u/sync''
       after_edit listing_before_edit
       \<lparr>last_local_state = before_edit, last_cloud_state = cloud_before_edit\<rparr> empty_run =
     (Inr Synced, ?st1, ?s1)"
    using lc run by (simp add: sync_def scan_before_edit)
  have d: "distinct (dict_keys after_edit)" by code_simp
  have n: "after_edit \<noteq> []" by (simp add: after_edit_def)
  from n have q: "after_edit \<noteq> [] \<or> last_cloud_state ?st1 = []" by simp
  from second_tick_idle [OF first refl d q, of as_listed disk_after_edit sample_strptime ?s1]
  have "events (snd (snd (sync as_listed disk_after_edit sample_strptime (sample_client (\<lambda>c. True))
       ''/home/u/sync'' after_edit listing_before_edit ?st1 ?s1))) = events ?s1" by simp
  with first d n show ?thesis by simp
qed

text \<open>
  C8 as stated fails when the local folder is empty and the remote side is not: the empty
  local baseline fires the local signal on every tick, so the second tick, observing the
  snapshots the first one committed, issues the delete of the remote file again.
\<close>

theorem empty_local_counterexample:
  "sync as_listed Map.empty sample_strptime (sample_client (\<lambda>c. True)) ''/home/u/sync''
       [] listing_only_a \<lparr>last_local_state = [], last_cloud_state = []\<rparr> empty_run =
     (Inr Synced,
      \<lparr>last_local_state = [], last_cloud_state = cloud_only_a\<rparr>,
      \<lparr>events = [(Deletion ''a.txt'', Delete (PStr ''disk:/Backup/a.txt''), True)],
       errors_logged = []\<rparr>) \<and>
   scan_cloud_files_with_retry (sample_client (\<lambda>c. True)) listing_only_a 3 = Inr (Some cloud_only_a) \<and>
   sync as_listed Map.empty sample_strptime (sample_client (\<lambda>c. True)) ''/home/u/sync''
       [] listing_only_a \<lparr>last_local_state = [], last_cloud_state = cloud_only_a\<rparr>
       \<lparr>events = [(Deletion ''a.txt'', Delete (PStr ''disk:/Backup/a.txt''), True)],
        errors_logged = []\<rparr> =
     (Inr Synced,
      \<lparr>last_local_state = [], last_cloud_state = cloud_only_a\<rparr>,
      \<lparr>events = [(Deletion ''a.txt'', Delete (PStr ''disk:/Backup/a.txt''), True),
                 (Deletion ''a.txt'', Delete (PStr ''disk:/Backup/a.txt''), True)],
       errors_logged = []\<rparr>)"
proof -
  have p1: "process_local_changes as_listed Map.empty sample_strptime (sample_client (\<lambda>c. True))
       [] cloud_only_a [] ''/home/u/sync'' empty_run =
     (Inr (), \<lparr>events = [(Deletion ''a.txt'', Delete (PStr ''disk:/Backup/a.txt''), True)],
       errors_logged = []\<rparr>)"
    by code_simp
  have p2: "process_local_changes as_listed Map.empty sample_strptime (sample_client (\<lambda>c. True))
       [] cloud_only_a [] ''/home/u/sync''
       \<lparr>events = [(Deletion ''a.txt'', Delete (PStr ''disk:/Backup/a.txt''), True)],
        errors_logged = []\<rparr> =
     (Inr (), \<lparr>events = [(Deletion ''a.txt'', Delete (PStr ''disk:/Backup/a.txt''), True),
                 (Deletion ''a.txt'', Delete (PStr ''disk:/Backup/a.txt''), True)],
       errors_logged = []\<rparr>)"
    by code_simp
  have lc: "check_local_changes [] []" by (simp add: check_local_changes_def)
  from p1 p2 lc show ?thesis by (simp add: sync_def scan_only_a)
qed

end
